(* ===== verification/RhPrelude.thy ===== *)
theory RhPrelude
  imports Main "HOL-Library.Word"
begin

text \<open>
  Shared vocabulary of the development.

  \<^item> The machine integers of the program (\<open>u8\<close>, \<open>u16\<close>, \<open>u32\<close>, \<open>u64\<close>) are words of that width where the
    code works bitwise on them, and natural numbers with the saturation written out where the code
    counts.
  \<^item> A Rust \<open>String\<close> or \<open>&str\<close> is the list of its characters, each character its Unicode scalar value
    (\<open>ustr\<close>); \<open>lit\<close> embeds an ASCII literal. \<open>utf8_bytes\<close> gives the bytes a string occupies, which is
    what \<open>str::len\<close> and \<open>as_bytes\<close> see.
  \<^item> A monotonic \<open>Instant\<close> is a natural number of nanoseconds since some fixed start, a \<open>Duration\<close> a
    natural number of nanoseconds.
  \<^item> \<open>Result<T, E>\<close> is \<open>'e + 't\<close>, with \<open>Inl\<close> for \<open>Err\<close>, and \<open>?\<close> is \<open>and_then\<close>.
\<close>

named_theorems str_defs "definitions that evaluate string operations"
named_theorems result_simps "rewrites for results threaded with and_then"

section \<open>Machine integers and bytes\<close>

type_synonym u8 = "8 word"
type_synonym u16 = "16 word"
type_synonym u32 = "32 word"
type_synonym u64 = "64 word"
type_synonym bytes = "u8 list"

text \<open>\<open>u16::to_le_bytes\<close> and the reader that undoes it.\<close>

definition u16_to_le_bytes :: "u16 \<Rightarrow> bytes" where
  "u16_to_le_bytes w = [ucast w, ucast (drop_bit 8 w)]"

definition u16_from_le_bytes :: "u8 \<Rightarrow> u8 \<Rightarrow> u16" where
  "u16_from_le_bytes lo hi = or (ucast lo) (push_bit 8 (ucast hi))"

lemma u16_le_round_trip [simp]:
  "u16_from_le_bytes (ucast w) (ucast (drop_bit 8 w)) = w"
proof (rule bit_word_eqI)
  fix n
  assume "n < LENGTH(16)"
  then have "n < 16" by simp
  then show "bit (u16_from_le_bytes (ucast w) (ucast (drop_bit 8 w))) n = bit w n"
    by (auto simp: u16_from_le_bytes_def bit_or_iff bit_ucast_iff bit_push_bit_iff bit_drop_bit_eq)
qed

lemma u16_from_le_bytes_inverse:
  "u16_to_le_bytes (u16_from_le_bytes lo hi) = [lo, hi]"
proof -
  have "ucast (u16_from_le_bytes lo hi) = lo"
    by (rule bit_word_eqI)
      (auto simp: u16_from_le_bytes_def bit_or_iff bit_ucast_iff bit_push_bit_iff)
  moreover have "ucast (drop_bit 8 (u16_from_le_bytes lo hi)) = hi"
  proof (rule bit_word_eqI)
    fix n
    assume n: "n < LENGTH(8)"
    have "\<not> bit lo (8 + n)" using bit_imp_le_length [of lo "8 + n"] by auto
    with n show "bit (ucast (drop_bit 8 (u16_from_le_bytes lo hi)) :: u8) n = bit hi n"
      by (auto simp: u16_from_le_bytes_def bit_or_iff bit_ucast_iff bit_push_bit_iff bit_drop_bit_eq)
  qed
  ultimately show ?thesis by (simp add: u16_to_le_bytes_def)
qed

lemma u16_from_le_bytes_eq:
  "u16_from_le_bytes lo hi = w \<longleftrightarrow> [lo, hi] = u16_to_le_bytes w"
proof
  assume "u16_from_le_bytes lo hi = w"
  then show "[lo, hi] = u16_to_le_bytes w" using u16_from_le_bytes_inverse [of lo hi] by simp
next
  assume "[lo, hi] = u16_to_le_bytes w"
  then have "lo = ucast w" "hi = ucast (drop_bit 8 w)" by (simp_all add: u16_to_le_bytes_def)
  then show "u16_from_le_bytes lo hi = w" by simp
qed

text \<open>\<open>u32::MAX\<close>, and \<open>saturating_add\<close> on a \<open>u32\<close> counter kept as a natural number.\<close>

definition u32_max :: nat where
  "u32_max = 4294967295"

definition sat_add_u32 :: "nat \<Rightarrow> nat \<Rightarrow> nat" where
  "sat_add_u32 a b = min (a + b) u32_max"

lemma sat_add_u32_le: "sat_add_u32 a b \<le> u32_max"
  by (simp add: sat_add_u32_def)

lemma sat_add_u32_mono: "a \<le> u32_max \<Longrightarrow> a \<le> sat_add_u32 a b"
  by (simp add: sat_add_u32_def)

section \<open>Results\<close>

text \<open>The \<open>?\<close> operator: the first error ends the function.\<close>

definition and_then :: "'e + 'a \<Rightarrow> ('a \<Rightarrow> 'e + 'b) \<Rightarrow> 'e + 'b" where
  "and_then r f = (case r of Inl e \<Rightarrow> Inl e | Inr x \<Rightarrow> f x)"

lemma and_then_simps [simp, result_simps]:
  "and_then (Inl e) f = Inl e"
  "and_then (Inr x) f = f x"
  by (simp_all add: and_then_def)

lemma and_then_eq_Inr [result_simps]:
  "and_then r f = Inr y \<longleftrightarrow> (\<exists>x. r = Inr x \<and> f x = Inr y)"
  by (cases r) simp_all

lemma and_then_eq_Inl [result_simps]:
  "and_then r f = Inl e \<longleftrightarrow> r = Inl e \<or> (\<exists>x. r = Inr x \<and> f x = Inl e)"
  by (cases r) simp_all

text \<open>\<open>iter().map(f).collect::<Result<Vec<_>, _>>()\<close>: the first error in list order.\<close>

fun collect_results :: "('a \<Rightarrow> 'e + 'b) \<Rightarrow> 'a list \<Rightarrow> 'e + 'b list" where
  "collect_results f [] = Inr []"
| "collect_results f (x # xs) =
     and_then (f x) (\<lambda>y. and_then (collect_results f xs) (\<lambda>ys. Inr (y # ys)))"

lemma collect_results_eq_Inr:
  "collect_results f xs = Inr ys \<longleftrightarrow> list_all2 (\<lambda>x y. f x = Inr y) xs ys"
proof (induction xs arbitrary: ys)
  case Nil
  then show ?case by auto
next
  case (Cons x xs)
  then show ?case by (cases ys) (auto simp: result_simps)
qed

lemma collect_results_total:
  "(\<And>x. x \<in> set xs \<Longrightarrow> \<exists>y. f x = Inr y) \<Longrightarrow> \<exists>ys. collect_results f xs = Inr ys"
proof (induction xs)
  case Nil
  then show ?case by simp
next
  case (Cons x xs)
  then obtain y ys where "f x = Inr y" and "collect_results f xs = Inr ys" by fastforce
  then show ?case by simp
qed

text \<open>A \<open>for\<close> loop whose body may fail: it runs until the first error.\<close>

fun for_each :: "('a \<Rightarrow> 'e + unit) \<Rightarrow> 'a list \<Rightarrow> 'e + unit" where
  "for_each f [] = Inr ()"
| "for_each f (x # xs) = and_then (f x) (\<lambda>_. for_each f xs)"

lemma for_each_eq_Inr: "for_each f xs = Inr () \<longleftrightarrow> (\<forall>x \<in> set xs. f x = Inr ())"
  by (induction xs) (auto simp: and_then_eq_Inr)

section \<open>Unicode strings\<close>

type_synonym uchar = nat
type_synonym ustr = "uchar list"

definition lit :: "string \<Rightarrow> ustr" where
  "lit s = map of_char s"

lemma lit_simps [simp]:
  "lit [] = []" "lit (c # cs) = of_char c # lit cs"
  by (simp_all add: lit_def)

lemma lit_append: "lit (s @ t) = lit s @ lit t"
  by (simp add: lit_def)

lemma length_lit [simp]: "length (lit s) = length s"
  by (simp add: lit_def)

lemma lit_eq_Nil [simp]: "lit s = [] \<longleftrightarrow> s = []"
  by (simp add: lit_def)

text \<open>\<open>char::is_whitespace\<close>: the Unicode White\_Space property.\<close>

definition is_whitespace :: "uchar \<Rightarrow> bool" where
  "is_whitespace c \<longleftrightarrow> (9 \<le> c \<and> c \<le> 13) \<or> c = 32 \<or> c = 133 \<or> c = 160 \<or> c = 5760
     \<or> (8192 \<le> c \<and> c \<le> 8202) \<or> c = 8232 \<or> c = 8233 \<or> c = 8239 \<or> c = 8287 \<or> c = 12288"

definition is_ascii_digit :: "uchar \<Rightarrow> bool" where
  "is_ascii_digit c \<longleftrightarrow> 48 \<le> c \<and> c \<le> 57"

definition to_ascii_uppercase :: "uchar \<Rightarrow> uchar" where
  "to_ascii_uppercase c = (if 97 \<le> c \<and> c \<le> 122 then c - 32 else c)"

definition to_ascii_lowercase :: "uchar \<Rightarrow> uchar" where
  "to_ascii_lowercase c = (if 65 \<le> c \<and> c \<le> 90 then c + 32 else c)"

definition eq_ignore_ascii_case :: "ustr \<Rightarrow> ustr \<Rightarrow> bool" where
  "eq_ignore_ascii_case a b \<longleftrightarrow> map to_ascii_lowercase a = map to_ascii_lowercase b"

definition trim_start :: "ustr \<Rightarrow> ustr" where
  "trim_start = dropWhile is_whitespace"

definition trim_end :: "ustr \<Rightarrow> ustr" where
  "trim_end s = rev (dropWhile is_whitespace (rev s))"

definition trim :: "ustr \<Rightarrow> ustr" where
  "trim s = trim_end (trim_start s)"

text \<open>\<open>str::starts_with\<close>, \<open>str::strip_prefix\<close> and \<open>str::contains\<close>.\<close>

fun strip_prefix :: "'a list \<Rightarrow> 'a list \<Rightarrow> 'a list option" where
  "strip_prefix [] s = Some s"
| "strip_prefix (p # ps) [] = None"
| "strip_prefix (p # ps) (c # s) = (if p = c then strip_prefix ps s else None)"

definition starts_with :: "'a list \<Rightarrow> 'a list \<Rightarrow> bool" where
  "starts_with p s \<longleftrightarrow> strip_prefix p s \<noteq> None"

lemma strip_prefix_eq_Some: "strip_prefix p s = Some t \<longleftrightarrow> s = p @ t"
  by (induction p s rule: strip_prefix.induct) auto

lemma starts_with_iff: "starts_with p s \<longleftrightarrow> (\<exists>t. s = p @ t)"
  by (auto simp: starts_with_def strip_prefix_eq_Some)

fun contains_sub :: "'a list \<Rightarrow> 'a list \<Rightarrow> bool" where
  "contains_sub [] sub \<longleftrightarrow> sub = []"
| "contains_sub (c # s) sub \<longleftrightarrow> starts_with sub (c # s) \<or> contains_sub s sub"

lemma contains_sub_iff: "contains_sub s sub \<longleftrightarrow> (\<exists>u v. s = u @ sub @ v)"
proof (induction s)
  case Nil
  then show ?case by auto
next
  case (Cons c s)
  show ?case
  proof
    assume "contains_sub (c # s) sub"
    then consider "starts_with sub (c # s)" | "contains_sub s sub" by auto
    then show "\<exists>u v. c # s = u @ sub @ v"
    proof cases
      case 1
      then show ?thesis by (metis append_Nil starts_with_iff)
    next
      case 2
      with Cons show ?thesis by (metis append_Cons)
    qed
  next
    assume "\<exists>u v. c # s = u @ sub @ v"
    then obtain u v where uv: "c # s = u @ sub @ v" by blast
    show "contains_sub (c # s) sub"
    proof (cases u)
      case Nil
      with uv have "starts_with sub (c # s)" by (auto simp: starts_with_iff)
      then show ?thesis by simp
    next
      case (Cons d u')
      with uv have "s = u' @ sub @ v" by simp
      with \<open>contains_sub s sub \<longleftrightarrow> (\<exists>u v. s = u @ sub @ v)\<close> show ?thesis by auto
    qed
  qed
qed

text \<open>UTF-8: what \<open>as_bytes\<close> yields and \<open>str::len\<close> counts.\<close>

definition utf8_char :: "uchar \<Rightarrow> bytes" where
  "utf8_char c =
     (if c < 128 then [of_nat c]
      else if c < 2048 then [of_nat (192 + c div 64), of_nat (128 + c mod 64)]
      else if c < 65536 then
        [of_nat (224 + c div 4096), of_nat (128 + c div 64 mod 64), of_nat (128 + c mod 64)]
      else
        [of_nat (240 + c div 262144), of_nat (128 + c div 4096 mod 64),
         of_nat (128 + c div 64 mod 64), of_nat (128 + c mod 64)])"

definition utf8_bytes :: "ustr \<Rightarrow> bytes" where
  "utf8_bytes s = concat (map utf8_char s)"

definition str_len :: "ustr \<Rightarrow> nat" where
  "str_len s = length (utf8_bytes s)"

lemma utf8_char_length: "1 \<le> length (utf8_char c)" "length (utf8_char c) \<le> 4"
  by (simp_all add: utf8_char_def)

lemma length_le_str_len: "length s \<le> str_len s"
proof (induction s)
  case Nil
  then show ?case by simp
next
  case (Cons c s)
  then show ?case
    using utf8_char_length(1) [of c] by (simp add: str_len_def utf8_bytes_def)
qed

section \<open>Hexadecimal digits\<close>

text \<open>\<open>{:x}\<close> of a nibble, \<open>{:02x}\<close> of a byte and \<open>char::to_digit(16)\<close>.\<close>

definition hex_digit :: "nat \<Rightarrow> uchar" where
  "hex_digit n = (if n < 10 then 48 + n else 87 + n)"

definition hex_byte :: "u8 \<Rightarrow> ustr" where
  "hex_byte b = [hex_digit (unat b div 16), hex_digit (unat b mod 16)]"

definition to_digit16 :: "uchar \<Rightarrow> nat option" where
  "to_digit16 c =
     (if 48 \<le> c \<and> c \<le> 57 then Some (c - 48)
      else if 97 \<le> c \<and> c \<le> 102 then Some (c - 87)
      else if 65 \<le> c \<and> c \<le> 70 then Some (c - 55)
      else None)"

lemma to_digit16_hex_digit [simp]: "n < 16 \<Longrightarrow> to_digit16 (hex_digit n) = Some n"
  by (auto simp: to_digit16_def hex_digit_def)

lemma to_digit16_bound: "to_digit16 c = Some d \<Longrightarrow> d < 16"
  by (auto simp: to_digit16_def split: if_splits)

lemma hex_digit_inject: "m < 16 \<Longrightarrow> n < 16 \<Longrightarrow> hex_digit m = hex_digit n \<longleftrightarrow> m = n"
  by (auto simp: hex_digit_def)

lemma unat_byte_bound [simp]: "unat (b :: u8) < 256"
  using unsigned_less [of b] by simp

lemma hex_byte_inject: "hex_byte a = hex_byte b \<longleftrightarrow> a = b"
proof
  assume "hex_byte a = hex_byte b"
  moreover have "unat a div 16 < 16" "unat b div 16 < 16"
    by (simp_all add: less_mult_imp_div_less)
  ultimately have "unat a div 16 = unat b div 16" "unat a mod 16 = unat b mod 16"
    by (simp_all add: hex_byte_def hex_digit_inject)
  then have "unat a = unat b" by (metis mod_mult_div_eq)
  then show "a = b" by (simp add: word_unat_eq_iff)
qed simp

section \<open>Nibbles\<close>

text \<open>The two halves of a byte. A byte is a hex digit when it fits the low half.\<close>

definition hi_nibble :: "u8 \<Rightarrow> u8" where
  "hi_nibble b = drop_bit 4 b"

definition lo_nibble :: "u8 \<Rightarrow> u8" where
  "lo_nibble b = take_bit 4 b"

definition is_nibble :: "u8 \<Rightarrow> bool" where
  "is_nibble d \<longleftrightarrow> take_bit 4 d = d"

lemma is_nibble_iff: "is_nibble d \<longleftrightarrow> unat d < 16"
proof -
  have "unat (take_bit 4 d) = unat d mod 16"
    by (simp add: take_bit_eq_mod unat_mod)
  then show ?thesis
    by (metis is_nibble_def mod_less mod_less_divisor word_unat_eq_iff zero_less_numeral)
qed

lemma is_nibble_halves [simp]: "is_nibble (hi_nibble b)" "is_nibble (lo_nibble b)"
proof -
  show "is_nibble (hi_nibble b)"
    unfolding is_nibble_def hi_nibble_def
    by (rule bit_word_eqI) (auto simp: bit_take_bit_iff bit_drop_bit_eq dest: bit_imp_le_length)
  show "is_nibble (lo_nibble b)" by (simp add: is_nibble_def lo_nibble_def)
qed

lemma is_nibble_bit: "is_nibble d \<Longrightarrow> bit d n \<Longrightarrow> n < 4"
  by (metis bit_take_bit_iff is_nibble_def)

lemma byte_nibbles_eqI: "hi_nibble a = hi_nibble b \<Longrightarrow> lo_nibble a = lo_nibble b \<Longrightarrow> a = b"
  unfolding hi_nibble_def lo_nibble_def by (metis bits_ident)

lemma unat_hi_nibble: "unat (hi_nibble b) = unat b div 16"
  by (simp add: hi_nibble_def drop_bit_eq_div unat_div)

lemma unat_lo_nibble: "unat (lo_nibble b) = unat b mod 16"
  by (simp add: lo_nibble_def take_bit_eq_mod unat_mod)

lemma nibble_or_high:
  assumes "is_nibble d"
  shows "hi_nibble (or b (push_bit 4 d)) = or (hi_nibble b) d"
    and "lo_nibble (or b (push_bit 4 d)) = lo_nibble b"
proof -
  show "hi_nibble (or b (push_bit 4 d)) = or (hi_nibble b) d"
    unfolding hi_nibble_def
    by (rule bit_word_eqI)
      (use is_nibble_bit [OF assms] in \<open>auto simp: bit_drop_bit_eq bit_or_iff bit_push_bit_iff\<close>)
  show "lo_nibble (or b (push_bit 4 d)) = lo_nibble b"
    unfolding lo_nibble_def
    by (rule bit_word_eqI) (auto simp: bit_take_bit_iff bit_or_iff bit_push_bit_iff)
qed

lemma nibble_or_low:
  assumes "is_nibble d"
  shows "hi_nibble (or b d) = hi_nibble b"
    and "lo_nibble (or b d) = or (lo_nibble b) d"
proof -
  show "hi_nibble (or b d) = hi_nibble b"
    unfolding hi_nibble_def
    by (rule bit_word_eqI)
      (use is_nibble_bit [OF assms] in \<open>force simp: bit_drop_bit_eq bit_or_iff\<close>)
  show "lo_nibble (or b d) = or (lo_nibble b) d"
    unfolding lo_nibble_def
    by (rule bit_word_eqI)
      (use is_nibble_bit [OF assms] in \<open>auto simp: bit_take_bit_iff bit_or_iff\<close>)
qed

text \<open>The nibbles of a byte string, most significant first.\<close>

definition nibbles_of :: "bytes \<Rightarrow> bytes" where
  "nibbles_of bs = concat (map (\<lambda>b. [hi_nibble b, lo_nibble b]) bs)"

lemma nibbles_of_simps [simp]:
  "nibbles_of [] = []" "nibbles_of (b # bs) = hi_nibble b # lo_nibble b # nibbles_of bs"
  by (simp_all add: nibbles_of_def)

lemma length_nibbles_of [simp]: "length (nibbles_of bs) = 2 * length bs"
  by (induction bs) simp_all

lemma nibbles_of_inject: "nibbles_of a = nibbles_of b \<longleftrightarrow> a = b"
proof
  assume "nibbles_of a = nibbles_of b"
  then show "a = b"
  proof (induction a arbitrary: b)
    case Nil
    then show ?case by (cases b) simp_all
  next
    case (Cons x a)
    then show ?case by (cases b) (auto intro: byte_nibbles_eqI)
  qed
qed simp

lemma take_nibbles_of_even: "take (2 * w) (nibbles_of bs) = nibbles_of (take w bs)"
proof (induction w arbitrary: bs)
  case 0
  then show ?case by simp
next
  case (Suc w)
  then show ?case by (cases bs) simp_all
qed

lemma take_nibbles_of_odd:
  "w < length bs \<Longrightarrow>
    take (Suc (2 * w)) (nibbles_of bs) = nibbles_of (take w bs) @ [hi_nibble (bs ! w)]"
proof (induction w arbitrary: bs)
  case 0
  then show ?case by (cases bs) simp_all
next
  case (Suc w)
  then show ?case by (cases bs) simp_all
qed

lemma hex_byte_nibbles:
  "hex_byte b = [hex_digit (unat (hi_nibble b)), hex_digit (unat (lo_nibble b))]"
  by (simp add: hex_byte_def unat_hi_nibble unat_lo_nibble)

section \<open>Time\<close>

type_synonym instant = nat
type_synonym duration = nat

definition from_secs :: "nat \<Rightarrow> duration" where
  "from_secs n = n * 1000000000"

definition from_millis :: "nat \<Rightarrow> duration" where
  "from_millis n = n * 1000000"

definition as_secs :: "duration \<Rightarrow> nat" where
  "as_secs d = d div 1000000000"

text \<open>\<open>Instant::elapsed\<close> and \<open>duration_since\<close> saturate at zero, as subtraction on \<open>nat\<close> does;
  \<open>checked_duration_since\<close> does not.\<close>

definition elapsed :: "instant \<Rightarrow> instant \<Rightarrow> duration" where
  "elapsed now t = now - t"

definition checked_duration_since :: "instant \<Rightarrow> instant \<Rightarrow> duration option" where
  "checked_duration_since later earlier =
     (if earlier \<le> later then Some (later - earlier) else None)"

section \<open>Lists\<close>

text \<open>\<open>iter().find\<close>, and the update of the first matching element through \<open>iter_mut().find\<close>.\<close>

fun update_first :: "('a \<Rightarrow> bool) \<Rightarrow> ('a \<Rightarrow> 'a) \<Rightarrow> 'a list \<Rightarrow> 'a list" where
  "update_first p f [] = []"
| "update_first p f (x # xs) = (if p x then f x # xs else x # update_first p f xs)"

lemma length_update_first [simp]: "length (update_first p f xs) = length xs"
  by (induction xs) simp_all

lemma map_update_first:
  "(\<And>x. g (f x) = g x) \<Longrightarrow> map g (update_first p f xs) = map g xs"
  by (induction xs) simp_all

lemma set_update_first: "set (update_first p f xs) \<subseteq> set xs \<union> f ` set xs"
  by (induction xs) auto

lemma list_all2_right_mem: "list_all2 P xs ys \<Longrightarrow> y \<in> set ys \<Longrightarrow> \<exists>x \<in> set xs. P x y"
  by (induction rule: list_all2_induct) auto

text \<open>\<open>slice::split_inclusive\<close> on one delimiter byte: each piece ends with the delimiter except
  possibly the last, and the empty slice has no pieces.\<close>

fun split_inclusive :: "'a \<Rightarrow> 'a list \<Rightarrow> 'a list list" where
  "split_inclusive d [] = []"
| "split_inclusive d (x # xs) =
     (if x = d then [x] # split_inclusive d xs
      else case split_inclusive d xs of [] \<Rightarrow> [[x]] | y # ys \<Rightarrow> (x # y) # ys)"

lemma concat_split_inclusive [simp]: "concat (split_inclusive d xs) = xs"
proof (induction xs)
  case Nil
  then show ?case by simp
next
  case (Cons x xs)
  then show ?case by (cases "split_inclusive d xs") auto
qed

lemma split_inclusive_piece:
  "d \<notin> set u \<Longrightarrow> split_inclusive d (u @ d # v) = (u @ [d]) # split_inclusive d v"
  by (induction u) auto

lemma split_inclusive_tail: "d \<notin> set u \<Longrightarrow> u \<noteq> [] \<Longrightarrow> split_inclusive d u = [u]"
proof (induction u)
  case Nil
  then show ?case by simp
next
  case (Cons x u)
  then show ?case by (cases u) auto
qed

end
