(* ===== verification/Hdlc.thy ===== *)
theory Hdlc
  imports RhPrelude
begin

text \<open>
  HDLC framing of the diag protocol (\<open>lib/src/hdlc.rs\<close>, constants from \<open>lib/src/diag/mod.rs\<close>).
  A payload and its little-endian CRC-16 are byte-stuffed and closed with one terminator byte. The
  checksum is an argument of both functions in the source (a \<open>Crc<u16>\<close> of the crc crate), and it is
  an argument here: every statement holds for any checksum function.
\<close>

definition MESSAGE_TERMINATOR :: u8 where "MESSAGE_TERMINATOR = 0x7e"
definition MESSAGE_ESCAPE_CHAR :: u8 where "MESSAGE_ESCAPE_CHAR = 0x7d"
definition ESCAPED_MESSAGE_TERMINATOR :: u8 where "ESCAPED_MESSAGE_TERMINATOR = 0x5e"
definition ESCAPED_MESSAGE_ESCAPE_CHAR :: u8 where "ESCAPED_MESSAGE_ESCAPE_CHAR = 0x5d"

lemmas hdlc_consts =
  MESSAGE_TERMINATOR_def MESSAGE_ESCAPE_CHAR_def
  ESCAPED_MESSAGE_TERMINATOR_def ESCAPED_MESSAGE_ESCAPE_CHAR_def

datatype HdlcError =
    InvalidChecksum u16 u16
  | InvalidEscapeSequence u8
  | NoTrailingCharacter u8
  | MissingChecksum
  | TooShort

type_synonym crc16 = "bytes \<Rightarrow> u16"

section \<open>The two functions\<close>

text \<open>The \<open>match b\<close> both loops of the encoder share.\<close>

definition escape_byte :: "u8 \<Rightarrow> bytes" where
  "escape_byte b =
     (if b = MESSAGE_TERMINATOR then [MESSAGE_ESCAPE_CHAR, ESCAPED_MESSAGE_TERMINATOR]
      else if b = MESSAGE_ESCAPE_CHAR then [MESSAGE_ESCAPE_CHAR, ESCAPED_MESSAGE_ESCAPE_CHAR]
      else [b])"

definition hdlc_encapsulate :: "bytes \<Rightarrow> crc16 \<Rightarrow> bytes" where
  "hdlc_encapsulate data crc =
     concat (map escape_byte data)
     @ concat (map escape_byte (u16_to_le_bytes (crc data)))
     @ [MESSAGE_TERMINATOR]"

text \<open>The decoder's loop: \<open>escaping\<close> is the flag, \<open>unescaped\<close> the bytes pushed so far.\<close>

fun unescape_loop :: "bytes \<Rightarrow> bool \<Rightarrow> bytes \<Rightarrow> HdlcError + bytes" where
  "unescape_loop unescaped escaping [] = Inr unescaped"
| "unescape_loop unescaped escaping (b # bs) =
     (if escaping then
        (if b = ESCAPED_MESSAGE_TERMINATOR then
           unescape_loop (unescaped @ [MESSAGE_TERMINATOR]) False bs
         else if b = ESCAPED_MESSAGE_ESCAPE_CHAR then
           unescape_loop (unescaped @ [MESSAGE_ESCAPE_CHAR]) False bs
         else Inl (InvalidEscapeSequence b))
      else if b = MESSAGE_ESCAPE_CHAR then unescape_loop unescaped True bs
      else unescape_loop (unescaped @ [b]) False bs)"

text \<open>Popping the checksum off the unescaped bytes and comparing it.\<close>

definition check_checksum :: "bytes \<Rightarrow> crc16 \<Rightarrow> HdlcError + bytes" where
  "check_checksum unescaped crc =
     (case rev unescaped of
        [] \<Rightarrow> Inl MissingChecksum
      | [_] \<Rightarrow> Inl MissingChecksum
      | checksum_hi # checksum_lo # body_rev \<Rightarrow>
          (let body = rev body_rev; checksum = u16_from_le_bytes checksum_lo checksum_hi in
           if checksum \<noteq> crc body then Inl (InvalidChecksum checksum (crc body))
           else Inr body))"

definition hdlc_decapsulate :: "bytes \<Rightarrow> crc16 \<Rightarrow> HdlcError + bytes" where
  "hdlc_decapsulate data crc =
     (if length data < 3 then Inl TooShort
      else if last data \<noteq> MESSAGE_TERMINATOR then Inl (NoTrailingCharacter (last data))
      else and_then (unescape_loop [] False (butlast data))
             (\<lambda>unescaped. check_checksum unescaped crc))"

section \<open>Byte stuffing\<close>

lemma escape_byte_cases:
  "escape_byte MESSAGE_TERMINATOR = [MESSAGE_ESCAPE_CHAR, ESCAPED_MESSAGE_TERMINATOR]"
  "escape_byte MESSAGE_ESCAPE_CHAR = [MESSAGE_ESCAPE_CHAR, ESCAPED_MESSAGE_ESCAPE_CHAR]"
  "b \<noteq> MESSAGE_TERMINATOR \<Longrightarrow> b \<noteq> MESSAGE_ESCAPE_CHAR \<Longrightarrow> escape_byte b = [b]"
  by (simp_all add: escape_byte_def hdlc_consts)

lemma escape_byte_neq_Nil [simp]: "escape_byte b \<noteq> []"
  by (simp add: escape_byte_def)

lemma terminator_notin_escape_byte: "MESSAGE_TERMINATOR \<notin> set (escape_byte b)"
  by (simp add: escape_byte_def hdlc_consts)

lemma terminator_notin_escaped: "MESSAGE_TERMINATOR \<notin> set (concat (map escape_byte xs))"
  using terminator_notin_escape_byte by auto

lemma length_escaped_ge: "length xs \<le> length (concat (map escape_byte xs))"
proof (induction xs)
  case (Cons x xs)
  then show ?case by (simp add: escape_byte_def)
qed simp

lemma unescape_escape_byte:
  "unescape_loop acc False (escape_byte b @ bs) = unescape_loop (acc @ [b]) False bs"
  by (simp add: escape_byte_def hdlc_consts)

lemma unescape_escaped:
  "unescape_loop acc False (concat (map escape_byte xs) @ bs) = unescape_loop (acc @ xs) False bs"
  by (induction xs arbitrary: acc) (simp_all add: unescape_escape_byte)

text \<open>What the loop did with a successful run, as the escapes it consumed: a dangling escape
  character at the very end is dropped silently, everything else is a stuffed byte or a raw one.\<close>

lemma unescape_loop_invert:
  assumes "unescape_loop acc escaping bs = Inr out" and "MESSAGE_TERMINATOR \<notin> set bs"
  shows "\<exists>xs. out = acc @ xs \<and>
    ((if escaping then [MESSAGE_ESCAPE_CHAR] else []) @ bs = concat (map escape_byte xs) \<or>
     (if escaping then [MESSAGE_ESCAPE_CHAR] else []) @ bs
       = concat (map escape_byte xs) @ [MESSAGE_ESCAPE_CHAR])"
  using assms
proof (induction acc escaping bs rule: unescape_loop.induct)
  case (1 unescaped escaping)
  then show ?case by (intro exI [of _ "[]"]) simp
next
  case (2 unescaped escaping b bs)
  have step: ?case
    if IH: "\<exists>xs. out = (unescaped @ [c]) @ xs \<and>
          (bs = concat (map escape_byte xs) \<or> bs = concat (map escape_byte xs) @ [MESSAGE_ESCAPE_CHAR])"
      and c: "(if escaping then [MESSAGE_ESCAPE_CHAR] else []) @ [b] = escape_byte c" for c
  proof -
    from IH obtain xs where "out = unescaped @ (c # xs)"
      and "bs = concat (map escape_byte xs) \<or> bs = concat (map escape_byte xs) @ [MESSAGE_ESCAPE_CHAR]"
      by auto
    moreover have "(if escaping then [MESSAGE_ESCAPE_CHAR] else []) @ b # bs = escape_byte c @ bs"
      using c by (metis append.assoc append_Cons append_Nil)
    ultimately show ?thesis by (intro exI [of _ "c # xs"]) auto
  qed
  show ?case
  proof (cases escaping)
    case True
    with "2.prems"(1) consider "b = ESCAPED_MESSAGE_TERMINATOR" | "b = ESCAPED_MESSAGE_ESCAPE_CHAR"
      by (auto split: if_splits)
    then show ?thesis
    proof cases
      case 1
      with True 2 show ?thesis
        by (intro step [of MESSAGE_TERMINATOR]) (auto simp: escape_byte_cases)
    next
      case esc: 2
      then have "b \<noteq> ESCAPED_MESSAGE_TERMINATOR" by (simp add: hdlc_consts)
      with esc True 2 show ?thesis
        by (intro step [of MESSAGE_ESCAPE_CHAR]) (auto simp: escape_byte_cases)
    qed
  next
    case False
    show ?thesis
    proof (cases "b = MESSAGE_ESCAPE_CHAR")
      case True
      with False 2 show ?thesis by auto
    next
      case raw: False
      with False 2 show ?thesis
        by (intro step [of b]) (auto simp: escape_byte_cases)
    qed
  qed
qed

section \<open>Checksum\<close>

lemma check_checksum_append:
  "check_checksum (body @ [lo, hi]) crc =
     (if u16_from_le_bytes lo hi \<noteq> crc body
      then Inl (InvalidChecksum (u16_from_le_bytes lo hi) (crc body)) else Inr body)"
  by (simp add: check_checksum_def)

lemma check_checksum_eq_Inr:
  "check_checksum unescaped crc = Inr d \<longleftrightarrow> unescaped = d @ u16_to_le_bytes (crc d)"
proof (cases unescaped rule: rev_cases)
  case Nil
  then show ?thesis by (simp add: check_checksum_def u16_to_le_bytes_def)
next
  case (snoc front hi)
  show ?thesis
  proof (cases front rule: rev_cases)
    case Nil
    with snoc show ?thesis by (auto simp: check_checksum_def u16_to_le_bytes_def)
  next
    case (snoc body lo)
    with \<open>unescaped = front @ [hi]\<close> have u: "unescaped = body @ [lo, hi]" by simp
    have "check_checksum unescaped crc = Inr d \<longleftrightarrow> body = d \<and> [lo, hi] = u16_to_le_bytes (crc body)"
      by (auto simp: u check_checksum_append u16_from_le_bytes_eq)
    moreover have "unescaped = d @ u16_to_le_bytes (crc d)
        \<longleftrightarrow> body = d \<and> [lo, hi] = u16_to_le_bytes (crc d)"
      by (auto simp: u u16_to_le_bytes_def)
    ultimately show ?thesis by auto
  qed
qed

section \<open>Frames\<close>

lemma length_encapsulate: "3 \<le> length (hdlc_encapsulate data crc)"
  using length_escaped_ge [of "u16_to_le_bytes (crc data)"]
  by (simp add: hdlc_encapsulate_def u16_to_le_bytes_def)

lemma encapsulate_snoc:
  "\<exists>body. hdlc_encapsulate data crc = body @ [MESSAGE_TERMINATOR] \<and> MESSAGE_TERMINATOR \<notin> set body
     \<and> body = concat (map escape_byte (data @ u16_to_le_bytes (crc data)))"
  using terminator_notin_escaped [of "data @ u16_to_le_bytes (crc data)"]
  by (simp add: hdlc_encapsulate_def)

lemma decapsulate_encapsulate: "hdlc_decapsulate (hdlc_encapsulate data crc) crc = Inr data"
proof -
  have "unescape_loop [] False (concat (map escape_byte (data @ u16_to_le_bytes (crc data))))
      = Inr (data @ u16_to_le_bytes (crc data))"
    using unescape_escaped [of "[]" "data @ u16_to_le_bytes (crc data)" "[]"] by simp
  moreover have "butlast (hdlc_encapsulate data crc)
      = concat (map escape_byte (data @ u16_to_le_bytes (crc data)))"
    by (simp add: hdlc_encapsulate_def butlast_append)
  moreover have "last (hdlc_encapsulate data crc) = MESSAGE_TERMINATOR"
    by (simp add: hdlc_encapsulate_def)
  ultimately show ?thesis
    using length_encapsulate [of data crc] check_checksum_eq_Inr [of _ crc data]
    by (simp add: hdlc_decapsulate_def)
qed

text \<open>An interface for framed byte streams: frames carry exactly one terminator, at their end, and
  decode to the payload they were made from. Everything about splitting a stream into messages rests
  on these two laws only.\<close>

locale framing =
  fixes encode :: "'p \<Rightarrow> 'b list"
    and decode :: "'b list \<Rightarrow> 'e + 'p"
    and sep :: 'b
  assumes frame_shape: "\<exists>body. encode p = body @ [sep] \<and> sep \<notin> set body"
    and frame_decode: "decode (encode p) = Inr p"
begin

lemma split_frames:
  "split_inclusive sep (concat (map encode ps) @ rest)
     = map encode ps @ split_inclusive sep rest"
proof (induction ps)
  case Nil
  then show ?case by simp
next
  case (Cons p ps)
  obtain body where "encode p = body @ [sep]" "sep \<notin> set body" using frame_shape by blast
  with Cons show ?case by (simp add: split_inclusive_piece)
qed

lemma decode_stream: "map decode (split_inclusive sep (concat (map encode ps))) = map Inr ps"
  using split_frames [of ps "[]"] by (simp add: frame_decode)

text \<open>A stream cut in the middle of a frame: the complete frames survive and one unterminated
  piece is left.\<close>

lemma decode_truncated:
  assumes "encode p = u @ v" and "u \<noteq> []" and "v \<noteq> []"
  shows "split_inclusive sep (concat (map encode ps) @ u) = map encode ps @ [u]"
    and "sep \<notin> set u"
proof -
  obtain body where body: "encode p = body @ [sep]" "sep \<notin> set body" using frame_shape by blast
  with assms(1,3) have "u @ butlast v = body" by (metis butlast_append butlast_snoc)
  with body(2) show t: "sep \<notin> set u" by auto
  from split_inclusive_tail [OF t assms(2)]
  show "split_inclusive sep (concat (map encode ps) @ u) = map encode ps @ [u]"
    by (simp add: split_frames)
qed

lemma encode_inj: "encode p = encode q \<longleftrightarrow> p = q"
  by (metis frame_decode sum.inject(2))

end

interpretation hdlc: framing
  "\<lambda>d. hdlc_encapsulate d crc" "\<lambda>x. hdlc_decapsulate x crc" MESSAGE_TERMINATOR
  for crc
proof unfold_locales
  show "\<exists>body. hdlc_encapsulate p crc = body @ [MESSAGE_TERMINATOR] \<and> MESSAGE_TERMINATOR \<notin> set body"
    for p using encapsulate_snoc [of p crc] by blast
  show "hdlc_decapsulate (hdlc_encapsulate p crc) crc = Inr p" for p
    by (rule decapsulate_encapsulate)
qed

section \<open>Properties\<close>

text \<open>C15: Decapsulating what the encoder produced gives back the payload, for every payload and every
  checksum function, so no byte value is lost or altered by the byte stuffing.\<close>

theorem hdlc_round_trip: "hdlc_decapsulate (hdlc_encapsulate data crc) crc = Inr data"
  by (rule decapsulate_encapsulate)

text \<open>The decoder accepts, among byte strings with a single terminator and no dangling escape
  character before it, exactly the encoder's own output: an accepted frame is the encoding of the
  payload it is decoded to, so a corrupted frame is never accepted as a different well-formed one.\<close>

theorem hdlc_decapsulate_canonical:
  assumes "hdlc_decapsulate (body @ [MESSAGE_TERMINATOR]) crc = Inr data"
    and "MESSAGE_TERMINATOR \<notin> set body"
    and "body \<noteq> [] \<longrightarrow> last body \<noteq> MESSAGE_ESCAPE_CHAR"
  shows "body @ [MESSAGE_TERMINATOR] = hdlc_encapsulate data crc"
proof -
  from assms(1) have "unescape_loop [] False body = Inr (data @ u16_to_le_bytes (crc data))"
    by (auto simp: hdlc_decapsulate_def and_then_eq_Inr check_checksum_eq_Inr split: if_splits)
  from unescape_loop_invert [OF this assms(2)] assms(3)
  have "body = concat (map escape_byte (data @ u16_to_le_bytes (crc data)))" by auto
  then show ?thesis by (simp add: hdlc_encapsulate_def)
qed

theorem hdlc_decapsulate_canonical_witness:
  "[1, 0x7d, 0x5e, 2, 0] @ [MESSAGE_TERMINATOR] = hdlc_encapsulate [1, 0x7e] (\<lambda>d. of_nat (length d))"
proof (rule hdlc_decapsulate_canonical)
  show "hdlc_decapsulate ([1, 0x7d, 0x5e, 2, 0] @ [MESSAGE_TERMINATOR]) (\<lambda>d. of_nat (length d))
      = Inr [1, 0x7e]"
    by (simp add: hdlc_decapsulate_def hdlc_consts check_checksum_def u16_from_le_bytes_def)
qed (simp_all add: hdlc_consts)

text \<open>The first problem with a frame decides the error: fewer than three bytes, a missing
  terminator and then nothing else; a frame cut short anywhere before its terminator is always one of
  these two, and is never decoded.\<close>

theorem hdlc_truncated_frame_rejected:
  assumes "hdlc_encapsulate data crc = u @ v" and "v \<noteq> []"
  shows "hdlc_decapsulate u crc' =
    (if length u < 3 then Inl TooShort else Inl (NoTrailingCharacter (last u)))"
proof (cases "u = []")
  case True
  then show ?thesis by (simp add: hdlc_decapsulate_def)
next
  case False
  from hdlc.decode_truncated(2) [OF assms(1) False assms(2)] False
  have "last u \<noteq> MESSAGE_TERMINATOR" by (metis last_in_set)
  then show ?thesis by (simp add: hdlc_decapsulate_def)
qed

theorem hdlc_truncated_frame_rejected_witness:
  "hdlc_decapsulate [1, 0x7d, 0x5e, 2] (\<lambda>d. of_nat (length d)) = Inl (NoTrailingCharacter 2)"
proof -
  have "hdlc_encapsulate [1, 0x7e] (\<lambda>d. of_nat (length d)) = [1, 0x7d, 0x5e, 2] @ [0, 0x7e]"
    by (simp add: hdlc_encapsulate_def escape_byte_def hdlc_consts u16_to_le_bytes_def)
  from hdlc_truncated_frame_rejected [OF this] show ?thesis by simp
qed

end
