(* ===== verification/Diag.thy ===== *)
theory Diag
  imports Hdlc
begin

unbundle bit_operations_syntax

text \<open>
  The diag protocol around the frames (\<open>lib/src/diag/mod.rs\<close>): containers of HDLC frames as the
  modem delivers them, the split of a container into messages, and the log mask request that tells
  the modem which log codes to emit.

  \<open>Message::from_bytes\<close> is generated by the deku derive macro and is a parameter here
  (\<open>from_bytes\<close>): it returns the bytes left over and a message, or deku's error. The statements
  about containers and recordings hold for every such parser.
\<close>

datatype DataType = UserSpace | OtherDataType u32

record HdlcEncapsulatedMessage =
  hem_len :: u32
  hem_data :: bytes

record MessagesContainer =
  mc_data_type :: DataType
  mc_num_messages :: u32
  mc_messages :: "HdlcEncapsulatedMessage list"

datatype 'de DiagParsingError =
    MessageParsingError 'de bytes
  | HdlcDecapsulationError HdlcError bytes

type_synonym ('de, 'm) message_parser = "bytes \<Rightarrow> 'de + (bytes \<times> 'm)"

text \<open>\<open>Message::from_hdlc\<close>. Leftover bytes are only logged.\<close>

definition from_hdlc ::
    "('de, 'm) message_parser \<Rightarrow> crc16 \<Rightarrow> bytes \<Rightarrow> 'de DiagParsingError + 'm" where
  "from_hdlc from_bytes crc data =
     (case hdlc_decapsulate data crc of
        Inr payload \<Rightarrow>
          (case from_bytes payload of
             Inr (leftover, res) \<Rightarrow> Inr res
           | Inl e \<Rightarrow> Inl (MessageParsingError e payload))
      | Inl err \<Rightarrow> Inl (HdlcDecapsulationError err data))"

text \<open>\<open>MessagesContainer::messages\<close>: the outer loop over the container's chunks, the inner one over
  the terminated pieces of a chunk.\<close>

definition container_messages ::
    "('de, 'm) message_parser \<Rightarrow> crc16 \<Rightarrow> MessagesContainer \<Rightarrow> ('de DiagParsingError + 'm) list" where
  "container_messages from_bytes crc c =
     concat (map (\<lambda>msg. map (from_hdlc from_bytes crc)
                    (split_inclusive MESSAGE_TERMINATOR (hem_data msg)))
       (mc_messages c))"

text \<open>What a payload turns into once its frame has been accepted.\<close>

definition parse_payload ::
    "('de, 'm) message_parser \<Rightarrow> bytes \<Rightarrow> 'de DiagParsingError + 'm" where
  "parse_payload from_bytes payload =
     (case from_bytes payload of
        Inr (leftover, res) \<Rightarrow> Inr res
      | Inl e \<Rightarrow> Inl (MessageParsingError e payload))"

lemma from_hdlc_frame [simp]:
  "from_hdlc from_bytes crc (hdlc_encapsulate p crc) = parse_payload from_bytes p"
  by (simp add: from_hdlc_def parse_payload_def decapsulate_encapsulate)

lemma split_frames_hdlc:
  "map (from_hdlc from_bytes crc)
     (split_inclusive MESSAGE_TERMINATOR (concat (map (\<lambda>p. hdlc_encapsulate p crc) ps)))
   = map (parse_payload from_bytes) ps"
  using hdlc.split_frames [of crc ps "[]"] by simp

section \<open>Log mask requests\<close>

datatype LogConfigRequest =
    RetrieveIdRanges
  | SetMask u32 u32 bytes

datatype Request = LogConfig LogConfigRequest

text \<open>One round of the loop of \<open>build_log_mask_request\<close>; the state is \<open>current_byte\<close>,
  \<open>num_bits_written\<close> and \<open>log_mask\<close>.\<close>

definition log_mask_step ::
    "u32 \<Rightarrow> nat \<Rightarrow> u32 list \<Rightarrow> nat \<Rightarrow> u8 \<times> nat \<times> bytes \<Rightarrow> u8 \<times> nat \<times> bytes" where
  "log_mask_step log_type bitsize accepted i = (\<lambda>(current_byte, num_bits_written, log_mask).
     (let log_code = push_bit 12 log_type OR of_nat i;
          byte = (if log_code \<in> set accepted
                  then current_byte OR push_bit num_bits_written 1 else current_byte);
          n = num_bits_written + 1
      in if n = 8 \<or> i = bitsize - 1 then (0, 0, log_mask @ [byte]) else (byte, n, log_mask)))"

definition log_mask_loop :: "u32 \<Rightarrow> nat \<Rightarrow> u32 list \<Rightarrow> nat \<Rightarrow> u8 \<times> nat \<times> bytes" where
  "log_mask_loop log_type bitsize accepted i =
     fold (log_mask_step log_type bitsize accepted) [0..<i] (0, 0, [])"

definition build_log_mask_request :: "u32 \<Rightarrow> u32 \<Rightarrow> u32 list \<Rightarrow> Request" where
  "build_log_mask_request log_type log_mask_bitsize accepted_log_codes =
     LogConfig (SetMask log_type log_mask_bitsize
       (snd (snd (log_mask_loop log_type (unat log_mask_bitsize) accepted_log_codes
          (unat log_mask_bitsize)))))"

text \<open>Whether the code at index \<open>i\<close> of a log type is wanted.\<close>

definition wanted :: "u32 \<Rightarrow> u32 list \<Rightarrow> nat \<Rightarrow> bool" where
  "wanted log_type accepted i \<longleftrightarrow> push_bit 12 log_type OR of_nat i \<in> set accepted"

text \<open>State of the loop strictly before its last index: complete bytes, and the partial one.\<close>

definition mask_inv :: "u32 \<Rightarrow> u32 list \<Rightarrow> nat \<Rightarrow> u8 \<times> nat \<times> bytes \<Rightarrow> bool" where
  "mask_inv log_type accepted i = (\<lambda>(cur, nb, lm).
     nb = i mod 8 \<and> length lm = i div 8
     \<and> (\<forall>k < 8. bit cur k \<longleftrightarrow> k < i mod 8 \<and> wanted log_type accepted (8 * (i div 8) + k))
     \<and> (\<forall>j < i div 8. \<forall>k < 8. bit (lm ! j) k \<longleftrightarrow> wanted log_type accepted (8 * j + k)))"

lemma set_bit_or_push:
  assumes "nb < 8" and "k < 8"
  shows "bit ((cur :: u8) OR 2 ^ nb) k \<longleftrightarrow> bit cur k \<or> k = nb"
  using assms by (auto simp: bit_or_iff bit_exp_iff)

lemma mask_byte_step:
  assumes "mask_inv log_type accepted i (cur, nb, lm)" and "k < 8"
  shows "bit (if wanted log_type accepted i then cur OR push_bit nb 1 else cur) k
     \<longleftrightarrow> k < Suc (i mod 8) \<and> wanted log_type accepted (8 * (i div 8) + k)"
proof -
  have nb: "nb = i mod 8" and cur: "bit cur k \<longleftrightarrow> k < i mod 8 \<and> wanted log_type accepted (8 * (i div 8) + k)"
    using assms by (auto simp: mask_inv_def)
  have i: "i = 8 * (i div 8) + i mod 8" by simp
  show ?thesis
  proof (cases "k = i mod 8")
    case True
    with cur nb assms(2) i show ?thesis by (auto simp: set_bit_or_push)
  next
    case False
    with cur nb assms(2) show ?thesis by (auto simp: set_bit_or_push)
  qed
qed

lemma mask_inv_step:
  assumes inv: "mask_inv log_type accepted i (cur, nb, lm)" and i: "i < n - 1"
  shows "mask_inv log_type accepted (Suc i) (log_mask_step log_type n accepted i (cur, nb, lm))"
proof -
  let ?byte = "if wanted log_type accepted i then cur OR push_bit nb 1 else cur"
  have nb: "nb = i mod 8" and len: "length lm = i div 8"
    and full: "\<forall>j < i div 8. \<forall>k < 8. bit (lm ! j) k \<longleftrightarrow> wanted log_type accepted (8 * j + k)"
    using inv by (auto simp: mask_inv_def)
  have step: "log_mask_step log_type n accepted i (cur, nb, lm) =
      (if i mod 8 = 7 then (0, 0, lm @ [?byte]) else (?byte, Suc nb, lm))"
    using i nb by (auto simp: log_mask_step_def wanted_def Let_def)
  show ?thesis
  proof (cases "i mod 8 = 7")
    case True
    then have "Suc i mod 8 = 0" "Suc i div 8 = Suc (i div 8)" by presburger+
    with True full len mask_byte_step [OF inv] show ?thesis
      unfolding step by (auto simp: mask_inv_def nth_append less_Suc_eq)
  next
    case False
    then have "Suc i mod 8 = Suc (i mod 8)" "Suc i div 8 = i div 8" by presburger+
    with False full len nb mask_byte_step [OF inv] show ?thesis
      unfolding step by (auto simp: mask_inv_def)
  qed
qed

lemma log_mask_loop_inv: "i < n \<Longrightarrow> mask_inv log_type accepted i (log_mask_loop log_type n accepted i)"
proof (induction i)
  case 0
  then show ?case by (simp add: log_mask_loop_def mask_inv_def)
next
  case (Suc i)
  obtain cur nb lm where st: "log_mask_loop log_type n accepted i = (cur, nb, lm)"
    by (metis prod_cases3)
  with Suc have "mask_inv log_type accepted i (cur, nb, lm)" by simp
  from mask_inv_step [OF this, of n] Suc.prems st show ?case
    by (simp add: log_mask_loop_def)
qed

lemma log_mask_loop_result:
  assumes "log_mask_loop log_type n accepted n = (cur, nb, lm)"
  shows "length lm = (n + 7) div 8"
    and "j < length lm \<Longrightarrow> k < 8 \<Longrightarrow>
      bit (lm ! j) k \<longleftrightarrow> 8 * j + k < n \<and> wanted log_type accepted (8 * j + k)"
proof -
  have "length lm = (n + 7) div 8 \<and> (\<forall>j < length lm. \<forall>k < 8.
      bit (lm ! j) k \<longleftrightarrow> 8 * j + k < n \<and> wanted log_type accepted (8 * j + k))"
  proof (cases n)
    case 0
    with assms show ?thesis by (simp add: log_mask_loop_def)
  next
    case (Suc m)
    obtain cur' nb' lm0 where st: "log_mask_loop log_type n accepted m = (cur', nb', lm0)"
      by (metis prod_cases3)
    have inv: "mask_inv log_type accepted m (cur', nb', lm0)"
      using log_mask_loop_inv [of m n log_type accepted] Suc st by simp
    let ?byte = "if wanted log_type accepted m then cur' OR push_bit nb' 1 else cur'"
    have lm: "lm = lm0 @ [?byte]"
      using assms st Suc by (auto simp: log_mask_loop_def log_mask_step_def wanted_def Let_def)
    have len: "length lm0 = m div 8"
      and full: "\<forall>j < m div 8. \<forall>k < 8. bit (lm0 ! j) k \<longleftrightarrow> wanted log_type accepted (8 * j + k)"
      using inv by (auto simp: mask_inv_def)
    have last: "bit ?byte k \<longleftrightarrow> 8 * (m div 8) + k < n \<and> wanted log_type accepted (8 * (m div 8) + k)"
      if "k < 8" for k
    proof -
      have "k < Suc (m mod 8) \<longleftrightarrow> 8 * (m div 8) + k < n" using Suc by presburger
      then show ?thesis using mask_byte_step [OF inv that] by simp
    qed
    have early: "8 * j + k < n" if "j < m div 8" "k < 8" for j k
      using that Suc by presburger
    have "length lm = (n + 7) div 8" using Suc len lm by simp
    moreover have "bit (lm ! j) k \<longleftrightarrow> 8 * j + k < n \<and> wanted log_type accepted (8 * j + k)"
      if "j < length lm" "k < 8" for j k
    proof (cases "j < m div 8")
      case True
      with full early that len lm show ?thesis by (simp add: nth_append)
    next
      case False
      with that(1) len lm have "j = m div 8" by simp
      with last [OF that(2)] len lm show ?thesis by (simp add: nth_append)
    qed
    ultimately show ?thesis by blast
  qed
  then show "length lm = (n + 7) div 8"
    and "j < length lm \<Longrightarrow> k < 8 \<Longrightarrow>
      bit (lm ! j) k \<longleftrightarrow> 8 * j + k < n \<and> wanted log_type accepted (8 * j + k)"
    by blast+
qed

section \<open>Properties\<close>

text \<open>C16: A container whose chunks are runs of complete frames (one or several per chunk) yields exactly
  one result per frame, in order, each the parse of that frame's payload: nothing is dropped, merged
  or reordered, and a payload the parser rejects does not disturb its neighbours.\<close>

theorem container_messages_of_frames:
  "container_messages from_bytes crc
     \<lparr>mc_data_type = ty, mc_num_messages = n,
      mc_messages = map (\<lambda>ps. \<lparr>hem_len = l ps, hem_data = concat (map (\<lambda>p. hdlc_encapsulate p crc) ps)\<rparr>) chunks\<rparr>
   = map (parse_payload from_bytes) (concat chunks)"
  by (induction chunks) (simp_all add: container_messages_def split_frames_hdlc del: split_inclusive.simps)

text \<open>C17: The log mask of a request has one bit per index below the requested bit size, packed least
  significant bit first and padded with zeros to whole bytes, and the bit is set exactly when the log
  code made of the log type and the index is among the accepted ones.\<close>

theorem build_log_mask_request_bits:
  assumes "build_log_mask_request log_type bitsize accepted = LogConfig (SetMask ty sz lm)"
  shows "ty = log_type \<and> sz = bitsize \<and> length lm = (unat bitsize + 7) div 8
    \<and> (\<forall>j < length lm. \<forall>k < 8. bit (lm ! j) k \<longleftrightarrow>
         8 * j + k < unat bitsize \<and> push_bit 12 log_type OR of_nat (8 * j + k) \<in> set accepted)"
proof -
  obtain cur nb lm' where r:
    "log_mask_loop log_type (unat bitsize) accepted (unat bitsize) = (cur, nb, lm')"
    by (metis prod_cases3)
  with assms have "lm' = lm" by (simp add: build_log_mask_request_def)
  with log_mask_loop_result [OF r] assms show ?thesis
    by (auto simp: build_log_mask_request_def wanted_def)
qed

theorem build_log_mask_request_bits_witness:
  "build_log_mask_request 11 9 [0xb001, 0xb008] = LogConfig (SetMask 11 9 [0x02, 0x01])
   \<and> bit ([0x02, 0x01 :: u8] ! 0) 1 \<and> \<not> bit ([0x02, 0x01 :: u8] ! 1) 1"
proof -
  have req: "build_log_mask_request 11 9 [0xb001, 0xb008] = LogConfig (SetMask 11 9 [0x02, 0x01])"
    by code_simp
  note bits = build_log_mask_request_bits [OF req, THEN conjunct2, THEN conjunct2, THEN conjunct2, rule_format]
  have "bit ([0x02, 0x01 :: u8] ! 0) 1" by (subst bits) code_simp+
  moreover have "\<not> bit ([0x02, 0x01 :: u8] ! 1) 1" by (subst bits) code_simp+
  ultimately show ?thesis using req by blast
qed

end
