(* ===== verification/Qmdl.thy ===== *)
theory Qmdl
  imports Diag
begin

text \<open>
  QMDL recordings (\<open>lib/src/qmdl.rs\<close>): a recording is the concatenation of the frames the modem
  delivered, written through a gzip encoder; reading sniffs the gzip magic number and splits the
  bytes at the terminator.

  The gzip codec is the async-compression crate. The encoder is a parameter \<open>gzip\<close> from the bytes
  written to the bytes in the file; the decoder is a parameter \<open>gunzip\<close> from the bytes of a file to
  the bytes it yields and how its output ends. What the program relies on is that the decoder undoes
  the encoder and that the encoder's output starts with the magic number; these are hypotheses where
  they are used.
\<close>

section \<open>Writing\<close>

text \<open>\<open>QmdlWriter::write_container\<close>: the bytes handed to the encoder, in order.\<close>

definition write_container :: "bytes \<Rightarrow> MessagesContainer \<Rightarrow> bytes" where
  "write_container written c = written @ concat (map hem_data (mc_messages c))"

definition write_containers :: "MessagesContainer list \<Rightarrow> bytes" where
  "write_containers cs = fold (\<lambda>c w. write_container w c) cs []"

lemma fold_write_container:
  "fold (\<lambda>c w. write_container w c) cs w = w @ concat (map hem_data (concat (map mc_messages cs)))"
  by (induction cs arbitrary: w) (simp_all add: write_container_def)

lemma write_containers_eq:
  "write_containers cs = concat (map hem_data (concat (map mc_messages cs)))"
  by (simp add: write_containers_def fold_write_container)

section \<open>Reading\<close>

text \<open>How the decoder's output ends: with the stream, with the file cut short, or with another I/O
  error.\<close>

datatype 'io gz_end = StreamEnd | UnexpectedEof | IoError 'io

type_synonym 'io gunzip = "bytes \<Rightarrow> bytes \<times> 'io gz_end"

definition GZIP_MAGIC_NUMBER :: u16 where "GZIP_MAGIC_NUMBER = 0x1f8b"

text \<open>\<open>is_gzip_stream\<close>: a big-endian \<open>u16\<close> off the front, \<open>None\<close> when the file is too short to have
  one.\<close>

definition is_gzip_stream :: "bytes \<Rightarrow> bool option" where
  "is_gzip_stream file =
     (case file of
        b0 # b1 # _ \<Rightarrow> Some (or (push_bit 8 (ucast b0)) (ucast b1) = GZIP_MAGIC_NUMBER)
      | _ \<Rightarrow> None)"

text \<open>The reader: what is left to read and the I/O error that follows it, if any. In
  \<open>QmdlAsyncReader::poll_read\<close> an unexpected end of the gzip stream is an ordinary end of file.\<close>

record 'io reader =
  rd_rest :: bytes
  rd_error :: "'io option"
  rd_compressed :: bool

definition qmdl_reader_new :: "'io gunzip \<Rightarrow> bytes \<Rightarrow> 'io reader" where
  "qmdl_reader_new gunzip file =
     (if is_gzip_stream file = Some True then
        (let (out, how) = gunzip file in
         \<lparr>rd_rest = out,
          rd_error = (case how of StreamEnd \<Rightarrow> None | UnexpectedEof \<Rightarrow> None | IoError e \<Rightarrow> Some e),
          rd_compressed = True\<rparr>)
      else \<lparr>rd_rest = file, rd_error = None, rd_compressed = False\<rparr>)"

text \<open>\<open>AsyncBufReadExt::read_until\<close>: up to and including the delimiter, or to the end of the data.\<close>

fun read_until :: "'a \<Rightarrow> 'a list \<Rightarrow> 'a list \<times> 'a list" where
  "read_until d [] = ([], [])"
| "read_until d (x # xs) =
     (if x = d then ([x], xs) else (let (u, v) = read_until d xs in (x # u, v)))"

lemma read_until_append: "read_until d xs = (u, v) \<Longrightarrow> xs = u @ v"
  by (induction xs arbitrary: u) (auto split: if_splits prod.splits)

lemma read_until_nonempty: "xs \<noteq> [] \<Longrightarrow> read_until d xs = (u, v) \<Longrightarrow> u \<noteq> []"
  by (cases xs) (auto split: if_splits prod.splits)

text \<open>\<open>QmdlMessageReader::get_next_message\<close>: the I/O error surfaces when the read runs into it before
  a terminator.\<close>

definition get_next_message ::
    "('de, 'm) message_parser \<Rightarrow> crc16 \<Rightarrow> 'io reader
      \<Rightarrow> ('io + ('de DiagParsingError + 'm) option) \<times> 'io reader" where
  "get_next_message from_bytes crc r =
     (let (buf, rest) = read_until MESSAGE_TERMINATOR (rd_rest r) in
      if (buf = [] \<or> last buf \<noteq> MESSAGE_TERMINATOR) \<and> rd_error r \<noteq> None
      then (Inl (the (rd_error r)), r\<lparr>rd_rest := rest\<rparr>)
      else if buf = [] then (Inr None, r\<lparr>rd_rest := rest\<rparr>)
      else (Inr (Some (from_hdlc from_bytes crc buf)), r\<lparr>rd_rest := rest\<rparr>))"

text \<open>\<open>into_message_stream\<close>: the messages until the end of the data or the first I/O error.\<close>

function message_stream ::
    "('de, 'm) message_parser \<Rightarrow> crc16 \<Rightarrow> 'io reader \<Rightarrow> ('de DiagParsingError + 'm) list \<times> 'io option" where
  "message_stream from_bytes crc r =
     (case get_next_message from_bytes crc r of
        (Inl e, _) \<Rightarrow> ([], Some e)
      | (Inr None, _) \<Rightarrow> ([], None)
      | (Inr (Some m), r') \<Rightarrow>
          (let (ms, e) = message_stream from_bytes crc r' in (m # ms, e)))"
  by pat_completeness auto

lemma get_next_message_shrinks:
  assumes "get_next_message from_bytes crc r = (Inr (Some m), r')"
  shows "length (rd_rest r') < length (rd_rest r)"
proof -
  obtain buf rest where br: "read_until MESSAGE_TERMINATOR (rd_rest r) = (buf, rest)" by fastforce
  with assms have "buf \<noteq> []" and "rd_rest r' = rest"
    by (auto simp: get_next_message_def split: if_splits)
  with read_until_append [OF br] show ?thesis by simp
qed

termination message_stream
  by (relation "measure (\<lambda>(p, c, r). length (rd_rest r))") (auto dest!: get_next_message_shrinks [OF sym])

declare message_stream.simps [simp del]

text \<open>Reading piece by piece is splitting: the reader of a file with no I/O error is refined from
  \<open>split_inclusive\<close>.\<close>

lemma read_until_split:
  "split_inclusive d xs =
     (case read_until d xs of (u, v) \<Rightarrow> if u = [] then [] else u # split_inclusive d v)"
proof (induction xs)
  case Nil
  then show ?case by simp
next
  case (Cons x xs)
  show ?case
  proof (cases "x = d")
    case True
    then show ?thesis by simp
  next
    case False
    obtain u v where uv: "read_until d xs = (u, v)" by fastforce
    with Cons have IH: "split_inclusive d xs = (if u = [] then [] else u # split_inclusive d v)" by simp
    show ?thesis
    proof (cases "u = []")
      case True
      with uv have "xs = []" using read_until_nonempty by fastforce
      then show ?thesis using False by simp
    next
      case u: False
      with IH uv False show ?thesis by simp
    qed
  qed
qed

lemma message_stream_split:
  assumes "rd_error r = None"
  shows "message_stream from_bytes crc r =
    (map (from_hdlc from_bytes crc) (split_inclusive MESSAGE_TERMINATOR (rd_rest r)), None)"
  using assms
proof (induction "length (rd_rest r)" arbitrary: r rule: less_induct)
  case less
  obtain u v where uv: "read_until MESSAGE_TERMINATOR (rd_rest r) = (u, v)" by fastforce
  show ?case
  proof (cases "u = []")
    case True
    with uv have "get_next_message from_bytes crc r = (Inr None, r\<lparr>rd_rest := v\<rparr>)"
      by (simp add: get_next_message_def less.prems)
    with uv True show ?thesis
      by (simp add: message_stream.simps [of _ _ r] read_until_split [of _ "rd_rest r"])
  next
    case False
    with uv have step: "get_next_message from_bytes crc r
        = (Inr (Some (from_hdlc from_bytes crc u)), r\<lparr>rd_rest := v\<rparr>)"
      by (simp add: get_next_message_def less.prems)
    then have "length (rd_rest (r\<lparr>rd_rest := v\<rparr>)) < length (rd_rest r)"
      by (rule get_next_message_shrinks)
    from less.hyps [OF this] less.prems
    have "message_stream from_bytes crc (r\<lparr>rd_rest := v\<rparr>)
        = (map (from_hdlc from_bytes crc) (split_inclusive MESSAGE_TERMINATOR v), None)" by simp
    with step uv False show ?thesis
      by (simp add: message_stream.simps [of _ _ r] read_until_split [of _ "rd_rest r"])
  qed
qed

text \<open>A chunk is framed when it is a run of complete frames.\<close>

definition framed :: "crc16 \<Rightarrow> (bytes list) list \<Rightarrow> MessagesContainer \<Rightarrow> bool" where
  "framed crc chunks c \<longleftrightarrow>
     map hem_data (mc_messages c) = map (\<lambda>ps. concat (map (\<lambda>p. hdlc_encapsulate p crc) ps)) chunks"

lemma concat_map_frames:
  "concat (map (\<lambda>ps. concat (map f ps)) xs) = concat (map f (concat xs))"
  by (induction xs) simp_all

lemma framed_written:
  assumes "list_all2 (framed crc) chunkss cs"
  shows "write_containers cs = concat (map (\<lambda>p. hdlc_encapsulate p crc) (concat (concat chunkss)))"
proof -
  have "concat (map hem_data (concat (map mc_messages cs)))
      = concat (map (\<lambda>p. hdlc_encapsulate p crc) (concat (concat chunkss)))"
    using assms by (induction rule: list_all2_induct) (simp_all add: framed_def concat_map_frames)
  then show ?thesis by (simp add: write_containers_eq)
qed

section \<open>Properties\<close>

text \<open>C24: Reading back a compressed recording gives exactly the payloads of the frames that were
  written to it, container by container and in order, and ends without an error, provided the gzip
  decoder undoes the encoder and the encoder's output starts with the magic number.\<close>

theorem qmdl_write_read:
  assumes gzip_inverse: "\<And>bs. gunzip (gzip bs) = (bs, StreamEnd)"
    and gzip_magic: "\<And>bs. is_gzip_stream (gzip bs) = Some True"
    and chunks: "list_all2 (framed crc) chunkss cs"
  shows "message_stream from_bytes crc (qmdl_reader_new gunzip (gzip (write_containers cs)))
    = (map (parse_payload from_bytes) (concat (concat chunkss)), None)"
proof -
  have "qmdl_reader_new gunzip (gzip (write_containers cs))
      = \<lparr>rd_rest = write_containers cs, rd_error = None, rd_compressed = True\<rparr>"
    by (simp add: qmdl_reader_new_def gzip_inverse gzip_magic)
  then show ?thesis
    by (simp add: message_stream_split framed_written [OF chunks] split_frames_hdlc)
qed

theorem qmdl_write_read_witness:
  "message_stream (\<lambda>p. Inr ([], length p)) (\<lambda>d. of_nat (length d))
     (qmdl_reader_new (\<lambda>f. (drop 2 f, StreamEnd)) (0x1f # 0x8b # write_containers
        [\<lparr>mc_data_type = UserSpace, mc_num_messages = 1,
          mc_messages = [\<lparr>hem_len = 11,
             hem_data = [7, 1, 0, 0x7e, 0x7d, 0x5e, 0x7d, 0x5d, 2, 0, 0x7e]\<rparr>]\<rparr>]))
   = ([Inr 1, Inr 2], None)"
proof -
  have chunks: "list_all2 (framed (\<lambda>d. of_nat (length d))) [[[[7], [0x7e, 0x7d]]]]
      [\<lparr>mc_data_type = UserSpace, mc_num_messages = 1,
        mc_messages = [\<lparr>hem_len = 11,
          hem_data = [7, 1, 0, 0x7e, 0x7d, 0x5e, 0x7d, 0x5d, 2, 0, 0x7e]\<rparr>]\<rparr>]"
    by (simp add: framed_def hdlc_encapsulate_def escape_byte_def hdlc_consts u16_to_le_bytes_def)
  have magic: "is_gzip_stream (0x1f # 0x8b # bs) = Some True" for bs
    by (simp add: is_gzip_stream_def GZIP_MAGIC_NUMBER_def)
  show ?thesis
    using qmdl_write_read [where gzip = "\<lambda>bs. 0x1f # 0x8b # bs"
      and gunzip = "\<lambda>f. (drop 2 f, StreamEnd)" and from_bytes = "\<lambda>p. Inr ([], length p)",
      OF _ magic chunks]
    by (simp add: parse_payload_def numeral_2_eq_2)
qed

text \<open>An uncompressed recording cut off inside a frame still yields every complete frame before the
  cut, then exactly one HDLC error for the torn piece, and then ends: a crash while recording costs
  only the frame being written.\<close>

theorem qmdl_truncated_recording:
  assumes "hdlc_encapsulate p crc = u @ v" and "u \<noteq> []" and "v \<noteq> []"
    and "is_gzip_stream (concat (map (\<lambda>p. hdlc_encapsulate p crc) ps) @ u) \<noteq> Some True"
  shows "message_stream from_bytes crc
      (qmdl_reader_new gunzip (concat (map (\<lambda>p. hdlc_encapsulate p crc) ps) @ u))
    = (map (parse_payload from_bytes) ps @
        [Inl (HdlcDecapsulationError
          (if length u < 3 then TooShort else NoTrailingCharacter (last u)) u)], None)"
proof -
  have "hdlc_decapsulate u crc = Inl (if length u < 3 then TooShort else NoTrailingCharacter (last u))"
  proof -
    from hdlc.decode_truncated(2) [OF assms(1-3)] assms(2) have "last u \<noteq> MESSAGE_TERMINATOR"
      by (metis last_in_set)
    then show ?thesis by (simp add: hdlc_decapsulate_def)
  qed
  then show ?thesis
    using assms(4)
    by (simp add: qmdl_reader_new_def message_stream_split hdlc.decode_truncated(1) [OF assms(1-3)]
        from_hdlc_def [of _ _ u])
qed

theorem qmdl_truncated_recording_witness:
  "message_stream (\<lambda>p. Inr ([], length p)) (\<lambda>d. of_nat (length d))
     (qmdl_reader_new (\<lambda>f. (f, StreamEnd)) [7, 1, 0, 0x7e, 8, 1])
   = ([Inr 1, Inl (HdlcDecapsulationError TooShort [8, 1])], None)"
proof -
  have "hdlc_encapsulate [8] (\<lambda>d. of_nat (length d)) = [8, 1] @ [0, 0x7e]"
    "hdlc_encapsulate [7] (\<lambda>d. of_nat (length d)) = [7, 1, 0, 0x7e]"
    by (simp_all add: hdlc_encapsulate_def escape_byte_def hdlc_consts u16_to_le_bytes_def)
  with qmdl_truncated_recording [OF this(1), of "[[7]]" "\<lambda>p. Inr ([], length p)" "\<lambda>f. (f, StreamEnd)"]
  show ?thesis
    by (simp add: parse_payload_def is_gzip_stream_def GZIP_MAGIC_NUMBER_def)
qed

end
