(* ===== verification/Mac.thy ===== *)
theory Mac
  imports RhPrelude
begin

text \<open>
  Hardware addresses and nibble-precision address prefixes (\<open>radio/src/mac.rs\<close>). An address is its
  six octets; a prefix keeps six octets, of which the first \<open>nibbles\<close> half-bytes are significant and
  the rest are zero. The reference view of both is the list of half-bytes (\<open>nibbles_of\<close>): a prefix
  matches an address when its digits are the address's first digits.
\<close>

datatype MacAddr = MacAddr u8 u8 u8 u8 u8 u8

fun octets :: "MacAddr \<Rightarrow> bytes" where
  "octets (MacAddr a b c d e f) = [a, b, c, d, e, f]"

record MacPrefix =
  mp_octets :: bytes
  mp_nibbles :: nat

datatype MacParseError = NotHex uchar | WrongLength nat

definition is_locally_administered :: "MacAddr \<Rightarrow> bool" where
  "is_locally_administered m \<longleftrightarrow> and (octets m ! 0) 0x02 \<noteq> 0"

definition is_multicast :: "MacAddr \<Rightarrow> bool" where
  "is_multicast m \<longleftrightarrow> and (octets m ! 0) 0x01 \<noteq> 0"

definition is_globally_unique :: "MacAddr \<Rightarrow> bool" where
  "is_globally_unique m \<longleftrightarrow> \<not> is_locally_administered m \<and> \<not> is_multicast m"

text \<open>\<open>collect_hex_digits\<close>: separators are skipped, the first other character ends the loop.\<close>

fun collect_hex_digits :: "ustr \<Rightarrow> MacParseError + bytes" where
  "collect_hex_digits [] = Inr []"
| "collect_hex_digits (c # s) =
     (if c = of_char (CHR '':'') \<or> c = of_char (CHR ''-'') \<or> c = of_char (CHR ''.'')
      then collect_hex_digits s
      else case to_digit16 c of
        Some d \<Rightarrow> and_then (collect_hex_digits s) (\<lambda>out. Inr (of_nat d # out))
      | None \<Rightarrow> Inl (NotHex c))"

definition mac_parse :: "ustr \<Rightarrow> MacParseError + MacAddr" where
  "mac_parse s = and_then (collect_hex_digits s) (\<lambda>digits.
     if length digits \<noteq> 12 then Inl (WrongLength (length digits))
     else (let octet = (\<lambda>i. or (push_bit 4 (digits ! (i * 2))) (digits ! (i * 2 + 1))) in
           Inr (MacAddr (octet 0) (octet 1) (octet 2) (octet 3) (octet 4) (octet 5))))"

fun mac_to_string :: "MacAddr \<Rightarrow> ustr" where
  "mac_to_string (MacAddr a b c d e f) =
     hex_byte a @ lit '':'' @ hex_byte b @ lit '':'' @ hex_byte c @ lit '':'' @ hex_byte d
     @ lit '':'' @ hex_byte e @ lit '':'' @ hex_byte f"

definition MIN_NIBBLES :: nat where "MIN_NIBBLES = 2"
definition MAX_NIBBLES :: nat where "MAX_NIBBLES = 12"

text \<open>The loop of \<open>MacPrefix::parse\<close> over \<open>digits.iter().enumerate()\<close>.\<close>

fun prefix_loop :: "bytes \<Rightarrow> nat \<Rightarrow> bytes \<Rightarrow> bytes" where
  "prefix_loop os i [] = os"
| "prefix_loop os i (digit # digits) =
     (let shift = (if i mod 2 = 0 then 4 else 0) in
      prefix_loop (os[i div 2 := or (os ! (i div 2)) (push_bit shift digit)]) (Suc i) digits)"

definition prefix_parse :: "ustr \<Rightarrow> MacParseError + MacPrefix" where
  "prefix_parse s = and_then (collect_hex_digits s) (\<lambda>digits.
     let nibbles = length digits in
     if nibbles < MIN_NIBBLES \<or> nibbles > MAX_NIBBLES then Inl (WrongLength nibbles)
     else Inr \<lparr>mp_octets = prefix_loop (replicate 6 0) 0 digits, mp_nibbles = nibbles\<rparr>)"

definition prefix_matches :: "MacPrefix \<Rightarrow> MacAddr \<Rightarrow> bool" where
  "prefix_matches p addr =
     (let whole = mp_nibbles p div 2 in
      if take whole (mp_octets p) \<noteq> take whole (octets addr) then False
      else if mp_nibbles p mod 2 = 1 then
        and (mp_octets p ! whole) 0xf0 = and (octets addr ! whole) 0xf0
      else True)"

definition specificity :: "MacPrefix \<Rightarrow> nat" where
  "specificity p = mp_nibbles p"

fun join_with :: "ustr \<Rightarrow> ustr list \<Rightarrow> ustr" where
  "join_with sep [] = []"
| "join_with sep [x] = x"
| "join_with sep (x # xs) = x @ sep @ join_with sep xs"

text \<open>\<open>Display for MacPrefix\<close>: whole octets, then the bare half-octet.\<close>

definition prefix_to_string :: "MacPrefix \<Rightarrow> ustr" where
  "prefix_to_string p =
     (let whole = mp_nibbles p div 2 in
      join_with (lit '':'') (map hex_byte (take whole (mp_octets p)))
      @ (if mp_nibbles p mod 2 = 1 then
           (if whole > 0 then lit '':'' else []) @ [hex_digit (unat (drop_bit 4 (mp_octets p ! whole)))]
         else []))"

section \<open>Digits\<close>

lemma length_octets [simp]: "length (octets m) = 6"
  by (cases m) simp

lemma octets_inject [simp]: "octets m = octets n \<longleftrightarrow> m = n"
  by (cases m; cases n) simp

declare collect_hex_digits.simps(2) [simp del]

lemma collect_hex_digits_nibbles:
  "collect_hex_digits s = Inr ds \<Longrightarrow> d \<in> set ds \<Longrightarrow> is_nibble d"
proof (induction s arbitrary: ds)
  case Nil
  then show ?case by simp
next
  case (Cons c s)
  have "is_nibble (of_nat n)" if "to_digit16 c = Some n" for n
    using to_digit16_bound [OF that] by (simp add: is_nibble_iff unat_of_nat)
  with Cons show ?case
    by (auto simp: collect_hex_digits.simps(2) and_then_eq_Inr split: if_splits option.splits)
qed

lemma hex_digit_not_separator:
  "n < 16 \<Longrightarrow> hex_digit n \<noteq> 58" "n < 16 \<Longrightarrow> hex_digit n \<noteq> 45" "n < 16 \<Longrightarrow> hex_digit n \<noteq> 46"
  by (auto simp: hex_digit_def)

lemma collect_nibble:
  assumes "is_nibble d"
  shows "collect_hex_digits (hex_digit (unat d) # s)
    = and_then (collect_hex_digits s) (\<lambda>out. Inr (d # out))"
  using assms by (simp add: collect_hex_digits.simps(2) is_nibble_iff hex_digit_not_separator)

lemma collect_hex_byte:
  "collect_hex_digits (hex_byte b @ s)
    = and_then (collect_hex_digits s) (\<lambda>out. Inr (hi_nibble b # lo_nibble b # out))"
  by (cases "collect_hex_digits s") (simp_all add: hex_byte_nibbles collect_nibble)

lemma collect_separator [simp]: "collect_hex_digits (58 # s) = collect_hex_digits s"
  by (simp add: collect_hex_digits.simps(2))

lemma collect_joined:
  "collect_hex_digits (join_with [58] (map hex_byte bs) @ s)
    = and_then (collect_hex_digits s) (\<lambda>out. Inr (nibbles_of bs @ out))"
proof (induction bs rule: induct_list012)
  case 1
  then show ?case by (cases "collect_hex_digits s") simp_all
next
  case (2 b)
  then show ?case by (simp add: collect_hex_byte)
next
  case (3 b c bs)
  then show ?case
    by (cases "collect_hex_digits s") (simp_all add: collect_hex_byte)
qed

section \<open>Prefixes as digit lists\<close>

text \<open>Half-byte \<open>k\<close> of a byte string.\<close>

definition nib :: "bytes \<Rightarrow> nat \<Rightarrow> u8" where
  "nib os k = (if even k then hi_nibble (os ! (k div 2)) else lo_nibble (os ! (k div 2)))"

lemma nth_nibbles_of: "k < 2 * length os \<Longrightarrow> nibbles_of os ! k = nib os k"
proof (induction os arbitrary: k)
  case Nil
  then show ?case by simp
next
  case (Cons b os)
  consider "k = 0" | "k = 1" | j where "k = Suc (Suc j)"
    by (metis One_nat_def not0_implies_Suc)
  then show ?case using Cons by cases (simp_all add: nib_def)
qed

lemma nib_update:
  assumes "i < 2 * length os" and "is_nibble d" and "nib os i = 0" and "k < 2 * length os"
  shows "nib (os[i div 2 := or (os ! (i div 2)) (push_bit (if i mod 2 = 0 then 4 else 0) d)]) k
    = (if k = i then d else nib os k)"
proof (cases "k div 2 = i div 2")
  case True
  then have "k = i \<or> (even k \<longleftrightarrow> odd i)" by presburger
  moreover have "i div 2 < length os" using assms(1) by simp
  ultimately show ?thesis
    using True assms nibble_or_high [OF assms(2)] nibble_or_low [OF assms(2)]
    by (auto simp: nib_def even_iff_mod_2_eq_zero)
next
  case False
  then show ?thesis by (auto simp: nib_def)
qed

lemma prefix_loop_nib:
  assumes "\<forall>d \<in> set ds. is_nibble d" and "i + length ds \<le> 2 * length os"
    and "\<forall>k. i \<le> k \<and> k < 2 * length os \<longrightarrow> nib os k = 0"
  shows "length (prefix_loop os i ds) = length os \<and>
    (\<forall>k < 2 * length os. nib (prefix_loop os i ds) k =
      (if k < i then nib os k else if k < i + length ds then ds ! (k - i) else 0))"
  using assms
proof (induction ds arbitrary: os i)
  case Nil
  then show ?case by auto
next
  case (Cons d ds)
  let ?os = "os[i div 2 := or (os ! (i div 2)) (push_bit (if i mod 2 = 0 then 4 else 0) d)]"
  have upd: "nib ?os k = (if k = i then d else nib os k)" if "k < 2 * length os" for k
    by (rule nib_update) (use Cons.prems that in auto)
  have IH: "length (prefix_loop ?os (Suc i) ds) = length ?os \<and>
    (\<forall>k < 2 * length ?os. nib (prefix_loop ?os (Suc i) ds) k =
      (if k < Suc i then nib ?os k else if k < Suc i + length ds then ds ! (k - Suc i) else 0))"
  proof (rule Cons.IH)
    show "\<forall>k. Suc i \<le> k \<and> k < 2 * length ?os \<longrightarrow> nib ?os k = 0"
    proof (intro allI impI)
      fix k
      assume "Suc i \<le> k \<and> k < 2 * length ?os"
      then show "nib ?os k = 0" using upd [of k] Cons.prems(3) by simp
    qed
  qed (use Cons.prems in auto)
  have "nib (prefix_loop ?os (Suc i) ds) k =
      (if k < i then nib os k else if k < i + length (d # ds) then (d # ds) ! (k - i) else 0)"
    if "k < 2 * length os" for k
  proof -
    have eq: "nib (prefix_loop ?os (Suc i) ds) k =
        (if k < Suc i then nib ?os k else if k < Suc i + length ds then ds ! (k - Suc i) else 0)"
      using IH that by simp
    show ?thesis
      unfolding eq upd [OF that] by (cases "k < i"; cases "k = i") (auto simp: nth_Cons')
  qed
  moreover have "prefix_loop os i (d # ds) = prefix_loop ?os (Suc i) ds" by (simp only: prefix_loop.simps Let_def)
  ultimately show ?case using IH by (simp only: length_list_update) simp
qed

lemma prefix_loop_nibbles:
  assumes "\<forall>d \<in> set ds. is_nibble d" and "length ds \<le> 12"
  shows "nibbles_of (prefix_loop (replicate 6 0) 0 ds) = ds @ replicate (12 - length ds) 0"
proof (rule nth_equalityI)
  have loop: "length (prefix_loop (replicate 6 0) 0 ds) = 6 \<and> (\<forall>k < 12.
      nib (prefix_loop (replicate 6 0) 0 ds) k = (if k < length ds then ds ! k else 0))"
    using prefix_loop_nib [of ds 0 "replicate 6 0"] assms
    by (simp add: nib_def hi_nibble_def lo_nibble_def)
  then show "length (nibbles_of (prefix_loop (replicate 6 0) 0 ds))
      = length (ds @ replicate (12 - length ds) 0)" using assms by simp
  show "nibbles_of (prefix_loop (replicate 6 0) 0 ds) ! k = (ds @ replicate (12 - length ds) 0) ! k"
    if "k < length (nibbles_of (prefix_loop (replicate 6 0) 0 ds))" for k
    using that loop assms by (simp add: nth_nibbles_of nth_append)
qed

text \<open>Well-formed prefixes: what \<open>MacPrefix::parse\<close> can return.\<close>

definition prefix_wf :: "MacPrefix \<Rightarrow> bool" where
  "prefix_wf p \<longleftrightarrow> length (mp_octets p) = 6 \<and> 2 \<le> mp_nibbles p \<and> mp_nibbles p \<le> 12
     \<and> drop (mp_nibbles p) (nibbles_of (mp_octets p)) = replicate (12 - mp_nibbles p) 0"

lemma prefix_parse_eq_Inr:
  "prefix_parse s = Inr p \<longleftrightarrow>
     prefix_wf p \<and> collect_hex_digits s = Inr (take (mp_nibbles p) (nibbles_of (mp_octets p)))"
proof
  assume "prefix_parse s = Inr p"
  then obtain ds where ds: "collect_hex_digits s = Inr ds" "2 \<le> length ds" "length ds \<le> 12"
    and p: "p = \<lparr>mp_octets = prefix_loop (replicate 6 0) 0 ds, mp_nibbles = length ds\<rparr>"
    by (auto simp: prefix_parse_def and_then_eq_Inr Let_def MIN_NIBBLES_def MAX_NIBBLES_def
        split: if_splits)
  have nibs: "nibbles_of (mp_octets p) = ds @ replicate (12 - length ds) 0"
    using prefix_loop_nibbles [of ds] collect_hex_digits_nibbles [OF ds(1)] ds(3) p by simp
  then have "2 * length (mp_octets p) = 12" using ds(3)
    by (metis length_append length_nibbles_of length_replicate le_add_diff_inverse)
  with nibs ds p show
    "prefix_wf p \<and> collect_hex_digits s = Inr (take (mp_nibbles p) (nibbles_of (mp_octets p)))"
    by (simp add: prefix_wf_def)
next
  assume asm: "prefix_wf p \<and> collect_hex_digits s = Inr (take (mp_nibbles p) (nibbles_of (mp_octets p)))"
  let ?ds = "take (mp_nibbles p) (nibbles_of (mp_octets p))"
  have len: "length ?ds = mp_nibbles p" using asm by (simp add: prefix_wf_def)
  have "nibbles_of (prefix_loop (replicate 6 0) 0 ?ds) = ?ds @ replicate (12 - mp_nibbles p) 0"
    using prefix_loop_nibbles [of ?ds] asm len collect_hex_digits_nibbles [of s ?ds]
    by (auto simp: prefix_wf_def)
  also have "\<dots> = nibbles_of (mp_octets p)"
    using asm by (metis append_take_drop_id prefix_wf_def)
  finally have "prefix_loop (replicate 6 0) 0 ?ds = mp_octets p" by (simp add: nibbles_of_inject)
  with asm len show "prefix_parse s = Inr p"
    by (simp add: prefix_parse_def Let_def MIN_NIBBLES_def MAX_NIBBLES_def prefix_wf_def
        del: length_take)
qed

lemma and_f0_eq_iff: "and a 0xf0 = and b (0xf0 :: u8) \<longleftrightarrow> hi_nibble a = hi_nibble b"
proof -
  have hi: "and x 0xf0 = push_bit 4 (hi_nibble x)" for x :: u8
  proof -
    have "and x (push_bit 4 (mask 4)) = push_bit 4 (and (drop_bit 4 x) (mask 4))"
      by (rule bit_word_eqI) (auto simp: bit_and_iff bit_push_bit_iff bit_drop_bit_eq)
    moreover have "and (drop_bit 4 x) (mask 4) = drop_bit 4 x"
      using is_nibble_halves(1) [of x]
      by (simp add: is_nibble_def hi_nibble_def flip: take_bit_eq_mask)
    moreover have "push_bit 4 (mask 4) = (0xf0 :: u8)" by (simp add: mask_eq_exp_minus_1)
    ultimately show ?thesis by (simp add: hi_nibble_def)
  qed
  have "drop_bit 4 (push_bit 4 (hi_nibble x)) = hi_nibble x" for x
    by (rule bit_word_eqI)
      (auto simp: bit_drop_bit_eq bit_push_bit_iff dest: is_nibble_bit [OF is_nibble_halves(1)])
  then show ?thesis by (metis hi)
qed

lemma prefix_matches_nibbles:
  assumes "length (mp_octets p) = 6" and "mp_nibbles p \<le> 12"
  shows "prefix_matches p addr \<longleftrightarrow>
    take (mp_nibbles p) (nibbles_of (mp_octets p)) = take (mp_nibbles p) (nibbles_of (octets addr))"
proof -
  define w where "w = mp_nibbles p div 2"
  show ?thesis
  proof (cases "mp_nibbles p mod 2 = 1")
    case True
    then have n: "mp_nibbles p = Suc (2 * w)" unfolding w_def by presburger
    with assms have "w < 6" by simp
    with n assms(1) True show ?thesis
      by (auto simp: prefix_matches_def Let_def take_nibbles_of_odd nibbles_of_inject and_f0_eq_iff)
  next
    case False
    then have n: "mp_nibbles p = 2 * w" unfolding w_def by presburger
    then show ?thesis
      by (auto simp: prefix_matches_def Let_def take_nibbles_of_even nibbles_of_inject)
  qed
qed

lemma collect_prefix_to_string:
  assumes "prefix_wf p"
  shows "collect_hex_digits (prefix_to_string p) = Inr (take (mp_nibbles p) (nibbles_of (mp_octets p)))"
proof -
  define w where "w = mp_nibbles p div 2"
  have len: "length (mp_octets p) = 6" and bounds: "mp_nibbles p \<le> 12"
    using assms by (simp_all add: prefix_wf_def)
  show ?thesis
  proof (cases "mp_nibbles p mod 2 = 1")
    case True
    then have n: "mp_nibbles p = Suc (2 * w)" unfolding w_def by presburger
    with bounds len have "w < length (mp_octets p)" by simp
    moreover have "prefix_to_string p = join_with (lit '':'') (map hex_byte (take w (mp_octets p)))
        @ (if w > 0 then lit '':'' else []) @ [hex_digit (unat (hi_nibble (mp_octets p ! w)))]"
      using True by (simp add: prefix_to_string_def Let_def w_def hi_nibble_def)
    ultimately show ?thesis
      by (simp add: n collect_joined collect_nibble take_nibbles_of_odd)
  next
    case False
    then have n: "mp_nibbles p = 2 * w" unfolding w_def by presburger
    have "prefix_to_string p = join_with (lit '':'') (map hex_byte (take w (mp_octets p))) @ []"
      using False by (simp add: prefix_to_string_def Let_def w_def)
    then show ?thesis
      using collect_joined [of "take w (mp_octets p)" "[]"] by (simp add: n take_nibbles_of_even)
  qed
qed

lemma collect_mac_to_string: "collect_hex_digits (mac_to_string m) = Inr (nibbles_of (octets m))"
proof -
  have "mac_to_string m = join_with (lit '':'') (map hex_byte (octets m)) @ []"
    by (cases m) simp
  then show ?thesis using collect_joined [of "octets m" "[]"] by simp
qed

lemma byte_of_nibbles: "or (push_bit 4 (hi_nibble b)) (lo_nibble b) = b"
  unfolding hi_nibble_def lo_nibble_def
  by (rule bit_word_eqI)
    (auto simp: bit_or_iff bit_push_bit_iff bit_take_bit_iff bit_drop_bit_eq)

lemma mac_to_string_inject: "mac_to_string m = mac_to_string n \<longleftrightarrow> m = n"
proof
  assume "mac_to_string m = mac_to_string n"
  then have "nibbles_of (octets m) = nibbles_of (octets n)"
    using collect_mac_to_string [of m] collect_mac_to_string [of n] by simp
  then show "m = n" by (simp add: nibbles_of_inject)
qed simp

section \<open>Properties\<close>

text \<open>Rendering an address and parsing it back gives the same address, so addresses survive the
  JSON evidence and rule files, which store them as text.\<close>

theorem mac_display_parse: "mac_parse (mac_to_string m) = Inr m"
proof (cases m)
  case (MacAddr a b c d e f)
  then show ?thesis
    using collect_mac_to_string [of m] by (simp add: mac_parse_def byte_of_nibbles)
qed

text \<open>A parsed prefix matches an address exactly when the hex digits the rule author wrote are the
  first hex digits of the address, for every length from two to twelve digits including the odd ones
  that end in the middle of an octet.\<close>

theorem prefix_matches_digits:
  assumes "prefix_parse s = Inr p" and "collect_hex_digits s = Inr digits"
  shows "prefix_matches p addr \<longleftrightarrow> take (length digits) (nibbles_of (octets addr)) = digits"
proof -
  from assms have wf: "prefix_wf p" and ds: "digits = take (mp_nibbles p) (nibbles_of (mp_octets p))"
    by (simp_all add: prefix_parse_eq_Inr)
  from wf ds have "length digits = mp_nibbles p" by (simp add: prefix_wf_def)
  with wf ds show ?thesis by (auto simp: prefix_wf_def prefix_matches_nibbles)
qed

theorem prefix_matches_digits_witness:
  "prefix_matches \<lparr>mp_octets = [0x70, 0xb3, 0xd5, 0x7c, 0xb0, 0], mp_nibbles = 9\<rparr>
     (MacAddr 0x70 0xb3 0xd5 0x7c 0xbf 0xff)
   \<longleftrightarrow> take (length [7, 0, 0xb, 3, 0xd, 5, 7, 0xc, 0xb :: u8])
         (nibbles_of (octets (MacAddr 0x70 0xb3 0xd5 0x7c 0xbf 0xff)))
       = [7, 0, 0xb, 3, 0xd, 5, 7, 0xc, 0xb]"
proof (rule prefix_matches_digits)
  show "prefix_parse (lit ''70:b3:d5:7c:b'')
      = Inr \<lparr>mp_octets = [0x70, 0xb3, 0xd5, 0x7c, 0xb0, 0], mp_nibbles = 9\<rparr>"
    by code_simp
  show "collect_hex_digits (lit ''70:b3:d5:7c:b'') = Inr [7, 0, 0xb, 3, 0xd, 5, 7, 0xc, 0xb]"
    by code_simp
qed

text \<open>Every prefix the parser accepts is well formed (six octets, two to twelve digits, zeros after
  the last one) and renders to text that parses back to the same prefix.\<close>

theorem prefix_display_parse:
  assumes "prefix_parse s = Inr p"
  shows "prefix_wf p \<and> prefix_parse (prefix_to_string p) = Inr p"
  using assms collect_prefix_to_string [of p] by (simp add: prefix_parse_eq_Inr)

theorem prefix_display_parse_witness:
  "prefix_parse (prefix_to_string \<lparr>mp_octets = [0x70, 0xb3, 0xd5, 0x7c, 0xb0, 0], mp_nibbles = 9\<rparr>)
   = Inr \<lparr>mp_octets = [0x70, 0xb3, 0xd5, 0x7c, 0xb0, 0], mp_nibbles = 9\<rparr>"
proof -
  have "prefix_parse (lit ''70b3d57cb'')
      = Inr \<lparr>mp_octets = [0x70, 0xb3, 0xd5, 0x7c, 0xb0, 0], mp_nibbles = 9\<rparr>"
    by code_simp
  from prefix_display_parse [OF this] show ?thesis by blast
qed

end
