(* ===== verification/Observation.thy ===== *)
theory Observation
  imports Mac
begin

text \<open>
  What a radio saw (\<open>radio/src/observation.rs\<close>): the observation records, the ingest limits on the
  two attacker-controlled byte strings (SSIDs and information elements), the printable rendering of
  an SSID with the standard library's lossy UTF-8 decoder it rests on, and the merging of repeated
  sightings. Times (\<open>DateTime<Utc>\<close>) are integers; the coordinates of a Remote ID broadcast are
  carried as IEEE bit patterns, since nothing here computes with them.
\<close>

section \<open>Technologies, sources, frames\<close>

datatype RadioTech = Wifi | Ble | RemoteId

fun badge :: "RadioTech \<Rightarrow> ustr" where
  "badge Wifi = lit ''WIFI''"
| "badge Ble = lit ''BLE''"
| "badge RemoteId = lit ''REMOTE ID''"

datatype ObservationSource = HostWifiScan | HostWifiMonitor | HostBle | External ustr

datatype FrameKind = Beacon | ProbeRequest | ProbeResponse | BeaconOrProbeResponse | Data | Other

section \<open>SSIDs\<close>

datatype Ssid = Wildcard | Named bytes

definition SSID_MAX_LEN :: nat where "SSID_MAX_LEN = 32"

definition ssid_from_bytes :: "bytes \<Rightarrow> Ssid" where
  "ssid_from_bytes bs =
     (if bs = [] then Wildcard
      else (let end = min (length bs) SSID_MAX_LEN in Named (take end bs)))"

definition is_wildcard :: "Ssid \<Rightarrow> bool" where
  "is_wildcard s = (case s of Wildcard \<Rightarrow> True | Named _ \<Rightarrow> False)"

text \<open>\<open>String::from_utf8_lossy\<close>: each maximal ill-formed prefix becomes one replacement character.
  \<open>utf8_step\<close> reads one character, or one replacement, and says how many further bytes it took.\<close>

definition REPLACEMENT :: uchar where "REPLACEMENT = 65533"

definition is_cont :: "u8 \<Rightarrow> bool" where
  "is_cont b \<longleftrightarrow> 128 \<le> unat b \<and> unat b < 192"

definition second_of_3 :: "nat \<Rightarrow> nat \<Rightarrow> bool" where
  "second_of_3 x y \<longleftrightarrow>
     (if x = 224 then 160 \<le> y \<and> y < 192 else if x = 237 then 128 \<le> y \<and> y < 160 else 128 \<le> y \<and> y < 192)"

definition second_of_4 :: "nat \<Rightarrow> nat \<Rightarrow> bool" where
  "second_of_4 x y \<longleftrightarrow>
     (if x = 240 then 144 \<le> y \<and> y < 192 else if x = 244 then 128 \<le> y \<and> y < 144 else 128 \<le> y \<and> y < 192)"

definition utf8_step :: "u8 \<Rightarrow> bytes \<Rightarrow> uchar \<times> nat" where
  "utf8_step b bs =
     (let x = unat b; v = (\<lambda>i. unat (bs ! i) - 128) in
      if x < 128 then (x, 0)
      else if 194 \<le> x \<and> x < 224 then
        (if 1 \<le> length bs \<and> is_cont (bs ! 0) then ((x - 192) * 64 + v 0, 1) else (REPLACEMENT, 0))
      else if 224 \<le> x \<and> x < 240 then
        (if \<not> (1 \<le> length bs \<and> second_of_3 x (unat (bs ! 0))) then (REPLACEMENT, 0)
         else if \<not> (2 \<le> length bs \<and> is_cont (bs ! 1)) then (REPLACEMENT, 1)
         else ((x - 224) * 4096 + v 0 * 64 + v 1, 2))
      else if 240 \<le> x \<and> x < 245 then
        (if \<not> (1 \<le> length bs \<and> second_of_4 x (unat (bs ! 0))) then (REPLACEMENT, 0)
         else if \<not> (2 \<le> length bs \<and> is_cont (bs ! 1)) then (REPLACEMENT, 1)
         else if \<not> (3 \<le> length bs \<and> is_cont (bs ! 2)) then (REPLACEMENT, 2)
         else ((x - 240) * 262144 + v 0 * 4096 + v 1 * 64 + v 2, 3))
      else (REPLACEMENT, 0))"

function from_utf8_lossy :: "bytes \<Rightarrow> ustr" where
  "from_utf8_lossy [] = []"
| "from_utf8_lossy (b # bs) =
     fst (utf8_step b bs) # from_utf8_lossy (drop (snd (utf8_step b bs)) bs)"
  by pat_completeness auto
termination by (relation "measure length") auto

text \<open>\<open>char::is_control\<close>: general category Cc.\<close>

definition is_control :: "uchar \<Rightarrow> bool" where
  "is_control c \<longleftrightarrow> c < 32 \<or> (127 \<le> c \<and> c < 160)"

definition ssid_display :: "Ssid \<Rightarrow> ustr" where
  "ssid_display s =
     (case s of
        Wildcard \<Rightarrow> []
      | Named bs \<Rightarrow> map (\<lambda>c. if is_control c then REPLACEMENT else c) (from_utf8_lossy bs))"

section \<open>Information elements\<close>

record InformationElement =
  ie_id :: u8
  ie_data :: bytes

definition IE_MAX_DATA :: nat where "IE_MAX_DATA = 255"
definition VENDOR_SPECIFIC :: u8 where "VENDOR_SPECIFIC = 221"

definition ie_new :: "u8 \<Rightarrow> bytes \<Rightarrow> InformationElement" where
  "ie_new i dat = (let end = min (length dat) IE_MAX_DATA in \<lparr>ie_id = i, ie_data = take end dat\<rparr>)"

definition vendor_oui :: "InformationElement \<Rightarrow> (u8 \<times> u8 \<times> u8) option" where
  "vendor_oui ie =
     (if ie_id ie \<noteq> VENDOR_SPECIFIC \<or> length (ie_data ie) < 3 then None
      else Some (ie_data ie ! 0, ie_data ie ! 1, ie_data ie ! 2))"

section \<open>Security\<close>

record Security =
  sec_open :: bool
  sec_wep :: bool
  sec_wpa :: bool
  sec_wpa2 :: bool
  sec_wpa3 :: bool
  sec_enterprise :: bool

definition security_label :: "Security \<Rightarrow> ustr" where
  "security_label s =
     (if sec_open s then lit ''Open''
      else (let parts = (if sec_wep s then [lit ''WEP''] else [])
                      @ (if sec_wpa s then [lit ''WPA''] else [])
                      @ (if sec_wpa2 s then [lit ''WPA2''] else [])
                      @ (if sec_wpa3 s then [lit ''WPA3''] else []) in
            if parts = [] then lit ''Unknown''
            else join_with (lit ''/'') parts @ (if sec_enterprise s then lit '' Enterprise'' else [])))"

definition is_unprotected :: "Security \<Rightarrow> bool" where
  "is_unprotected s \<longleftrightarrow> sec_open s \<or> sec_wep s"

section \<open>Observations\<close>

record WifiObservation =
  w_bssid :: "MacAddr option"
  w_transmitter :: "MacAddr option"
  w_receiver :: "MacAddr option"
  w_addr3 :: "MacAddr option"
  w_ssid :: "Ssid option"
  w_frequency_mhz :: "nat option"
  w_rssi_dbm :: "int option"
  w_frame :: "FrameKind option"
  w_information_elements :: "InformationElement list"
  w_security :: "Security option"
  w_last_seen_ms :: "nat option"
  w_wps :: bool

definition wifi_empty :: WifiObservation where
  "wifi_empty = \<lparr>w_bssid = None, w_transmitter = None, w_receiver = None, w_addr3 = None, w_ssid = None,
     w_frequency_mhz = None, w_rssi_dbm = None, w_frame = None, w_information_elements = [],
     w_security = None, w_last_seen_ms = None, w_wps = False\<rparr>"

text \<open>\<open>Option::or\<close>.\<close>

definition option_or :: "'a option \<Rightarrow> 'a option \<Rightarrow> 'a option" where
  "option_or a b = (case a of Some _ \<Rightarrow> a | None \<Rightarrow> b)"

definition primary_address :: "WifiObservation \<Rightarrow> MacAddr option" where
  "primary_address w = option_or (option_or (w_transmitter w) (w_bssid w)) (w_addr3 w)"

definition channel :: "WifiObservation \<Rightarrow> nat option" where
  "channel w =
     (case w_frequency_mhz w of
        None \<Rightarrow> None
      | Some freq \<Rightarrow>
          if 2412 \<le> freq \<and> freq \<le> 2472 then Some ((freq - 2407) div 5)
          else if freq = 2484 then Some 14
          else if 5000 \<le> freq \<and> freq \<le> 5895 then Some ((freq - 5000) div 5)
          else None)"

record BleObservation =
  b_address :: "MacAddr option"
  b_address_is_random :: bool
  b_local_name :: "ustr option"
  b_company_id :: "u16 option"
  b_service_uuids :: "ustr list"
  b_manufacturer_data :: bytes
  b_rssi_dbm :: "int option"

record RemoteIdObservation =
  r_uas_id :: "ustr option"
  r_operator_id :: "ustr option"
  r_latitude :: "u64 option"
  r_longitude :: "u64 option"
  r_altitude_m :: "u32 option"
  r_speed_mps :: "u32 option"
  r_heading_deg :: "u32 option"
  r_operator_latitude :: "u64 option"
  r_operator_longitude :: "u64 option"
  r_protocol_version :: "u8 option"
  r_rssi_dbm :: "int option"

datatype ObservationPayload =
    WifiPayload WifiObservation
  | BlePayload BleObservation
  | RemoteIdPayload RemoteIdObservation

fun payload_tech :: "ObservationPayload \<Rightarrow> RadioTech" where
  "payload_tech (WifiPayload _) = Wifi"
| "payload_tech (BlePayload _) = Ble"
| "payload_tech (RemoteIdPayload _) = RemoteId"

fun payload_rssi_dbm :: "ObservationPayload \<Rightarrow> int option" where
  "payload_rssi_dbm (WifiPayload w) = w_rssi_dbm w"
| "payload_rssi_dbm (BlePayload b) = b_rssi_dbm b"
| "payload_rssi_dbm (RemoteIdPayload r) = r_rssi_dbm r"

fun payload_address :: "ObservationPayload \<Rightarrow> MacAddr option" where
  "payload_address (WifiPayload w) = primary_address w"
| "payload_address (BlePayload b) = b_address b"
| "payload_address (RemoteIdPayload _) = None"

type_synonym datetime = int

record RadioObservation =
  ro_source :: ObservationSource
  ro_first_seen :: datetime
  ro_last_seen :: datetime
  ro_observation_count :: nat
  ro_payload :: ObservationPayload

definition observation_new :: "ObservationSource \<Rightarrow> datetime \<Rightarrow> ObservationPayload \<Rightarrow> RadioObservation" where
  "observation_new src t payload =
     \<lparr>ro_source = src, ro_first_seen = t, ro_last_seen = t, ro_observation_count = 1, ro_payload = payload\<rparr>"

definition observation_tech :: "RadioObservation \<Rightarrow> RadioTech" where
  "observation_tech o1 = payload_tech (ro_payload o1)"

definition merge_sighting :: "RadioObservation \<Rightarrow> datetime \<Rightarrow> RadioObservation" where
  "merge_sighting o1 t =
     (let o2 = (if t < ro_first_seen o1 then o1\<lparr>ro_first_seen := t\<rparr> else o1);
          o3 = (if t > ro_last_seen o2 then o2\<lparr>ro_last_seen := t\<rparr> else o2) in
      o3\<lparr>ro_observation_count := sat_add_u32 (ro_observation_count o3) 1\<rparr>)"

section \<open>Lossy decoding of well-formed text\<close>

definition is_scalar :: "uchar \<Rightarrow> bool" where
  "is_scalar c \<longleftrightarrow> c < 55296 \<or> (57344 \<le> c \<and> c < 1114112)"

lemma unat_byte_of_nat [simp]: "k < 256 \<Longrightarrow> unat (of_nat k :: u8) = k"
  by (simp add: unat_of_nat)

lemma split_3: "(c :: nat) div 4096 * 4096 + c div 64 mod 64 * 64 + c mod 64 = c"
proof -
  have "c div 4096 * 64 + c div 64 mod 64 = c div 64"
    using div_mult_mod_eq [of "c div 64" 64] by (simp add: div_mult2_eq [symmetric])
  with div_mult_mod_eq [of c 64] show ?thesis by linarith
qed

lemma split_4:
  "(c :: nat) div 262144 * 262144 + c div 4096 mod 64 * 4096 + c div 64 mod 64 * 64 + c mod 64 = c"
proof -
  have "c div 262144 * 64 + c div 4096 mod 64 = c div 4096"
    using div_mult_mod_eq [of "c div 4096" 64] by (simp add: div_mult2_eq [symmetric])
  with split_3 [of c] show ?thesis by linarith
qed

lemma utf8_step_2:
  assumes "128 \<le> c" and "c < 2048"
  shows "utf8_step (of_nat (192 + c div 64)) (of_nat (128 + c mod 64) # rest) = (c, 1)"
proof -
  have "c div 64 < 32" "2 \<le> c div 64" "c mod 64 < 64" using assms by auto
  then show ?thesis by (simp add: utf8_step_def is_cont_def Let_def del: of_nat_add)
qed

lemma utf8_step_3:
  assumes "2048 \<le> c" and "c < 65536" and "is_scalar c"
  shows "utf8_step (of_nat (224 + c div 4096))
    (of_nat (128 + c div 64 mod 64) # of_nat (128 + c mod 64) # rest) = (c, 2)"
proof -
  have b: "c div 4096 < 16" "c div 64 mod 64 < 64" "c mod 64 < 64" using assms(2) by auto
  have "32 \<le> c div 64 mod 64" if "c div 4096 = 0"
    using that assms(1) split_3 [of c] b(3) by linarith
  moreover have "c div 64 mod 64 < 32" if "c div 4096 = 13"
    using that assms(3) split_3 [of c] b(2,3) unfolding is_scalar_def by linarith
  ultimately have "second_of_3 (224 + c div 4096) (128 + c div 64 mod 64)"
    using b by (auto simp: second_of_3_def)
  with b show ?thesis using split_3 [of c] by (simp add: utf8_step_def is_cont_def Let_def numeral_2_eq_2 del: of_nat_add)
qed

lemma utf8_step_4:
  assumes "65536 \<le> c" and "is_scalar c"
  shows "utf8_step (of_nat (240 + c div 262144)) (of_nat (128 + c div 4096 mod 64)
    # of_nat (128 + c div 64 mod 64) # of_nat (128 + c mod 64) # rest) = (c, 3)"
proof -
  have lt: "c < 1114112" using assms by (auto simp: is_scalar_def)
  then have b: "c div 262144 < 5" "c div 4096 mod 64 < 64" "c div 64 mod 64 < 64" "c mod 64 < 64" by auto
  have "16 \<le> c div 4096 mod 64" if "c div 262144 = 0"
    using that assms(1) split_4 [of c] b(3,4) by linarith
  moreover have "c div 4096 mod 64 < 16" if "c div 262144 = 4"
    using that lt split_4 [of c] by linarith
  ultimately have "second_of_4 (240 + c div 262144) (128 + c div 4096 mod 64)"
    using b by (auto simp: second_of_4_def)
  with b show ?thesis using split_4 [of c] by (simp add: utf8_step_def is_cont_def Let_def numeral_2_eq_2 del: of_nat_add)
qed

lemma from_utf8_lossy_utf8_char:
  assumes "is_scalar c"
  shows "from_utf8_lossy (utf8_char c @ rest) = c # from_utf8_lossy rest"
proof -
  consider "c < 128" | "128 \<le> c" "c < 2048" | "2048 \<le> c" "c < 65536" | "65536 \<le> c" by linarith
  then show ?thesis
  proof cases
    case 1
    then show ?thesis by (simp add: utf8_char_def utf8_step_def Let_def)
  next
    case 2
    with utf8_step_2 [of c rest] show ?thesis by (simp add: utf8_char_def del: of_nat_add)
  next
    case 3
    with utf8_step_3 [of c rest] assms show ?thesis by (simp add: utf8_char_def del: of_nat_add)
  next
    case 4
    with utf8_step_4 [of c rest] assms show ?thesis by (simp add: utf8_char_def del: of_nat_add)
  qed
qed

lemma from_utf8_lossy_utf8_bytes: "\<forall>c \<in> set s. is_scalar c \<Longrightarrow> from_utf8_lossy (utf8_bytes s) = s"
  by (induction s) (simp_all add: utf8_bytes_def from_utf8_lossy_utf8_char)

section \<open>Merging\<close>

lemma foldl_merge_sighting:
  "ro_first_seen (foldl merge_sighting o1 ts) = foldl min (ro_first_seen o1) ts"
  "ro_last_seen (foldl merge_sighting o1 ts) = foldl max (ro_last_seen o1) ts"
  "ro_observation_count o1 \<le> u32_max \<Longrightarrow>
     ro_observation_count (foldl merge_sighting o1 ts) = min (ro_observation_count o1 + length ts) u32_max"
  "ro_payload (foldl merge_sighting o1 ts) = ro_payload o1"
  by (induction ts arbitrary: o1)
    (auto simp: merge_sighting_def Let_def min_def max_def sat_add_u32_def)

lemma foldl_min: "foldl min (a :: 'a :: linorder) xs = Min (set (a # xs))"
proof (induction xs arbitrary: a)
  case (Cons x xs)
  then show ?case by (cases "xs = []") (simp_all add: min.assoc)
qed simp

lemma foldl_max: "foldl max (a :: 'a :: linorder) xs = Max (set (a # xs))"
proof (induction xs arbitrary: a)
  case (Cons x xs)
  then show ?case by (cases "xs = []") (simp_all add: max.assoc)
qed simp

section \<open>Properties\<close>

text \<open>An SSID reaches the matcher and the screen unharmed exactly when it should: a well-formed name
  of at most 32 bytes without control characters is displayed as it was transmitted, and whatever
  bytes a hostile transmitter chose, no control character survives into the display.\<close>

theorem ssid_display_faithful_and_safe:
  assumes "\<forall>c \<in> set name. is_scalar c \<and> \<not> is_control c" and "str_len name \<le> SSID_MAX_LEN"
  shows "ssid_display (ssid_from_bytes (utf8_bytes name)) = name
     \<and> (\<forall>bs. \<forall>c \<in> set (ssid_display (ssid_from_bytes bs)). \<not> is_control c)"
proof
  have id: "map (\<lambda>c. if is_control c then REPLACEMENT else c) name = name"
    using assms(1) by (intro map_idI) auto
  show "ssid_display (ssid_from_bytes (utf8_bytes name)) = name"
  proof (cases "utf8_bytes name = []")
    case True
    moreover have "from_utf8_lossy (utf8_bytes name) = name" using assms(1) from_utf8_lossy_utf8_bytes by blast
    ultimately show ?thesis by (simp add: ssid_display_def ssid_from_bytes_def)
  next
    case False
    with assms show ?thesis
      by (simp add: ssid_display_def ssid_from_bytes_def Let_def str_len_def from_utf8_lossy_utf8_bytes id)
  qed
next
  have "\<not> is_control REPLACEMENT" by (simp add: is_control_def REPLACEMENT_def)
  then show "\<forall>bs. \<forall>c \<in> set (ssid_display (ssid_from_bytes bs)). \<not> is_control c"
    by (auto simp: ssid_display_def split: Ssid.splits)
qed

theorem ssid_display_faithful_and_safe_witness:
  "ssid_display (ssid_from_bytes (utf8_bytes (lit ''Caf'' @ [233, 128247]))) = lit ''Caf'' @ [233, 128247]
    \<and> 10 \<notin> set (ssid_display (ssid_from_bytes [65, 10]))"
proof -
  have "ssid_display (ssid_from_bytes (utf8_bytes (lit ''Caf'' @ [233, 128247]))) = lit ''Caf'' @ [233, 128247]
    \<and> (\<forall>bs. \<forall>c \<in> set (ssid_display (ssid_from_bytes bs)). \<not> is_control c)"
    by (rule ssid_display_faithful_and_safe)
      (simp_all add: is_scalar_def is_control_def str_len_def utf8_bytes_def utf8_char_def SSID_MAX_LEN_def)
  moreover have "is_control 10" by (simp add: is_control_def)
  ultimately show ?thesis by blast
qed

text \<open>However the sightings of a device arrive, in order or not, the merged record carries the
  earliest and the latest of their times and their number, saturating at \<open>u32::MAX\<close>.\<close>

theorem merge_sighting_summary:
  "let r = foldl merge_sighting (observation_new src t payload) ts in
     ro_first_seen r = Min (set (t # ts)) \<and> ro_last_seen r = Max (set (t # ts))
     \<and> ro_observation_count r = min (Suc (length ts)) u32_max \<and> ro_payload r = payload"
  using foldl_merge_sighting(3) [of "observation_new src t payload" ts]
  by (simp add: Let_def foldl_merge_sighting(1,2,4) observation_new_def foldl_min foldl_max u32_max_def)

end
