(* ===== verification/Glob.thy ===== *)
theory Glob
  imports RhPrelude
begin

text \<open>
  The bounded glob matcher (\<open>radio/src/glob.rs\<close>), the only pattern language of the radio crate. The
  two-pointer scan with its rewind point is modelled index by index, and compared with the
  declarative meaning of a glob (\<open>glob_spec\<close>): \<open>*\<close> stands for any run of characters, \<open>?\<close> for one.
\<close>

definition STAR :: uchar where "STAR = 42"
definition QUEST :: uchar where "QUEST = 63"

section \<open>The scan\<close>

text \<open>One call is one evaluation of the \<open>while\<close> condition; \<open>star\<close> and \<open>resume\<close> are the rewind point.
  The trailing-star loop and the final comparison run when the input is used up.\<close>

definition trailing_stars :: "ustr \<Rightarrow> nat \<Rightarrow> bool" where
  "trailing_stars p pi \<longleftrightarrow> dropWhile (\<lambda>c. c = STAR) (drop pi p) = [] \<and> pi \<le> length p"

function glob_loop :: "ustr \<Rightarrow> ustr \<Rightarrow> nat \<Rightarrow> nat \<Rightarrow> nat option \<Rightarrow> nat \<Rightarrow> bool" where
  "glob_loop p s pi si star resume =
     (if si < length s then
        (if pi < length p \<and> (p ! pi = QUEST \<or> p ! pi = s ! si) then
           glob_loop p s (pi + 1) (si + 1) star resume
         else if pi < length p \<and> p ! pi = STAR then
           glob_loop p s (pi + 1) si (Some pi) si
         else case star of
             Some sp \<Rightarrow> glob_loop p s (sp + 1) (resume + 1) star (resume + 1)
           | None \<Rightarrow> False)
      else trailing_stars p pi)"
  by pat_completeness auto

text \<open>Termination: a new star is further right than the last one; a rewind moves the rewind point on
  through the input; a match moves the input on. States in which the rewind point is ahead of the
  scan occur in no run from the start and count as larger.\<close>

definition star_rank :: "ustr \<Rightarrow> nat \<Rightarrow> nat \<Rightarrow> nat option \<Rightarrow> nat \<Rightarrow> nat" where
  "star_rank p pi si star resume =
     (case star of
        None \<Rightarrow> length p + 1
      | Some sp \<Rightarrow> if sp < pi \<and> resume \<le> si then length p - sp else length p + 2)"

termination glob_loop
  by (relation "measures [\<lambda>(p, s, pi, si, star, resume). star_rank p pi si star resume,
        \<lambda>(p, s, pi, si, star, resume). length s - resume,
        \<lambda>(p, s, pi, si, star, resume). length s - si]")
    (auto simp: star_rank_def split: option.splits)

declare glob_loop.simps [simp del]

definition glob_match :: "ustr \<Rightarrow> ustr \<Rightarrow> bool" where
  "glob_match pattern input = glob_loop pattern input 0 0 None 0"

section \<open>What a glob means\<close>

fun glob_spec :: "ustr \<Rightarrow> ustr \<Rightarrow> bool" where
  "glob_spec [] s \<longleftrightarrow> s = []"
| "glob_spec (c # p) s \<longleftrightarrow>
     (if c = STAR then glob_spec p s \<or> (case s of [] \<Rightarrow> False | _ # t \<Rightarrow> glob_spec (c # p) t)
      else case s of [] \<Rightarrow> False | d # t \<Rightarrow> (c = QUEST \<or> c = d) \<and> glob_spec p t)"

declare glob_spec.simps(2) [simp del]

lemma glob_spec_plain [simp]:
  "c \<noteq> STAR \<Longrightarrow> glob_spec (c # p) [] = False"
  "c \<noteq> STAR \<Longrightarrow> glob_spec (c # p) (d # t) \<longleftrightarrow> (c = QUEST \<or> c = d) \<and> glob_spec p t"
  by (simp_all add: glob_spec.simps(2))

lemma glob_spec_star: "glob_spec (STAR # p) s \<longleftrightarrow> (\<exists>k \<le> length s. glob_spec p (drop k s))"
proof (induction s)
  case Nil
  then show ?case by (simp add: glob_spec.simps(2))
next
  case (Cons d t)
  have "(\<exists>k \<le> length (d # t). glob_spec p (drop k (d # t)))
      \<longleftrightarrow> glob_spec p (d # t) \<or> (\<exists>k \<le> length t. glob_spec p (drop k t))"
    by (metis (no_types, lifting) Suc_le_mono bot_nat_0.extremum drop0 drop_Suc_Cons length_Cons
        not0_implies_Suc)
  with Cons show ?case by (simp add: glob_spec.simps(2))
qed

lemma glob_spec_append_plain:
  "STAR \<notin> set q \<Longrightarrow> glob_spec (q @ p) s \<Longrightarrow> length q \<le> length s \<and> glob_spec p (drop (length q) s)"
proof (induction q arbitrary: s)
  case Nil
  then show ?case by simp
next
  case (Cons c q)
  then show ?case by (cases s) auto
qed

lemma glob_spec_Nil: "glob_spec p [] \<longleftrightarrow> dropWhile (\<lambda>c. c = STAR) p = []"
  by (induction p) (auto simp: glob_spec.simps(2))

text \<open>Matching the pattern from position \<open>pi\<close> against the input from position \<open>si\<close>.\<close>

definition at :: "ustr \<Rightarrow> ustr \<Rightarrow> nat \<Rightarrow> nat \<Rightarrow> bool" where
  "at p s pi si \<longleftrightarrow> glob_spec (drop pi p) (drop si s)"

lemma at_star:
  assumes "pi < length p" and "p ! pi = STAR" and "si \<le> length s"
  shows "at p s pi si \<longleftrightarrow> (\<exists>k. si \<le> k \<and> k \<le> length s \<and> at p s (pi + 1) k)"
proof -
  have "drop pi p = STAR # drop (pi + 1) p" using assms(1,2) by (metis Cons_nth_drop_Suc Suc_eq_plus1)
  then have "at p s pi si \<longleftrightarrow> (\<exists>k \<le> length s - si. glob_spec (drop (pi + 1) p) (drop (k + si) s))"
    by (simp add: at_def glob_spec_star)
  also have "\<dots> \<longleftrightarrow> (\<exists>k. si \<le> k \<and> k \<le> length s \<and> at p s (pi + 1) k)"
  proof
    assume "\<exists>k \<le> length s - si. glob_spec (drop (pi + 1) p) (drop (k + si) s)"
    then obtain k where "k \<le> length s - si" "glob_spec (drop (pi + 1) p) (drop (k + si) s)" by blast
    then show "\<exists>k. si \<le> k \<and> k \<le> length s \<and> at p s (pi + 1) k"
      using assms(3) unfolding at_def by (intro exI [of _ "k + si"]) simp
  next
    assume "\<exists>k. si \<le> k \<and> k \<le> length s \<and> at p s (pi + 1) k"
    then obtain k where "si \<le> k" "k \<le> length s" "at p s (pi + 1) k" by blast
    then show "\<exists>k \<le> length s - si. glob_spec (drop (pi + 1) p) (drop (k + si) s)"
      unfolding at_def by (intro exI [of _ "k - si"]) simp
  qed
  finally show ?thesis .
qed

lemma at_plain:
  assumes "pi < length p" and "p ! pi \<noteq> STAR" and "si < length s"
  shows "at p s pi si \<longleftrightarrow> (p ! pi = QUEST \<or> p ! pi = s ! si) \<and> at p s (pi + 1) (si + 1)"
proof -
  have "drop pi p = p ! pi # drop (pi + 1) p" "drop si s = s ! si # drop (si + 1) s"
    using assms by (metis Cons_nth_drop_Suc Suc_eq_plus1)+
  then show ?thesis using assms(2) by (simp add: at_def)
qed

lemma at_end: "pi \<le> length p \<Longrightarrow> length s \<le> si \<Longrightarrow> at p s pi si \<longleftrightarrow> trailing_stars p pi"
  by (simp add: at_def trailing_stars_def glob_spec_Nil)

lemma at_pattern_used: "length p \<le> pi \<Longrightarrow> si < length s \<Longrightarrow> \<not> at p s pi si"
  by (simp add: at_def)

text \<open>Matches that remain through the rewind point: the star absorbs more than it has so far.\<close>

definition later :: "ustr \<Rightarrow> ustr \<Rightarrow> nat option \<Rightarrow> nat \<Rightarrow> bool" where
  "later p s star resume \<longleftrightarrow>
     (case star of None \<Rightarrow> False
      | Some sp \<Rightarrow> \<exists>k. resume < k \<and> k \<le> length s \<and> at p s (sp + 1) k)"

lemma later_step:
  "resume < length s \<Longrightarrow>
    later p s (Some sp) resume \<longleftrightarrow> at p s (sp + 1) (resume + 1) \<or> later p s (Some sp) (resume + 1)"
proof -
  assume "resume < length s"
  moreover have "resume < k \<longleftrightarrow> k = resume + 1 \<or> resume + 1 < k" for k by arith
  ultimately have "(\<exists>k. resume < k \<and> k \<le> length s \<and> at p s (sp + 1) k)
      \<longleftrightarrow> at p s (sp + 1) (resume + 1) \<or> (\<exists>k. resume + 1 < k \<and> k \<le> length s \<and> at p s (sp + 1) k)"
    by (metis Suc_eq_plus1 Suc_leI)
  then show ?thesis by (simp add: later_def)
qed

section \<open>Soundness on every input\<close>

lemma star_reachable:
  "at p s (pi + 1) si \<or> later p s (Some pi) si \<Longrightarrow> pi < length p \<Longrightarrow> p ! pi = STAR \<Longrightarrow> si \<le> length s
    \<Longrightarrow> at p s pi si"
  using at_star [of pi p si s] by (auto simp: later_def intro: less_imp_le)

lemma glob_loop_sound:
  assumes "glob_loop p s pi si star resume" and "pi \<le> length p" and "si \<le> length s"
    and "\<forall>sp. star = Some sp \<longrightarrow> sp < length p \<and> p ! sp = STAR \<and> resume \<le> si"
  shows "at p s pi si \<or> later p s star resume"
  using assms
proof (induction p s pi si star resume rule: glob_loop.induct)
  case (1 p s pi si star resume)
  note loop = "1.prems"(1) [unfolded glob_loop.simps [of p s pi]]
  show ?case
  proof (cases "si < length s")
    case False
    with loop 1 show ?thesis by (simp add: at_end)
  next
    case si: True
    consider (match) "pi < length p" "p ! pi = QUEST \<or> p ! pi = s ! si"
      | (star) "\<not> (pi < length p \<and> (p ! pi = QUEST \<or> p ! pi = s ! si))" "pi < length p" "p ! pi = STAR"
      | (rewind) "\<not> (pi < length p \<and> (p ! pi = QUEST \<or> p ! pi = s ! si))" "\<not> (pi < length p \<and> p ! pi = STAR)"
      by blast
    then show ?thesis
    proof cases
      case match
      have "\<forall>sp. star = Some sp \<longrightarrow> sp < length p \<and> p ! sp = STAR \<and> resume \<le> si + 1"
        using "1.prems"(4) by auto
      with match have "at p s (pi + 1) (si + 1) \<or> later p s star resume"
        using "1.IH"(1) si loop by simp
      moreover have "at p s (pi + 1) (si + 1) \<Longrightarrow> at p s pi si"
        using match si by (cases "p ! pi = STAR") (auto simp: at_plain at_star intro: exI [of _ "si + 1"])
      ultimately show ?thesis by blast
    next
      case star
      then have "at p s (pi + 1) si \<or> later p s (Some pi) si" using 1 si loop by simp
      then show ?thesis using star si star_reachable by simp
    next
      case rewind
      with loop si obtain sp where sp: "star = Some sp" by (cases star) auto
      have go: "glob_loop p s (sp + 1) (resume + 1) (Some sp) (resume + 1)"
        using loop si rewind sp by auto
      have bounds: "sp + 1 \<le> length p" "resume + 1 \<le> length s" using "1.prems"(4) sp si by auto
      have "at p s (sp + 1) (resume + 1) \<or> later p s (Some sp) (resume + 1)"
        using "1.IH"(3) [OF si rewind sp] go bounds "1.prems"(4) sp by auto
      moreover have "resume < length s" using 1 sp si by auto
      ultimately show ?thesis by (simp add: sp later_step)
    qed
  qed
qed

section \<open>Completeness when the input has no star\<close>

text \<open>Since the last star every pattern character was an ordinary one and consumed one input
  character.\<close>

definition scan_inv :: "ustr \<Rightarrow> ustr \<Rightarrow> nat \<Rightarrow> nat \<Rightarrow> nat option \<Rightarrow> nat \<Rightarrow> bool" where
  "scan_inv p s pi si star resume \<longleftrightarrow> pi \<le> length p \<and> si \<le> length s \<and>
     (\<forall>sp. star = Some sp \<longrightarrow> sp < pi \<and> p ! sp = STAR \<and> resume \<le> si \<and> si - resume = pi - (sp + 1)
        \<and> STAR \<notin> set (drop (sp + 1) (take pi p)))"

text \<open>A match through the rewind point would have to pass the characters scanned since the star.\<close>

lemma later_segment:
  assumes inv: "scan_inv p s pi si star resume" and "later p s star resume"
  shows "\<exists>k. si < k \<and> k \<le> length s \<and> at p s pi k"
proof -
  from assms(2) obtain sp k where sp: "star = Some sp" and k: "resume < k" "k \<le> length s"
    and at: "at p s (sp + 1) k" by (auto simp: later_def split: option.splits)
  from inv sp have lt: "sp < pi" "pi \<le> length p" and len: "si - resume = pi - (sp + 1)" "resume \<le> si"
    and plain: "STAR \<notin> set (drop (sp + 1) (take pi p))" by (auto simp: scan_inv_def)
  let ?seg = "drop (sp + 1) (take pi p)"
  have "drop (sp + 1) p = ?seg @ drop pi p"
    using lt drop_append [of "sp + 1" "take pi p" "drop pi p"] by (simp add: min_def)
  with at have "glob_spec (?seg @ drop pi p) (drop k s)" by (simp add: at_def)
  from glob_spec_append_plain [OF plain this]
  have fits: "length ?seg \<le> length s - k" and rest: "glob_spec (drop pi p) (drop (length ?seg + k) s)"
    by simp_all
  have seg: "length ?seg = si - resume" using lt len by simp
  with fits rest k len show ?thesis
    by (intro exI [of _ "length ?seg + k"]) (auto simp: at_def)
qed

lemma scan_inv_match:
  assumes "scan_inv p s pi si star resume" and "pi < length p" and "p ! pi \<noteq> STAR" and "si < length s"
  shows "scan_inv p s (pi + 1) (si + 1) star resume"
proof -
  have split: "take (pi + 1) p = take pi p @ [p ! pi]" using assms(2) by (simp add: take_Suc_conv_app_nth)
  have "drop (sp + 1) (take (pi + 1) p) = drop (sp + 1) (take pi p) @ [p ! pi]" if "sp < pi" for sp
    unfolding split using that assms(2) by (simp add: min_def)
  then show ?thesis using assms unfolding scan_inv_def by fastforce
qed

lemma glob_loop_complete:
  assumes "at p s pi si \<or> later p s star resume" and "scan_inv p s pi si star resume"
    and "STAR \<notin> set s"
  shows "glob_loop p s pi si star resume"
  using assms
proof (induction p s pi si star resume rule: glob_loop.induct)
  case (1 p s pi si star resume)
  note unfold = glob_loop.simps [of p s pi si star resume]
  have bounds: "pi \<le> length p" "si \<le> length s" using "1.prems"(2) by (simp_all add: scan_inv_def)
  show ?case
  proof (cases "si < length s")
    case False
    then have "\<not> later p s star resume" using later_segment [OF "1.prems"(2)] bounds by fastforce
    with "1.prems"(1) False bounds show ?thesis unfolding unfold by (simp add: at_end)
  next
    case si: True
    then have noStar: "s ! si \<noteq> STAR" using "1.prems"(3) nth_mem by metis
    consider (match) "pi < length p" "p ! pi = QUEST \<or> p ! pi = s ! si"
      | (star) "\<not> (pi < length p \<and> (p ! pi = QUEST \<or> p ! pi = s ! si))" "pi < length p" "p ! pi = STAR"
      | (rewind) "\<not> (pi < length p \<and> (p ! pi = QUEST \<or> p ! pi = s ! si))" "\<not> (pi < length p \<and> p ! pi = STAR)"
      by blast
    then show ?thesis
    proof cases
      case match
      with noStar have plain: "p ! pi \<noteq> STAR" by (auto simp: STAR_def QUEST_def)
      with match si "1.prems"(1) have "at p s (pi + 1) (si + 1) \<or> later p s star resume"
        by (auto simp: at_plain)
      moreover have "scan_inv p s (pi + 1) (si + 1) star resume"
        using scan_inv_match [OF "1.prems"(2)] match plain si by blast
      ultimately have "glob_loop p s (pi + 1) (si + 1) star resume"
        using "1.IH"(1) [OF si] match "1.prems"(3) by blast
      with match si show ?thesis by (simp add: unfold)
    next
      case star
      have "\<exists>k. si \<le> k \<and> k \<le> length s \<and> at p s pi k"
        using "1.prems"(1) later_segment [OF "1.prems"(2)] bounds by (auto intro: less_imp_le)
      then have "at p s pi si" using star bounds by (fastforce simp: at_star)
      then have "at p s (pi + 1) si \<or> later p s (Some pi) si"
        using star bounds by (auto simp: at_star later_def le_less)
      moreover have "scan_inv p s (pi + 1) si (Some pi) si"
        using star bounds by (simp add: scan_inv_def)
      ultimately have "glob_loop p s (pi + 1) si (Some pi) si" using 1 star si by simp
      with star si show ?thesis by (simp add: unfold)
    next
      case rewind
      then have "\<not> at p s pi si" using si bounds by (cases "pi < length p") (auto simp: at_plain at_pattern_used)
      with "1.prems"(1) have l: "later p s star resume" by blast
      then obtain sp where sp: "star = Some sp" by (auto simp: later_def split: option.splits)
      with "1.prems"(2) si have r: "resume < length s" "sp < length p" "p ! sp = STAR"
        by (auto simp: scan_inv_def)
      with l have "at p s (sp + 1) (resume + 1) \<or> later p s (Some sp) (resume + 1)"
        by (simp add: sp later_step)
      moreover have "scan_inv p s (sp + 1) (resume + 1) (Some sp) (resume + 1)"
        using r by (simp add: scan_inv_def)
      ultimately have "glob_loop p s (sp + 1) (resume + 1) (Some sp) (resume + 1)"
        using 1 rewind si sp by simp
      with rewind si sp show ?thesis unfolding unfold by auto
    qed
  qed
qed

section \<open>Properties\<close>

text \<open>C40: On inputs that do not themselves contain the character \<open>*\<close>, the two-pointer scan decides
  exactly the declarative meaning of the pattern: rewinding only to the most recent star loses no
  match.\<close>

theorem glob_match_correct:
  assumes "STAR \<notin> set input"
  shows "glob_match pattern input \<longleftrightarrow> glob_spec pattern input"
proof
  assume "glob_match pattern input"
  then have "at pattern input 0 0 \<or> later pattern input None 0"
    unfolding glob_match_def by (rule glob_loop_sound) simp_all
  then show "glob_spec pattern input" by (simp add: at_def later_def)
next
  assume "glob_spec pattern input"
  then show "glob_match pattern input"
    unfolding glob_match_def using assms
    by (intro glob_loop_complete) (simp_all add: at_def scan_inv_def)
qed

theorem glob_match_correct_witness:
  "glob_match (lit ''a*b?c*'') (lit ''axxbyycabzc'') \<longleftrightarrow> glob_spec (lit ''a*b?c*'') (lit ''axxbyycabzc'')"
  by (rule glob_match_correct) (simp add: STAR_def)

text \<open>On every input, stars included, a reported match is a real one: the matcher never fires for a
  name its pattern does not cover.\<close>

theorem glob_match_sound:
  assumes "glob_match pattern input"
  shows "glob_spec pattern input"
proof -
  have "at pattern input 0 0 \<or> later pattern input None 0"
    using assms unfolding glob_match_def by (rule glob_loop_sound) simp_all
  then show ?thesis by (simp add: at_def later_def)
qed

theorem glob_match_sound_witness: "glob_spec (lit ''*cam*'') (lit ''my*cam'')"
  by (rule glob_match_sound) code_simp

text \<open>A name that itself begins with a star defeats a leading star of the pattern: the scan compares
  the two characters before it asks whether the pattern character is a wildcard, so the wildcard is
  consumed as a literal and no rewind point is set. The pattern \<open>*\<close> alone, which covers every name,
  does not match any longer name starting with a star.\<close>

theorem glob_leading_star_missed:
  "glob_spec [STAR] (STAR # c # cs) \<and> \<not> glob_match [STAR] (STAR # c # cs)"
proof
  show "glob_spec [STAR] (STAR # c # cs)"
    by (auto simp: glob_spec_star intro: exI [of _ "length (STAR # c # cs)"])
  have "\<not> glob_loop [STAR] (STAR # c # cs) 1 1 None 0"
    by (simp add: glob_loop.simps [of "[STAR]" "STAR # c # cs" "Suc 0"])
  then show "\<not> glob_match [STAR] (STAR # c # cs)"
    by (simp add: glob_match_def glob_loop.simps [of "[STAR]" "STAR # c # cs" 0 0])
qed

end
