(* ===== verification/Signature.thy ===== *)
theory Signature
  imports Observation Glob
begin

text \<open>
  Surveillance signatures (\<open>radio/src/signature.rs\<close>): the rule language and its matcher, the validation
  of a pack, and the log that deduplicates detections while letting a stronger one through. The
  human-readable reasons of a detection are kept as structured values (\<open>Reason\<close>), one constructor per
  \<open>format!\<close> of the source with the values it prints; parsing a pack from JSON text is a parameter.
\<close>

section \<open>Confidence and severity\<close>

definition SCHEMA_VERSION :: nat where "SCHEMA_VERSION = 1"

datatype Confidence = Info | Low | Medium | High

fun confidence_rank :: "Confidence \<Rightarrow> nat" where
  "confidence_rank Info = 0"
| "confidence_rank Low = 1"
| "confidence_rank Medium = 2"
| "confidence_rank High = 3"

lemma confidence_rank_inject [simp]: "confidence_rank a = confidence_rank b \<longleftrightarrow> a = b"
  by (cases a; cases b) simp_all

text \<open>The derived \<open>Ord\<close>: declaration order.\<close>

instantiation Confidence :: linorder
begin
definition less_eq_Confidence :: "Confidence \<Rightarrow> Confidence \<Rightarrow> bool" where
  "a \<le> b \<longleftrightarrow> confidence_rank a \<le> confidence_rank b"
definition less_Confidence :: "Confidence \<Rightarrow> Confidence \<Rightarrow> bool" where
  "a < b \<longleftrightarrow> confidence_rank a < confidence_rank b"
instance
  by standard (auto simp: less_eq_Confidence_def less_Confidence_def)
end

fun confidence_label :: "Confidence \<Rightarrow> ustr" where
  "confidence_label Info = lit ''INFO''"
| "confidence_label Low = lit ''LOW''"
| "confidence_label Medium = lit ''MEDIUM''"
| "confidence_label High = lit ''HIGH''"

datatype Severity = Informational | SevLow | SevMedium | SevHigh

section \<open>Rules\<close>

datatype MacField = AnyField | Bssid | Transmitter | Receiver | Addr3

datatype MatchCondition =
    MacExact MacField MacAddr
  | MacPrefixCond MacField MacPrefix bool
  | SsidExact ustr
  | SsidContains ustr
  | SsidGlob ustr
  | SsidWildcard
  | FrameType FrameKind
  | InformationElementCond u8 "bytes option"
  | VendorOui MacPrefix
  | IeIdSequence bytes
  | BleCompanyId u16
  | BleServiceUuid ustr
  | BleNameContains ustr

record Signature =
  sig_id :: ustr
  sig_vendor :: ustr
  sig_product :: "ustr option"
  sig_technology :: RadioTech
  sig_conditions :: "MatchCondition list"
  sig_confidence :: Confidence
  sig_severity :: Severity
  sig_description :: ustr
  sig_evidence :: "ustr list"
  sig_last_verified :: "ustr option"
  sig_notes :: "ustr option"
  sig_enabled :: bool

text \<open>The closure of \<open>reachable_via_bss_scan\<close>: conditions a BSS scan can never satisfy.\<close>

fun needs_monitor_mode :: "MatchCondition \<Rightarrow> bool" where
  "needs_monitor_mode (FrameType frame) \<longleftrightarrow> frame \<notin> {Beacon, ProbeResponse, BeaconOrProbeResponse}"
| "needs_monitor_mode (IeIdSequence _) \<longleftrightarrow> True"
| "needs_monitor_mode (InformationElementCond _ prefix) \<longleftrightarrow> prefix \<noteq> None"
| "needs_monitor_mode (VendorOui _) \<longleftrightarrow> True"
| "needs_monitor_mode (BleCompanyId _) \<longleftrightarrow> True"
| "needs_monitor_mode (BleServiceUuid _) \<longleftrightarrow> True"
| "needs_monitor_mode (BleNameContains _) \<longleftrightarrow> True"
| "needs_monitor_mode _ \<longleftrightarrow> False"

definition reachable_via_bss_scan :: "Signature \<Rightarrow> bool" where
  "reachable_via_bss_scan s \<longleftrightarrow> \<not> list_ex needs_monitor_mode (sig_conditions s)"

section \<open>Matching\<close>

datatype Reason =
    BleAddressIs MacAddr
  | BleAddressMatches MacAddr MacPrefix
  | BleCompanyIdIs u16
  | BleServiceUuidIs ustr
  | BleNameHas ustr
  | FieldIs MacField MacAddr
  | FieldMatches MacField MacAddr MacPrefix
  | SsidIs ustr
  | SsidHas ustr
  | SsidMatchesPattern ustr
  | WildcardSsidObserved
  | FrameTypeIs FrameKind
  | ElementPresent u8
  | ElementStartsWith u8 bytes
  | VendorElement "u8 \<times> u8 \<times> u8"
  | ElementFingerprint bytes

text \<open>\<open>bool::then\<close>, and \<open>?\<close> on an option.\<close>

definition then_some :: "bool \<Rightarrow> 'a \<Rightarrow> 'a option" where
  "then_some b x = (if b then Some x else None)"

lemma then_some_eq_Some [simp]: "then_some b x = Some y \<longleftrightarrow> b \<and> y = x"
  by (auto simp: then_some_def)

fun find_map :: "('a \<Rightarrow> 'b option) \<Rightarrow> 'a list \<Rightarrow> 'b option" where
  "find_map f [] = None"
| "find_map f (x # xs) = (case f x of Some y \<Rightarrow> Some y | None \<Rightarrow> find_map f xs)"

definition flatten :: "'a option list \<Rightarrow> 'a list" where
  "flatten os = concat (map (\<lambda>x. case x of Some y \<Rightarrow> [y] | None \<Rightarrow> []) os)"

fun addresses_for :: "MacField \<Rightarrow> WifiObservation \<Rightarrow> MacAddr list" where
  "addresses_for AnyField w = flatten [w_transmitter w, w_bssid w, w_addr3 w, w_receiver w]"
| "addresses_for Bssid w = flatten [w_bssid w]"
| "addresses_for Transmitter w = flatten [w_transmitter w]"
| "addresses_for Receiver w = flatten [w_receiver w]"
| "addresses_for Addr3 w = flatten [w_addr3 w]"

fun match_wifi :: "MatchCondition \<Rightarrow> WifiObservation \<Rightarrow> Reason option" where
  "match_wifi (MacExact fld mac) w =
     (let candidates = addresses_for fld w in
      then_some (list_ex (\<lambda>a. a = mac) candidates) (FieldIs fld mac))"
| "match_wifi (MacPrefixCond fld prefix allow_locally_administered) w =
     (let candidates = addresses_for fld w in
      case List.find (\<lambda>a. \<not> is_multicast a
                       \<and> (allow_locally_administered \<or> \<not> is_locally_administered a)
                       \<and> prefix_matches prefix a) candidates of
        None \<Rightarrow> None
      | Some hit \<Rightarrow> Some (FieldMatches fld hit prefix))"
| "match_wifi (SsidExact ssid) w =
     (case w_ssid w of None \<Rightarrow> None
      | Some observed \<Rightarrow> then_some (ssid_display observed = ssid) (SsidIs ssid))"
| "match_wifi (SsidContains substring) w =
     (case w_ssid w of None \<Rightarrow> None
      | Some observed \<Rightarrow> then_some (contains_sub (ssid_display observed) substring) (SsidHas substring))"
| "match_wifi (SsidGlob pattern) w =
     (case w_ssid w of None \<Rightarrow> None
      | Some observed \<Rightarrow>
          then_some (glob_match pattern (ssid_display observed)) (SsidMatchesPattern pattern))"
| "match_wifi SsidWildcard w =
     (case w_ssid w of None \<Rightarrow> None
      | Some observed \<Rightarrow> then_some (is_wildcard observed) WildcardSsidObserved)"
| "match_wifi (FrameType frame) w =
     (case w_frame w of None \<Rightarrow> None | Some f \<Rightarrow> then_some (f = frame) (FrameTypeIs frame))"
| "match_wifi (InformationElementCond i prefix) w =
     (case List.find (\<lambda>ie. ie_id ie = i) (w_information_elements w) of
        None \<Rightarrow> None
      | Some element \<Rightarrow>
          (case prefix of
             None \<Rightarrow> Some (ElementPresent i)
           | Some bs \<Rightarrow> then_some (starts_with bs (ie_data element)) (ElementStartsWith i bs)))"
| "match_wifi (VendorOui oui) w =
     (case find_map (\<lambda>ie. case vendor_oui ie of None \<Rightarrow> None
                      | Some (a, b, c) \<Rightarrow>
                          then_some (prefix_matches oui (MacAddr a b c 0 0 0)) (a, b, c))
             (w_information_elements w) of
        None \<Rightarrow> None
      | Some hit \<Rightarrow> Some (VendorElement hit))"
| "match_wifi (IeIdSequence ids) w =
     (let observed = map ie_id (w_information_elements w) in
      then_some (observed = ids) (ElementFingerprint ids))"
| "match_wifi (BleCompanyId _) w = None"
| "match_wifi (BleServiceUuid _) w = None"
| "match_wifi (BleNameContains _) w = None"

fun match_ble :: "MatchCondition \<Rightarrow> BleObservation \<Rightarrow> Reason option" where
  "match_ble (MacExact _ mac) b =
     (case b_address b of None \<Rightarrow> None | Some addr \<Rightarrow> then_some (addr = mac) (BleAddressIs mac))"
| "match_ble (MacPrefixCond _ prefix allow_locally_administered) b =
     (case b_address b of None \<Rightarrow> None
      | Some addr \<Rightarrow>
          if b_address_is_random b then None
          else if is_multicast addr \<or> (is_locally_administered addr \<and> \<not> allow_locally_administered)
          then None
          else then_some (prefix_matches prefix addr) (BleAddressMatches addr prefix))"
| "match_ble (BleCompanyId i) b =
     (case b_company_id b of None \<Rightarrow> None | Some c \<Rightarrow> then_some (c = i) (BleCompanyIdIs i))"
| "match_ble (BleServiceUuid uuid) b =
     then_some (list_ex (\<lambda>u. eq_ignore_ascii_case u uuid) (b_service_uuids b)) (BleServiceUuidIs uuid)"
| "match_ble (BleNameContains substring) b =
     (case b_local_name b of None \<Rightarrow> None
      | Some name \<Rightarrow> then_some (contains_sub name substring) (BleNameHas substring))"
| "match_ble _ b = None"

fun match_one :: "MatchCondition \<Rightarrow> ObservationPayload \<Rightarrow> Reason option" where
  "match_one condition (WifiPayload w) = match_wifi condition w"
| "match_one condition (BlePayload b) = match_ble condition b"
| "match_one condition (RemoteIdPayload _) = None"

fun match_all :: "MatchCondition list \<Rightarrow> ObservationPayload \<Rightarrow> Reason list option" where
  "match_all [] payload = Some []"
| "match_all (condition # conditions) payload =
     (case match_one condition payload of
        None \<Rightarrow> None
      | Some reason \<Rightarrow>
          (case match_all conditions payload of
             None \<Rightarrow> None
           | Some reasons \<Rightarrow> Some (reason # reasons)))"

section \<open>Packs\<close>

record SignatureDb =
  schema_version :: nat
  pack_version :: "ustr option"
  signatures :: "Signature list"

definition db_empty :: SignatureDb where
  "db_empty = \<lparr>schema_version = SCHEMA_VERSION, pack_version = None, signatures = []\<rparr>"

datatype 'pe SignatureError =
    UnsupportedSchema nat nat
  | NoConditions ustr
  | DuplicateId ustr
  | EmptyId
  | Parse 'pe

fun validate_loop :: "ustr list \<Rightarrow> Signature list \<Rightarrow> 'pe SignatureError + unit" where
  "validate_loop seen [] = Inr ()"
| "validate_loop seen (s # sigs) =
     (if trim (sig_id s) = [] then Inl EmptyId
      else if sig_conditions s = [] then Inl (NoConditions (sig_id s))
      else if sig_id s \<in> set seen then Inl (DuplicateId (sig_id s))
      else validate_loop (seen @ [sig_id s]) sigs)"

definition db_validate :: "SignatureDb \<Rightarrow> 'pe SignatureError + unit" where
  "db_validate db = validate_loop [] (signatures db)"

definition db_from_json :: "(ustr \<Rightarrow> 'pe + SignatureDb) \<Rightarrow> ustr \<Rightarrow> 'pe SignatureError + SignatureDb" where
  "db_from_json from_str input =
     (case from_str input of
        Inl e \<Rightarrow> Inl (Parse e)
      | Inr db \<Rightarrow>
          if schema_version db \<noteq> SCHEMA_VERSION
          then Inl (UnsupportedSchema (schema_version db) SCHEMA_VERSION)
          else and_then (db_validate db) (\<lambda>_. Inr db))"

record Detection =
  det_signature_id :: ustr
  det_vendor :: ustr
  det_product :: "ustr option"
  det_technology :: RadioTech
  det_confidence :: Confidence
  det_severity :: Severity
  det_matched_fields :: "Reason list"

fun match_loop :: "Signature list \<Rightarrow> ObservationPayload \<Rightarrow> Detection list" where
  "match_loop [] payload = []"
| "match_loop (s # sigs) payload =
     (if \<not> sig_enabled s then match_loop sigs payload
      else if sig_technology s \<noteq> payload_tech payload then match_loop sigs payload
      else case match_all (sig_conditions s) payload of
        None \<Rightarrow> match_loop sigs payload
      | Some reasons \<Rightarrow>
          \<lparr>det_signature_id = sig_id s, det_vendor = sig_vendor s, det_product = sig_product s,
           det_technology = sig_technology s, det_confidence = sig_confidence s,
           det_severity = sig_severity s, det_matched_fields = reasons\<rparr> # match_loop sigs payload)"

definition match_observation :: "SignatureDb \<Rightarrow> ObservationPayload \<Rightarrow> Detection list" where
  "match_observation db payload = match_loop (signatures db) payload"

section \<open>The detection log\<close>

record LoggedDetection =
  ld_key :: ustr
  ld_signature_id :: ustr
  ld_confidence :: Confidence

type_synonym DetectionLog = "LoggedDetection list"

datatype LogOutcome = New | Escalated Confidence | Suppressed

definition log_new :: DetectionLog where "log_new = []"

definition same_detection :: "ustr \<Rightarrow> Detection \<Rightarrow> LoggedDetection \<Rightarrow> bool" where
  "same_detection device_key d e \<longleftrightarrow> ld_key e = device_key \<and> ld_signature_id e = det_signature_id d"

definition log_observe :: "DetectionLog \<Rightarrow> ustr \<Rightarrow> Detection \<Rightarrow> DetectionLog \<times> LogOutcome" where
  "log_observe log device_key d =
     (case List.find (same_detection device_key d) log of
        Some existing \<Rightarrow>
          if det_confidence d > ld_confidence existing then
            (update_first (same_detection device_key d)
               (\<lambda>e. e\<lparr>ld_confidence := det_confidence d\<rparr>) log,
             Escalated (ld_confidence existing))
          else (log, Suppressed)
      | None \<Rightarrow>
          (log @ [\<lparr>ld_key = device_key, ld_signature_id = det_signature_id d,
                    ld_confidence = det_confidence d\<rparr>], New))"

text \<open>\<open>Iterator::max\<close> on an iterator of confidences.\<close>

definition iter_max :: "'a :: linorder list \<Rightarrow> 'a option" where
  "iter_max xs = (case xs of [] \<Rightarrow> None | x # ys \<Rightarrow> Some (foldl max x ys))"

definition best_confidence :: "DetectionLog \<Rightarrow> ustr \<Rightarrow> Confidence option" where
  "best_confidence log device_key =
     iter_max (map ld_confidence (filter (\<lambda>e. ld_key e = device_key) log))"

definition log_len :: "DetectionLog \<Rightarrow> nat" where "log_len log = length log"
definition log_is_empty :: "DetectionLog \<Rightarrow> bool" where "log_is_empty log \<longleftrightarrow> log = []"

section \<open>Facts about the matcher\<close>

lemma find_map_None: "(\<And>x. x \<in> set xs \<Longrightarrow> f x = None) \<Longrightarrow> find_map f xs = None"
  by (induction xs) simp_all

lemma find_Some_mem: "List.find p xs = Some x \<Longrightarrow> x \<in> set xs \<and> p x"
  by (auto simp: find_Some_iff)

lemma mem_flatten [simp]: "x \<in> set (flatten os) \<longleftrightarrow> Some x \<in> set os"
  by (auto simp: flatten_def split: option.splits)

lemma match_all_eq_Some:
  "match_all cs payload = Some rs \<longleftrightarrow> list_all2 (\<lambda>c r. match_one c payload = Some r) cs rs"
proof (induction cs arbitrary: rs)
  case Nil
  then show ?case by auto
next
  case (Cons c cs)
  show ?case by (cases rs) (auto simp: Cons.IH [symmetric] split: option.splits)
qed

lemma match_all_mem:
  "match_all cs payload = Some rs \<Longrightarrow> c \<in> set cs \<Longrightarrow> \<exists>r. match_one c payload = Some r"
  by (induction cs arbitrary: rs) (auto split: option.splits)

lemma match_loop_mem:
  "d \<in> set (match_loop sigs payload) \<longleftrightarrow>
    (\<exists>s \<in> set sigs. sig_enabled s \<and> sig_technology s = payload_tech payload
      \<and> match_all (sig_conditions s) payload = Some (det_matched_fields d)
      \<and> d = \<lparr>det_signature_id = sig_id s, det_vendor = sig_vendor s, det_product = sig_product s,
           det_technology = sig_technology s, det_confidence = sig_confidence s,
           det_severity = sig_severity s, det_matched_fields = det_matched_fields d\<rparr>)"
  by (induction sigs) (auto split: option.splits)

lemma validate_loop_ok:
  "validate_loop seen sigs = Inr () \<longleftrightarrow>
     (\<forall>s \<in> set sigs. trim (sig_id s) \<noteq> [] \<and> sig_conditions s \<noteq> [] \<and> sig_id s \<notin> set seen)
     \<and> distinct (map sig_id sigs)"
proof (induction sigs arbitrary: seen)
  case Nil
  then show ?case by simp
next
  case (Cons s sigs)
  then show ?case by auto (metis image_eqI)
qed

text \<open>An address that a vendor prefix accepted.\<close>

definition prefix_evidence :: "MacPrefix \<Rightarrow> bool \<Rightarrow> MacAddr \<Rightarrow> bool" where
  "prefix_evidence prefix allow a \<longleftrightarrow>
     \<not> is_multicast a \<and> (allow \<or> is_globally_unique a) \<and> prefix_matches prefix a"

lemma match_wifi_prefix:
  "match_wifi (MacPrefixCond fld prefix allow) w = Some r \<Longrightarrow>
    \<exists>a \<in> set (addresses_for fld w). prefix_evidence prefix allow a"
  by (auto simp: prefix_evidence_def is_globally_unique_def dest!: find_Some_mem split: option.splits)

lemma match_ble_prefix:
  "match_ble (MacPrefixCond fld prefix allow) b = Some r \<Longrightarrow>
    \<exists>a. b_address b = Some a \<and> \<not> b_address_is_random b \<and> prefix_evidence prefix allow a"
  by (auto simp: prefix_evidence_def is_globally_unique_def split: option.splits if_splits)

section \<open>The log as an escalation map\<close>

lemma iter_max_simps [simp]:
  "iter_max [] = None"
  "iter_max (x # xs) = Some (case iter_max xs of None \<Rightarrow> x | Some m \<Rightarrow> max x m)"
proof -
  show "iter_max [] = None" by (simp add: iter_max_def)
  have "foldl max (max x y) ys = max x (foldl max y ys)" for y ys
    by (induction ys arbitrary: x y) (simp_all add: max.assoc)
  then show "iter_max (x # xs) = Some (case iter_max xs of None \<Rightarrow> x | Some m \<Rightarrow> max x m)"
    by (cases xs) (simp_all add: iter_max_def)
qed

definition raise_to :: "'a :: linorder option \<Rightarrow> 'a \<Rightarrow> 'a" where
  "raise_to b c = (case b of None \<Rightarrow> c | Some x \<Rightarrow> max x c)"

lemma iter_max_snoc: "iter_max (xs @ [c]) = Some (raise_to (iter_max xs) c)"
  by (induction xs) (auto simp: raise_to_def max.assoc split: option.splits)

lemma iter_max_bound: "x \<in> set xs \<Longrightarrow> \<exists>m. iter_max xs = Some m \<and> x \<le> m"
  by (induction xs) (fastforce simp: le_max_iff_disj split: option.splits)+

text \<open>The events a run of a log surfaces.\<close>

fun surfaced :: "('l \<Rightarrow> 'e \<Rightarrow> 'l \<times> LogOutcome) \<Rightarrow> 'l \<Rightarrow> 'e list \<Rightarrow> 'e list" where
  "surfaced obs l [] = []"
| "surfaced obs l (e # es) =
     (if snd (obs l e) = Suppressed then [] else [e]) @ surfaced obs (fst (obs l e)) es"

text \<open>What a client may rely on: per key, the recorded level is the highest seen, and an event is
  surfaced exactly when it is the first for its key or beats the recorded level.\<close>

locale escalation_log =
  fixes obs :: "'l \<Rightarrow> 'e \<Rightarrow> 'l \<times> LogOutcome"
    and level :: "'l \<Rightarrow> 'k \<Rightarrow> Confidence option"
    and key :: "'e \<Rightarrow> 'k"
    and conf :: "'e \<Rightarrow> Confidence"
  assumes level_obs:
      "level (fst (obs l e)) k = (if k = key e then Some (raise_to (level l k) (conf e)) else level l k)"
    and outcome:
      "snd (obs l e) = (case level l (key e) of None \<Rightarrow> New
         | Some b \<Rightarrow> if b < conf e then Escalated b else Suppressed)"
begin

lemma surfaced_above:
  "e \<in> set (surfaced obs l es) \<Longrightarrow> key e = k \<Longrightarrow> level l k = Some b \<Longrightarrow> b < conf e"
proof (induction es arbitrary: l b)
  case Nil
  then show ?case by simp
next
  case (Cons x es)
  show ?case
  proof (cases "e \<in> set (surfaced obs (fst (obs l x)) es)")
    case True
    have "\<exists>b'. level (fst (obs l x)) k = Some b' \<and> b \<le> b'"
      using Cons.prems(3) by (auto simp: level_obs raise_to_def)
    with True Cons.IH Cons.prems(2) show ?thesis by fastforce
  next
    case False
    with Cons.prems(1) have "e = x" "snd (obs l x) \<noteq> Suppressed" by (auto split: if_splits)
    with Cons.prems(2,3) show ?thesis by (auto simp: outcome split: if_splits)
  qed
qed

lemma surfaced_increasing: "sorted_wrt (<) (map conf (filter (\<lambda>e. key e = k) (surfaced obs l es)))"
proof (induction es arbitrary: l)
  case Nil
  then show ?case by simp
next
  case (Cons x es)
  have "conf x < conf e" if "key x = k" "e \<in> set (surfaced obs (fst (obs l x)) es)" "key e = k" "snd (obs l x) \<noteq> Suppressed" for e
  proof -
    have "level (fst (obs l x)) k = Some (conf x)"
      using that(1,4) by (auto simp: level_obs outcome raise_to_def max_def split: option.splits if_splits)
    then show ?thesis using surfaced_above that(2,3) by blast
  qed
  with Cons show ?case by auto
qed

lemma surfaced_reaches:
  "e \<in> set es \<Longrightarrow> key e = k \<Longrightarrow>
    (\<exists>b. level l k = Some b \<and> conf e \<le> b) \<or> (\<exists>e' \<in> set (surfaced obs l es). key e' = k \<and> conf e \<le> conf e')"
proof (induction es arbitrary: l)
  case Nil
  then show ?case by simp
next
  case (Cons x es)
  show ?case
  proof (cases "e = x")
    case True
    then show ?thesis using Cons.prems(2) by (cases "level l k") (auto simp: outcome not_less)
  next
    case False
    let ?l = "fst (obs l x)"
    from False Cons.prems have "(\<exists>b. level ?l k = Some b \<and> conf e \<le> b)
        \<or> (\<exists>e' \<in> set (surfaced obs ?l es). key e' = k \<and> conf e \<le> conf e')"
      using Cons.IH by simp
    then show ?thesis
    proof
      assume "\<exists>b. level ?l k = Some b \<and> conf e \<le> b"
      then show ?thesis
        by (cases "level l k") (auto simp: level_obs outcome raise_to_def max_def split: if_splits)
    qed auto
  qed
qed

end

type_synonym log_event = "ustr \<times> Detection"

definition event_key :: "log_event \<Rightarrow> ustr \<times> ustr" where
  "event_key e = (fst e, det_signature_id (snd e))"

definition event_conf :: "log_event \<Rightarrow> Confidence" where
  "event_conf e = det_confidence (snd e)"

definition entry_key :: "LoggedDetection \<Rightarrow> ustr \<times> ustr" where
  "entry_key e = (ld_key e, ld_signature_id e)"

definition log_level :: "DetectionLog \<Rightarrow> ustr \<times> ustr \<Rightarrow> Confidence option" where
  "log_level log k = map_option ld_confidence (List.find (\<lambda>e. entry_key e = k) log)"

definition log_step :: "DetectionLog \<Rightarrow> log_event \<Rightarrow> DetectionLog \<times> LogOutcome" where
  "log_step log e = log_observe log (fst e) (snd e)"

lemma same_detection_key: "same_detection (fst e) (snd e) = (\<lambda>x. entry_key x = event_key e)"
  by (auto simp: same_detection_def entry_key_def event_key_def)

lemma find_append:
  "List.find p (xs @ ys) = (case List.find p xs of None \<Rightarrow> List.find p ys | Some x \<Rightarrow> Some x)"
  by (induction xs) auto

lemma entry_key_update [simp]: "entry_key (e\<lparr>ld_confidence := c\<rparr>) = entry_key e"
  by (simp add: entry_key_def)

lemma log_level_update:
  "log_level (update_first (\<lambda>x. entry_key x = k') (\<lambda>x. x\<lparr>ld_confidence := c\<rparr>) log) k =
     (if k = k' \<and> log_level log k \<noteq> None then Some c else log_level log k)"
  by (induction log) (auto simp: log_level_def)

lemma log_step_cases:
  "log_step log e =
     (case log_level log (event_key e) of
        None \<Rightarrow> (log @ [\<lparr>ld_key = fst e, ld_signature_id = det_signature_id (snd e),
                          ld_confidence = event_conf e\<rparr>], New)
      | Some b \<Rightarrow> if b < event_conf e then
          (update_first (\<lambda>x. entry_key x = event_key e) (\<lambda>x. x\<lparr>ld_confidence := event_conf e\<rparr>) log, Escalated b)
        else (log, Suppressed))"
  unfolding log_step_def log_observe_def log_level_def same_detection_key
  by (cases "List.find (\<lambda>x. entry_key x = event_key e) log") (simp_all add: event_conf_def)

lemma log_level_append:
  "log_level (log @ [x]) k =
     (case log_level log k of Some b \<Rightarrow> Some b
      | None \<Rightarrow> if entry_key x = k then Some (ld_confidence x) else None)"
  by (auto simp: log_level_def find_append split: option.splits)

lemma log_level_observe:
  "log_level (fst (log_step log e)) k =
    (if k = event_key e then Some (raise_to (log_level log k) (event_conf e)) else log_level log k)"
proof (cases "log_level log (event_key e)")
  case None
  then show ?thesis
    by (auto simp: log_step_cases log_level_append raise_to_def entry_key_def event_key_def split: option.splits)
next
  case (Some b)
  then show ?thesis by (auto simp: log_step_cases log_level_update raise_to_def max_def)
qed

lemma log_outcome:
  "snd (log_step log e) = (case log_level log (event_key e) of None \<Rightarrow> New
     | Some b \<Rightarrow> if b < event_conf e then Escalated b else Suppressed)"
  by (simp add: log_step_cases split: option.splits)

interpretation dlog: escalation_log log_step log_level event_key event_conf
  by unfold_locales (simp_all add: log_level_observe log_outcome)

lemma sorted_confidences_short: "sorted_wrt (<) (cs :: Confidence list) \<Longrightarrow> length cs \<le> 4"
proof -
  assume "sorted_wrt (<) cs"
  then have "distinct cs" by (induction cs) auto
  moreover have "set cs \<subseteq> {Info, Low, Medium, High}" using Confidence.exhaust by auto
  moreover have "card {Info, Low, Medium, High} = 4" by simp
  ultimately show ?thesis by (metis card_mono distinct_card finite.emptyI finite_insert)
qed

lemma sorted_le_last: "sorted_wrt (<) (cs :: 'a :: linorder list) \<Longrightarrow> c \<in> set cs \<Longrightarrow> c \<le> last cs"
  by (induction cs) (auto simp: less_imp_le)

definition log_run :: "DetectionLog \<Rightarrow> log_event list \<Rightarrow> DetectionLog" where
  "log_run log es = foldl (\<lambda>l e. fst (log_step l e)) log es"

lemma best_confidence_append:
  "best_confidence (log @ [x]) device =
     (if ld_key x = device then Some (raise_to (best_confidence log device) (ld_confidence x))
      else best_confidence log device)"
  by (simp add: best_confidence_def iter_max_snoc)

lemma best_confidence_update:
  "log_level log k = Some b \<Longrightarrow> b < c \<Longrightarrow>
    best_confidence (update_first (\<lambda>x. entry_key x = k) (\<lambda>x. x\<lparr>ld_confidence := c\<rparr>) log) device =
      (if fst k = device then Some (raise_to (best_confidence log device) c) else best_confidence log device)"
proof (induction log)
  case Nil
  then show ?case by (simp add: log_level_def)
next
  case (Cons x log)
  then show ?case
    by (cases "entry_key x = k")
      (auto simp: best_confidence_def log_level_def entry_key_def raise_to_def max_def not_le split: option.splits)
qed

lemma best_confidence_known:
  "log_level log k = Some b \<Longrightarrow> \<exists>m. best_confidence log (fst k) = Some m \<and> b \<le> m"
  unfolding log_level_def best_confidence_def
  by (rule iter_max_bound) (auto simp: entry_key_def dest!: find_Some_mem)

lemma best_confidence_step:
  "best_confidence (fst (log_step log e)) device =
     (if fst e = device then Some (raise_to (best_confidence log device) (event_conf e))
      else best_confidence log device)"
proof (cases "log_level log (event_key e)")
  case None
  then show ?thesis by (simp add: log_step_cases best_confidence_append)
next
  case (Some b)
  from best_confidence_known [OF Some] obtain m
    where "best_confidence log (fst e) = Some m" "b \<le> m" by (auto simp: event_key_def)
  with Some show ?thesis
    by (auto simp: log_step_cases best_confidence_update raise_to_def event_key_def max_def)
qed

section \<open>Properties\<close>

text \<open>C36: The detection log neither nags nor hides: for one device and signature, the detections it
  surfaces have strictly rising confidence, so there are at most four of them whatever arrives; and
  every detection that arrived was either surfaced or is no stronger than the last one surfaced, so a
  weak match never suppresses a strong one.\<close>

theorem detection_log_escalates:
  "let shown = map event_conf (filter (\<lambda>e. event_key e = k) (surfaced log_step log_new es)) in
     sorted_wrt (<) shown \<and> length shown \<le> 4
     \<and> (\<forall>e \<in> set es. event_key e = k \<longrightarrow> shown \<noteq> [] \<and> event_conf e \<le> last shown)"
proof -
  let ?shown = "map event_conf (filter (\<lambda>e. event_key e = k) (surfaced log_step log_new es))"
  have sorted: "sorted_wrt (<) ?shown" by (rule dlog.surfaced_increasing)
  have "?shown \<noteq> [] \<and> event_conf e \<le> last ?shown" if e: "e \<in> set es" "event_key e = k" for e
  proof -
    have "log_level log_new k = None" by (simp add: log_level_def log_new_def)
    then obtain e' where e': "e' \<in> set (surfaced log_step log_new es)" "event_key e' = k"
      "event_conf e \<le> event_conf e'" using dlog.surfaced_reaches [OF e, of log_new] by auto
    then have "event_conf e' \<in> set ?shown" by auto
    with sorted_le_last [OF sorted] e'(3) show ?thesis by fastforce
  qed
  with sorted sorted_confidences_short [OF sorted] show ?thesis by (simp add: Let_def)
qed

theorem detection_log_escalates_witness:
  "let d = \<lparr>det_signature_id = lit ''s'', det_vendor = [], det_product = None, det_technology = Wifi,
             det_confidence = Info, det_severity = SevLow, det_matched_fields = []\<rparr>;
       es = [(lit ''dev'', d), (lit ''dev'', d), (lit ''dev'', d\<lparr>det_confidence := High\<rparr>)];
       shown = map event_conf (filter (\<lambda>e. event_key e = (lit ''dev'', lit ''s'')) (surfaced log_step log_new es)) in
     shown = [Info, High] \<and> High \<le> last shown"
  using detection_log_escalates [of "(lit ''dev'', lit ''s'')" "[
      (lit ''dev'', \<lparr>det_signature_id = lit ''s'', det_vendor = [], det_product = None, det_technology = Wifi,
        det_confidence = Info, det_severity = SevLow, det_matched_fields = []\<rparr>),
      (lit ''dev'', \<lparr>det_signature_id = lit ''s'', det_vendor = [], det_product = None, det_technology = Wifi,
        det_confidence = Info, det_severity = SevLow, det_matched_fields = []\<rparr>),
      (lit ''dev'', \<lparr>det_signature_id = lit ''s'', det_vendor = [], det_product = None, det_technology = Wifi,
        det_confidence = High, det_severity = SevLow, det_matched_fields = []\<rparr>)]"]
  by (simp add: Let_def event_key_def event_conf_def log_step_def log_observe_def log_new_def
      same_detection_def less_Confidence_def)

text \<open>The confidence reported for a device is the highest of all detections ever observed for it,
  across signatures and in whatever order they came.\<close>

theorem best_confidence_is_highest:
  "best_confidence (log_run log_new es) device = iter_max (map event_conf (filter (\<lambda>e. fst e = device) es))"
proof (induction es rule: rev_induct)
  case Nil
  then show ?case by (simp add: log_run_def log_new_def best_confidence_def)
next
  case (snoc e es)
  then show ?case by (simp add: log_run_def best_confidence_step iter_max_snoc)
qed

text \<open>C35: Matching against a pack that was loaded is unambiguous: each detection names exactly one
  signature of the pack, that signature is enabled and written for the technology that was observed,
  and the detection carries one reason for each of its conditions, of which there is at least one.\<close>

theorem loaded_pack_detections_unambiguous:
  assumes "db_from_json from_str input = Inr db" and "d \<in> set (match_observation db payload)"
  shows "\<exists>!s. s \<in> set (signatures db) \<and> sig_id s = det_signature_id d \<and> sig_enabled s
    \<and> sig_technology s = payload_tech payload \<and> sig_conditions s \<noteq> []
    \<and> list_all2 (\<lambda>c r. match_one c payload = Some r) (sig_conditions s) (det_matched_fields d)"
proof -
  have ok: "validate_loop [] (signatures db) = (Inr () :: 'a SignatureError + unit)"
    using assms(1) by (auto simp: db_from_json_def db_validate_def result_simps split: sum.splits if_splits)
  then have inj: "inj_on sig_id (set (signatures db))" and cond: "\<forall>s \<in> set (signatures db). sig_conditions s \<noteq> []"
    unfolding validate_loop_ok by (auto simp: distinct_map)
  from assms(2) obtain s where s: "s \<in> set (signatures db)" "sig_enabled s" "sig_technology s = payload_tech payload"
    "match_all (sig_conditions s) payload = Some (det_matched_fields d)" "sig_id s = det_signature_id d"
    unfolding match_observation_def match_loop_mem by (metis Detection.select_convs(1))
  show ?thesis
  proof (rule ex1I [of _ s])
    show "s \<in> set (signatures db) \<and> sig_id s = det_signature_id d \<and> sig_enabled s
      \<and> sig_technology s = payload_tech payload \<and> sig_conditions s \<noteq> []
      \<and> list_all2 (\<lambda>c r. match_one c payload = Some r) (sig_conditions s) (det_matched_fields d)"
      using s cond by (simp add: match_all_eq_Some)
  qed (metis s(1,5) inj inj_onD)
qed

definition probe_signature :: Signature where
  "probe_signature = \<lparr>sig_id = lit ''probe'', sig_vendor = lit ''v'', sig_product = None,
     sig_technology = Wifi, sig_conditions = [SsidWildcard, FrameType ProbeRequest],
     sig_confidence = Medium, sig_severity = SevLow, sig_description = [], sig_evidence = [],
     sig_last_verified = None, sig_notes = None, sig_enabled = True\<rparr>"

definition probe_payload :: ObservationPayload where
  "probe_payload = WifiPayload (wifi_empty\<lparr>w_ssid := Some Wildcard, w_frame := Some ProbeRequest,
     w_transmitter := Some (MacAddr 0x00 0x25 0xdf 1 2 3)\<rparr>)"

theorem loaded_pack_detections_unambiguous_witness:
  "\<exists>!s. s \<in> set [probe_signature] \<and> sig_id s = lit ''probe'' \<and> sig_enabled s
    \<and> sig_technology s = payload_tech probe_payload \<and> sig_conditions s \<noteq> []
    \<and> list_all2 (\<lambda>c r. match_one c probe_payload = Some r) (sig_conditions s)
         [WildcardSsidObserved, FrameTypeIs ProbeRequest]"
  using loaded_pack_detections_unambiguous [of "\<lambda>_. Inr \<lparr>schema_version = 1, pack_version = None,
      signatures = [probe_signature]\<rparr>" "[]" "\<lparr>schema_version = 1, pack_version = None,
      signatures = [probe_signature]\<rparr>"
    "\<lparr>det_signature_id = lit ''probe'', det_vendor = lit ''v'', det_product = None, det_technology = Wifi,
      det_confidence = Medium, det_severity = SevLow,
      det_matched_fields = [WildcardSsidObserved, FrameTypeIs ProbeRequest]\<rparr>" probe_payload]
  by (simp add: db_from_json_def db_validate_def SCHEMA_VERSION_def probe_signature_def probe_payload_def
      match_observation_def is_wildcard_def then_some_def trim_def trim_start_def trim_end_def is_whitespace_def
      wifi_empty_def)

text \<open>A vendor prefix is never evidence from a made-up address: when a signature with a prefix
  condition that does not opt in to locally administered addresses matches, the observation holds an
  address in the field the condition names that is neither multicast nor locally administered and
  begins with the prefix; a Bluetooth address in addition was not flagged random.\<close>

theorem vendor_prefix_needs_real_address:
  assumes "match_all conditions payload = Some reasons"
    and "MacPrefixCond fld prefix False \<in> set conditions"
  shows "\<exists>a. is_globally_unique a \<and> prefix_matches prefix a
    \<and> (case payload of
         WifiPayload w \<Rightarrow> a \<in> set (addresses_for fld w)
       | BlePayload b \<Rightarrow> b_address b = Some a \<and> \<not> b_address_is_random b
       | RemoteIdPayload _ \<Rightarrow> False)"
proof -
  from assms obtain r where r: "match_one (MacPrefixCond fld prefix False) payload = Some r"
    using match_all_mem by blast
  show ?thesis
  proof (cases payload)
    case (WifiPayload w)
    with r match_wifi_prefix [of fld prefix False w r] show ?thesis by (auto simp: prefix_evidence_def)
  next
    case (BlePayload b)
    with r match_ble_prefix [of fld prefix False b r] show ?thesis by (auto simp: prefix_evidence_def)
  next
    case (RemoteIdPayload x)
    with r show ?thesis by simp
  qed
qed

theorem vendor_prefix_needs_real_address_witness:
  "\<exists>a. is_globally_unique a
    \<and> prefix_matches \<lparr>mp_octets = [0x00, 0x25, 0xd0, 0, 0, 0], mp_nibbles = 5\<rparr> a
    \<and> (case probe_payload of
         WifiPayload w \<Rightarrow> a \<in> set (addresses_for Transmitter w)
       | BlePayload b \<Rightarrow> b_address b = Some a \<and> \<not> b_address_is_random b
       | RemoteIdPayload _ \<Rightarrow> False)"
  by (rule vendor_prefix_needs_real_address [of
        "[MacPrefixCond Transmitter \<lparr>mp_octets = [0x00, 0x25, 0xd0, 0, 0, 0], mp_nibbles = 5\<rparr> False]" _
        "[FieldMatches Transmitter (MacAddr 0x00 0x25 0xdf 1 2 3)
            \<lparr>mp_octets = [0x00, 0x25, 0xd0, 0, 0, 0], mp_nibbles = 5\<rparr>]"])
    (simp_all add: probe_payload_def wifi_empty_def flatten_def is_multicast_def is_locally_administered_def
      prefix_matches_def Let_def)

end
