(* ===== verification/UserRules.thy ===== *)
theory UserRules
  imports Signature
begin

text \<open>
  Rules a user writes in the browser (\<open>radio/src/userrules.rs\<close>): the hard limits, the validation of a
  rule set and the translation of its enabled rules into signatures. A parse failure inside an error
  keeps the structured \<open>MacParseError\<close> where the source keeps its text. The override table of the
  pack's own flags (a \<open>BTreeMap\<close>) is the list of its entries in key order.
\<close>

section \<open>Limits and data\<close>

definition MAX_RULES :: nat where "MAX_RULES = 256"
definition MAX_NAME :: nat where "MAX_NAME = 64"
definition MAX_DESCRIPTION :: nat where "MAX_DESCRIPTION = 512"
definition MAX_NOTES :: nat where "MAX_NOTES = 512"
definition MAX_CRITERIA_PER_RULE :: nat where "MAX_CRITERIA_PER_RULE = 8"
definition MAX_PATTERN :: nat where "MAX_PATTERN = 64"
definition MAX_WILDCARDS :: nat where "MAX_WILDCARDS = 4"
definition MAX_ALLOWLIST :: nat where "MAX_ALLOWLIST = 256"
definition MAX_COOLDOWN_SECS :: nat where "MAX_COOLDOWN_SECS = 86400"

datatype UserCriterion =
    UMac ustr
  | UMacPrefix ustr
  | USsidExact ustr
  | USsidContains ustr
  | USsidGlob ustr
  | UBleCompanyId u16
  | UBleServiceUuid ustr
  | UBleNameContains ustr

record UserRule =
  ur_id :: ustr
  ur_name :: ustr
  ur_description :: ustr
  ur_enabled :: bool
  ur_technology :: RadioTech
  ur_severity :: Severity
  ur_criteria :: "UserCriterion list"
  ur_cooldown_secs :: nat
  ur_notes :: "ustr option"

record AllowlistEntry =
  al_prefix :: ustr
  al_label :: ustr

record UserRuleSet =
  rs_rules :: "UserRule list"
  rs_allowlist :: "AllowlistEntry list"
  rs_builtin_overrides :: "(ustr \<times> bool) list"

datatype 'pe RuleError =
    TooManyRules nat nat
  | TooManyAllowlistEntries nat nat
  | RuleDuplicateId ustr
  | EmptyField ustr
  | TooLong ustr nat nat
  | NoCriteria ustr
  | TooManyCriteria ustr nat
  | BadMac ustr MacParseError
  | BadPrefix ustr MacParseError
  | TooManyWildcards nat nat
  | MatchesEverything
  | CooldownTooLong nat nat
  | RuleParse 'pe

section \<open>Validation\<close>

definition check_len :: "ustr \<Rightarrow> ustr \<Rightarrow> nat \<Rightarrow> 'pe RuleError + unit" where
  "check_len fld v mx = (if length v > mx then Inl (TooLong fld (length v) mx) else Inr ())"

text \<open>\<open>map_err\<close>.\<close>

definition map_err :: "('e \<Rightarrow> 'f) \<Rightarrow> 'e + 'a \<Rightarrow> 'f + 'a" where
  "map_err f r = (case r of Inl e \<Rightarrow> Inl (f e) | Inr x \<Rightarrow> Inr x)"

lemma map_err_eq_Inr [simp]: "map_err f r = Inr x \<longleftrightarrow> r = Inr x"
  by (cases r) (simp_all add: map_err_def)

fun validate_criterion :: "UserCriterion \<Rightarrow> 'pe RuleError + unit" where
  "validate_criterion (UMac mac) = and_then (map_err (BadMac mac) (mac_parse mac)) (\<lambda>_. Inr ())"
| "validate_criterion (UMacPrefix prefix) =
     and_then (map_err (BadPrefix prefix) (prefix_parse prefix)) (\<lambda>_. Inr ())"
| "validate_criterion (USsidExact ssid) = check_len (lit ''SSID'') ssid MAX_PATTERN"
| "validate_criterion (USsidContains substring) =
     (if substring = [] then Inl (EmptyField (lit ''substring''))
      else check_len (lit ''SSID text'') substring MAX_PATTERN)"
| "validate_criterion (USsidGlob pattern) =
     (if pattern = [] then Inl (EmptyField (lit ''pattern''))
      else and_then (check_len (lit ''pattern'') pattern MAX_PATTERN) (\<lambda>_.
        let wildcards = length (filter (\<lambda>c. c = STAR \<or> c = QUEST) pattern) in
        if wildcards > MAX_WILDCARDS then Inl (TooManyWildcards wildcards MAX_WILDCARDS)
        else if list_all (\<lambda>c. c = STAR) pattern then Inl MatchesEverything
        else Inr ()))"
| "validate_criterion (UBleCompanyId _) = Inr ()"
| "validate_criterion (UBleServiceUuid uuid) =
     and_then (check_len (lit ''UUID'') uuid MAX_PATTERN) (\<lambda>_.
       if trim uuid = [] then Inl (EmptyField (lit ''uuid'')) else Inr ())"
| "validate_criterion (UBleNameContains substring) =
     (if substring = [] then Inl (EmptyField (lit ''substring''))
      else check_len (lit ''name text'') substring MAX_PATTERN)"

definition rule_validate :: "UserRule \<Rightarrow> 'pe RuleError + unit" where
  "rule_validate r =
     (if trim (ur_id r) = [] then Inl (EmptyField (lit ''id''))
      else if trim (ur_name r) = [] then Inl (EmptyField (lit ''name''))
      else and_then (check_len (lit ''name'') (ur_name r) MAX_NAME) (\<lambda>_.
        and_then (check_len (lit ''description'') (ur_description r) MAX_DESCRIPTION) (\<lambda>_.
        and_then (case ur_notes r of
                    Some notes \<Rightarrow> check_len (lit ''notes'') notes MAX_NOTES
                  | None \<Rightarrow> Inr ()) (\<lambda>_.
        if ur_criteria r = [] then Inl (NoCriteria (ur_name r))
        else if length (ur_criteria r) > MAX_CRITERIA_PER_RULE
        then Inl (TooManyCriteria (ur_name r) MAX_CRITERIA_PER_RULE)
        else if ur_cooldown_secs r > MAX_COOLDOWN_SECS
        then Inl (CooldownTooLong (ur_cooldown_secs r) MAX_COOLDOWN_SECS)
        else for_each validate_criterion (ur_criteria r)))))"

text \<open>The loop over the rules with its list of the ids seen.\<close>

fun rules_loop :: "ustr list \<Rightarrow> UserRule list \<Rightarrow> 'pe RuleError + unit" where
  "rules_loop seen [] = Inr ()"
| "rules_loop seen (r # rules) =
     and_then (rule_validate r) (\<lambda>_.
       if ur_id r \<in> set seen then Inl (RuleDuplicateId (ur_id r))
       else rules_loop (seen @ [ur_id r]) rules)"

definition ruleset_validate :: "UserRuleSet \<Rightarrow> 'pe RuleError + unit" where
  "ruleset_validate rs =
     (if length (rs_rules rs) > MAX_RULES then Inl (TooManyRules (length (rs_rules rs)) MAX_RULES)
      else if length (rs_allowlist rs) > MAX_ALLOWLIST
      then Inl (TooManyAllowlistEntries (length (rs_allowlist rs)) MAX_ALLOWLIST)
      else and_then (rules_loop [] (rs_rules rs)) (\<lambda>_.
        if length (rs_builtin_overrides rs) > MAX_RULES
        then Inl (TooManyRules (length (rs_builtin_overrides rs)) MAX_RULES)
        else and_then (for_each (\<lambda>i. check_len (lit ''signature id'') i MAX_NAME)
                         (map fst (rs_builtin_overrides rs))) (\<lambda>_.
          for_each (\<lambda>entry.
            and_then (map_err (BadPrefix (al_prefix entry)) (prefix_parse (al_prefix entry))) (\<lambda>_.
              check_len (lit ''allowlist label'') (al_label entry) MAX_NAME)) (rs_allowlist rs))))"

definition ruleset_from_json :: "(ustr \<Rightarrow> 'pe + UserRuleSet) \<Rightarrow> ustr \<Rightarrow> 'pe RuleError + UserRuleSet" where
  "ruleset_from_json from_str input =
     (case from_str input of
        Inl e \<Rightarrow> Inl (RuleParse e)
      | Inr rs \<Rightarrow> and_then (ruleset_validate rs) (\<lambda>_. Inr rs))"

section \<open>Conversion\<close>

fun convert_criterion :: "UserCriterion \<Rightarrow> 'pe RuleError + MatchCondition" where
  "convert_criterion (UMac mac) =
     and_then (map_err (BadMac mac) (mac_parse mac)) (\<lambda>m. Inr (MacExact AnyField m))"
| "convert_criterion (UMacPrefix prefix) =
     and_then (map_err (BadPrefix prefix) (prefix_parse prefix)) (\<lambda>p. Inr (MacPrefixCond AnyField p True))"
| "convert_criterion (USsidExact ssid) = Inr (SsidExact ssid)"
| "convert_criterion (USsidContains substring) = Inr (SsidContains substring)"
| "convert_criterion (USsidGlob pattern) = Inr (SsidGlob pattern)"
| "convert_criterion (UBleCompanyId i) = Inr (BleCompanyId i)"
| "convert_criterion (UBleServiceUuid uuid) = Inr (BleServiceUuid uuid)"
| "convert_criterion (UBleNameContains substring) = Inr (BleNameContains substring)"

definition to_signature :: "UserRule \<Rightarrow> 'pe RuleError + Signature" where
  "to_signature r =
     and_then (collect_results convert_criterion (ur_criteria r)) (\<lambda>conditions.
       Inr \<lparr>sig_id = lit ''user.'' @ ur_id r, sig_vendor = lit ''user-defined'',
            sig_product = Some (ur_name r), sig_technology = ur_technology r,
            sig_conditions = conditions, sig_confidence = Low, sig_severity = ur_severity r,
            sig_description = (if trim (ur_description r) = [] then lit ''user rule: '' @ ur_name r
                               else ur_description r),
            sig_evidence = [lit ''added by the device owner''], sig_last_verified = None,
            sig_notes = ur_notes r, sig_enabled = True\<rparr>)"

definition to_signatures :: "UserRuleSet \<Rightarrow> 'pe RuleError + Signature list" where
  "to_signatures rs = collect_results to_signature (filter ur_enabled (rs_rules rs))"

definition is_allowlisted :: "UserRuleSet \<Rightarrow> MacAddr \<Rightarrow> bool" where
  "is_allowlisted rs addr =
     list_ex (\<lambda>entry. case prefix_parse (al_prefix entry) of
                         Inr p \<Rightarrow> prefix_matches p addr
                       | Inl _ \<Rightarrow> False) (rs_allowlist rs)"

section \<open>Validated rules convert\<close>

lemma rules_loop_ok:
  "rules_loop seen rules = (Inr () :: 'pe RuleError + unit) \<longleftrightarrow>
     (\<forall>r \<in> set rules. rule_validate r = (Inr () :: 'pe RuleError + unit) \<and> ur_id r \<notin> set seen)
     \<and> distinct (map ur_id rules)"
proof (induction rules arbitrary: seen)
  case Nil
  then show ?case by simp
next
  case (Cons r rules)
  show ?case by (auto simp: and_then_eq_Inr Cons.IH) (metis image_eqI)
qed

lemma criterion_converts:
  "validate_criterion c = (Inr () :: 'pe RuleError + unit) \<Longrightarrow>
    \<exists>m. convert_criterion c = (Inr m :: 'pe RuleError + MatchCondition)"
  by (cases c) (auto simp: result_simps)

lemma rule_validate_ok:
  "rule_validate r = (Inr () :: 'pe RuleError + unit) \<Longrightarrow>
    trim (ur_id r) \<noteq> [] \<and> ur_criteria r \<noteq> []
    \<and> (\<forall>c \<in> set (ur_criteria r). validate_criterion c = (Inr () :: 'pe RuleError + unit))"
  by (auto simp: rule_validate_def result_simps for_each_eq_Inr split: if_splits)

lemma to_signature_total:
  assumes "rule_validate r = (Inr () :: 'pe RuleError + unit)"
  shows "\<exists>s. to_signature r = (Inr s :: 'pe RuleError + Signature)"
proof -
  have "\<exists>m. convert_criterion c = (Inr m :: 'pe RuleError + MatchCondition)" if "c \<in> set (ur_criteria r)" for c
    using rule_validate_ok [OF assms] criterion_converts that by blast
  then obtain cs where "collect_results convert_criterion (ur_criteria r) = (Inr cs :: 'pe RuleError + MatchCondition list)"
    using collect_results_total by blast
  then show ?thesis by (simp add: to_signature_def)
qed

lemma to_signature_fields:
  "to_signature r = Inr s \<Longrightarrow>
    sig_id s = lit ''user.'' @ ur_id r \<and> sig_technology s = ur_technology r \<and> sig_enabled s
    \<and> length (sig_conditions s) = length (ur_criteria r)"
  by (auto simp: to_signature_def result_simps collect_results_eq_Inr dest: list_all2_lengthD)

lemma trim_user_prefix: "trim (lit ''user.'' @ i) \<noteq> []"
proof -
  have "trim_start (lit ''user.'' @ i) = lit ''user.'' @ i"
    by (simp add: trim_start_def is_whitespace_def)
  then have "\<exists>x \<in> set (trim_start (lit ''user.'' @ i)). \<not> is_whitespace x"
    by (auto simp: is_whitespace_def)
  then show ?thesis by (auto simp: trim_def trim_end_def dropWhile_eq_Nil_conv)
qed

section \<open>Properties\<close>

text \<open>A rule set that passed validation always converts: every enabled rule becomes one signature,
  in order, enabled, for its own technology, with one condition per criterion and an id in the
  \<open>user.\<close> namespace; and the resulting signatures form a pack that the pack validator accepts.\<close>

theorem validated_rules_convert:
  assumes "ruleset_validate rs = (Inr () :: 'pe RuleError + unit)"
  shows "\<exists>sigs. to_signatures rs = (Inr sigs :: 'pe RuleError + Signature list)
    \<and> map sig_id sigs = map (\<lambda>r. lit ''user.'' @ ur_id r) (filter ur_enabled (rs_rules rs))
    \<and> map (\<lambda>s. (sig_technology s, length (sig_conditions s))) sigs
        = map (\<lambda>r. (ur_technology r, length (ur_criteria r))) (filter ur_enabled (rs_rules rs))
    \<and> db_validate \<lparr>schema_version = SCHEMA_VERSION, pack_version = None, signatures = sigs\<rparr>
        = (Inr () :: 'pe SignatureError + unit)"
proof -
  let ?rules = "filter ur_enabled (rs_rules rs)"
  have "rules_loop [] (rs_rules rs) = (Inr () :: 'pe RuleError + unit)"
    using assms by (auto simp: ruleset_validate_def result_simps split: if_splits)
  then have valid: "\<forall>r \<in> set (rs_rules rs). rule_validate r = (Inr () :: 'pe RuleError + unit)"
    and dist: "distinct (map ur_id (rs_rules rs))" unfolding rules_loop_ok by auto
  obtain sigs where sigs: "to_signatures rs = (Inr sigs :: 'pe RuleError + Signature list)"
    unfolding to_signatures_def using collect_results_total [of ?rules] to_signature_total valid
    by (metis filter_is_subset subsetD)
  then have all2: "list_all2 (\<lambda>r s. to_signature r = (Inr s :: 'pe RuleError + Signature)) ?rules sigs"
    by (simp add: to_signatures_def collect_results_eq_Inr)
  then have ids: "map sig_id sigs = map (\<lambda>r. lit ''user.'' @ ur_id r) ?rules"
    and shape: "map (\<lambda>s. (sig_technology s, length (sig_conditions s))) sigs
        = map (\<lambda>r. (ur_technology r, length (ur_criteria r))) ?rules"
    by (induction rule: list_all2_induct) (auto dest: to_signature_fields)
  have "distinct (map ur_id ?rules)" using dist by (induction "rs_rules rs") (auto simp: distinct_map_filter)
  then have "distinct (map sig_id sigs)" unfolding ids by (simp add: distinct_map inj_on_def)
  moreover have "trim (sig_id s) \<noteq> [] \<and> sig_conditions s \<noteq> []" if "s \<in> set sigs" for s
  proof -
    note mem = that
    from list_all2_right_mem [OF all2 mem]
    obtain r where r: "r \<in> set (rs_rules rs)" "to_signature r = (Inr s :: 'pe RuleError + Signature)"
      by auto
    then show ?thesis
      using to_signature_fields [OF r(2)] rule_validate_ok valid trim_user_prefix by (metis length_0_conv)
  qed
  ultimately have "db_validate \<lparr>schema_version = SCHEMA_VERSION, pack_version = None, signatures = sigs\<rparr>
        = (Inr () :: 'pe SignatureError + unit)"
    by (simp add: db_validate_def validate_loop_ok)
  with sigs ids shape show ?thesis by blast
qed

definition sample_rule :: UserRule where
  "sample_rule = \<lparr>ur_id = lit ''1'', ur_name = lit ''cam'', ur_description = [], ur_enabled = True,
     ur_technology = Wifi, ur_severity = SevHigh,
     ur_criteria = [UMacPrefix (lit ''b4:1e:52''), USsidGlob (lit ''Fl*'')], ur_cooldown_secs = 60,
     ur_notes = None\<rparr>"

lemma sample_rule_valid:
  "ruleset_validate \<lparr>rs_rules = [sample_rule], rs_allowlist = [], rs_builtin_overrides = []\<rparr>
     = (Inr () :: 'pe RuleError + unit)"
  by (simp add: ruleset_validate_def rule_validate_def sample_rule_def check_len_def map_err_def
      prefix_parse_def collect_hex_digits.simps(2) to_digit16_def MIN_NIBBLES_def MAX_NIBBLES_def
      MAX_RULES_def MAX_ALLOWLIST_def MAX_NAME_def MAX_DESCRIPTION_def MAX_CRITERIA_PER_RULE_def
      MAX_COOLDOWN_SECS_def MAX_PATTERN_def MAX_WILDCARDS_def STAR_def QUEST_def trim_def trim_start_def
      trim_end_def is_whitespace_def)

theorem validated_rules_convert_witness:
  "\<exists>sigs. to_signatures \<lparr>rs_rules = [sample_rule], rs_allowlist = [], rs_builtin_overrides = []\<rparr>
       = (Inr sigs :: unit RuleError + Signature list)
    \<and> map sig_id sigs = [lit ''user.1'']"
  using validated_rules_convert [OF sample_rule_valid] by (auto simp: sample_rule_def)

text \<open>No validated rule about network names fires on a network without a name: a wildcard SSID in an
  observation that carries no address satisfies none of the conditions a validated criterion can
  turn into, except the one that asks for exactly the empty name. In particular no accepted glob
  matches everything.\<close>

theorem validated_criterion_ignores_nameless:
  assumes "validate_criterion c = (Inr () :: 'pe RuleError + unit)"
    and "convert_criterion c = (Inr m :: 'pe RuleError + MatchCondition)"
    and "c \<noteq> USsidExact []"
  shows "match_one m (WifiPayload (wifi_empty\<lparr>w_ssid := Some Wildcard\<rparr>)) = None"
proof (cases c)
  case (USsidGlob pattern)
  with assms(1) have "\<not> list_all (\<lambda>x. x = STAR) pattern"
    by (auto simp: result_simps Let_def split: if_splits)
  then have "\<not> glob_match pattern []"
    by (simp add: glob_match_def glob_loop.simps [of pattern "[]" 0 0 None 0] trailing_stars_def
        dropWhile_eq_Nil_conv list_all_iff)
  with USsidGlob assms(2) show ?thesis by (auto simp: wifi_empty_def ssid_display_def then_some_def)
next
  case (USsidContains substring)
  with assms show ?thesis by (auto simp: wifi_empty_def ssid_display_def then_some_def)
qed (use assms in \<open>auto simp: result_simps wifi_empty_def ssid_display_def flatten_def then_some_def\<close>)

theorem validated_criterion_ignores_nameless_witness:
  "match_one (SsidGlob (lit ''?*'')) (WifiPayload (wifi_empty\<lparr>w_ssid := Some Wildcard\<rparr>)) = None"
  by (rule validated_criterion_ignores_nameless [where c = "USsidGlob (lit ''?*'')" and ?'pe = unit])
    (simp_all add: check_len_def MAX_PATTERN_def MAX_WILDCARDS_def STAR_def QUEST_def)

end
