(* ===== verification/Floats.thy ===== *)
theory Floats
  imports Complex_Main RhPrelude "HOL-Library.Log_Nat"
begin

text \<open>
  The floating-point arithmetic of Rust's \<open>f32\<close> and \<open>f64\<close>, as far as the program uses it: values are
  finite rationals, the two infinities or NaN (the sign of zero, which no computation here can observe,
  is dropped), and each operation rounds the exact result to the nearest representable value, ties to
  even. Parsing a decimal rounds its exact value the same way; casts to integers truncate and saturate.
\<close>

section \<open>Values and rounding\<close>

datatype fl = FNan | FInf bool | FFin rat

record float_format =
  precision :: nat
  min_quantum :: int
  max_exponent :: int

definition f32 :: float_format where
  "f32 = \<lparr>precision = 24, min_quantum = -149, max_exponent = 127\<rparr>"

definition f64 :: float_format where
  "f64 = \<lparr>precision = 53, min_quantum = -1074, max_exponent = 1023\<rparr>"

text \<open>The exponent of the leading bit of a positive rational.\<close>

definition ilog2 :: "rat \<Rightarrow> int" where
  "ilog2 q =
     (let (n, d) = quotient_of q; e = int (floorlog 2 (nat n)) - int (floorlog 2 (nat d)) in
      if 2 powi e \<le> q then e else e - 1)"

definition round_half_even :: "rat \<Rightarrow> int" where
  "round_half_even x =
     (let f = \<lfloor>x\<rfloor>; r = x - of_int f in
      if r < 1 / 2 then f else if r > 1 / 2 then f + 1 else if even f then f else f + 1)"

definition fl_round :: "float_format \<Rightarrow> rat \<Rightarrow> fl" where
  "fl_round fmt q =
     (if q = 0 then FFin 0
      else (let k = max (ilog2 \<bar>q\<bar> - (int (precision fmt) - 1)) (min_quantum fmt);
                r = of_int (round_half_even (q / 2 powi k)) * 2 powi k in
            if \<bar>r\<bar> \<ge> 2 powi (max_exponent fmt + 1) then FInf (r < 0) else FFin r))"

section \<open>Facts about rounding\<close>

lemma powi_pos [simp]: "0 < (2 powi k :: rat)"
  by (simp add: zero_less_power_int)

lemma nat_powi_bounds:
  assumes "0 < m"
  shows "2 powi (int (floorlog 2 m) - 1) \<le> (of_nat m :: rat) \<and> of_nat m < (2 powi int (floorlog 2 m) :: rat)"
proof -
  let ?a = "floorlog 2 m"
  have b: "2 ^ (?a - 1) \<le> m" "m < 2 ^ ?a" using floorlog_bounds [of m 2] assms by auto
  have "0 < ?a" using assms by (simp add: floorlog_def)
  then have "int ?a - 1 = int (?a - 1)" by simp
  then have lo: "(2 powi (int ?a - 1) :: rat) = of_nat (2 ^ (?a - 1))"
    by (simp only: power_int_of_nat of_nat_power of_nat_numeral)
  have hi: "(2 powi int ?a :: rat) = of_nat (2 ^ ?a)" by simp
  show ?thesis unfolding lo hi of_nat_le_iff of_nat_less_iff using b by simp
qed

lemma ilog2_spec:
  assumes "0 < q"
  shows "2 powi (ilog2 q) \<le> q \<and> q < 2 powi (ilog2 q + 1)"
proof -
  obtain n d where nd: "quotient_of q = (n, d)" by fastforce
  then have d: "0 < d" and q: "q = of_int n / of_int d"
    using quotient_of_denom_pos quotient_of_div by auto
  with assms have n: "0 < n" by (simp add: zero_less_divide_iff)
  define a b where "a = int (floorlog 2 (nat n))" and "b = int (floorlog 2 (nat d))"
  have nr: "2 powi (a - 1) \<le> (of_int n :: rat)" "of_int n < (2 powi a :: rat)"
    and dr: "2 powi (b - 1) \<le> (of_int d :: rat)" "of_int d < (2 powi b :: rat)"
    using nat_powi_bounds [of "nat n"] nat_powi_bounds [of "nat d"] n d by (auto simp: a_def b_def)
  have dpos: "0 < (of_int d :: rat)" using d by simp
  have "2 powi a = 2 powi (a - b + 1) * (2 powi (b - 1) :: rat)" by (simp flip: power_int_add)
  also have "\<dots> \<le> 2 powi (a - b + 1) * of_int d" using dr(1) by (intro mult_left_mono) simp_all
  finally have "of_int n < 2 powi (a - b + 1) * (of_int d :: rat)" using nr(2) by linarith
  then have up: "q < 2 powi (a - b + 1)" unfolding q using dpos by (simp add: pos_divide_less_eq)
  have "2 powi (a - b - 1) * of_int d \<le> 2 powi (a - b - 1) * (2 powi b :: rat)"
    using dr(2) by (intro mult_left_mono) simp_all
  also have "\<dots> = 2 powi (a - 1)" by (simp flip: power_int_add)
  finally have "2 powi (a - b - 1) * of_int d \<le> (of_int n :: rat)" using nr(1) by linarith
  then have low: "2 powi (a - b - 1) \<le> q" unfolding q using dpos by (simp add: pos_le_divide_eq)
  show ?thesis
    using up low by (auto simp: ilog2_def nd Let_def a_def [symmetric] b_def [symmetric])
qed

lemma round_half_even_le: "of_int (round_half_even x) \<le> x + 1 / 2"
  unfolding round_half_even_def Let_def by (simp split: if_split) linarith

lemma round_half_even_ge: "of_int m \<le> x \<Longrightarrow> m \<le> round_half_even x"
proof -
  assume "of_int m \<le> x"
  then have "m \<le> \<lfloor>x\<rfloor>" by (simp add: le_floor_iff)
  then show ?thesis by (auto simp: round_half_even_def Let_def)
qed

text \<open>Values that are not negative, and stay so.\<close>

definition fl_nonneg :: "fl \<Rightarrow> bool" where
  "fl_nonneg x \<longleftrightarrow> x = FInf False \<or> (\<exists>q. x = FFin q \<and> 0 \<le> q)"

lemma fl_round_nonneg: "0 \<le> q \<Longrightarrow> fl_nonneg (fl_round fmt q)"
proof -
  assume q: "0 \<le> q"
  have "0 \<le> round_half_even (q / 2 powi k)" for k
    using round_half_even_ge [of 0 "q / 2 powi k"] q by simp
  then show ?thesis by (auto simp: fl_round_def fl_nonneg_def Let_def not_less)
qed

lemma fl_round_finite:
  assumes "2 powi min_quantum fmt \<le> q" and "q \<le> 2 powi max_exponent fmt" and "1 \<le> precision fmt"
  shows "\<exists>r. fl_round fmt q = FFin r \<and> 0 < r"
proof -
  define k where "k = max (ilog2 q - (int (precision fmt) - 1)) (min_quantum fmt)"
  define r where "r = of_int (round_half_even (q / 2 powi k)) * (2 powi k :: rat)"
  have q: "0 < q" using assms(1) powi_pos less_le_trans by blast
  have "2 powi (ilog2 q - (int (precision fmt) - 1)) \<le> (2 powi ilog2 q :: rat)"
    using assms(3) by (intro power_int_increasing) simp_all
  then have kq: "2 powi k \<le> q" using ilog2_spec [OF q] assms(1) by (auto simp: k_def max_def)
  then have "1 \<le> round_half_even (q / 2 powi k)"
    using round_half_even_ge [of 1 "q / 2 powi k"] by simp
  then have pos: "0 < r" by (simp add: r_def)
  have "r \<le> (q / 2 powi k + 1 / 2) * 2 powi k"
    unfolding r_def using round_half_even_le by (intro mult_right_mono) simp_all
  also have "\<dots> = q + 2 powi k / 2" by (simp add: distrib_right)
  also have "\<dots> < 2 * 2 powi max_exponent fmt" using kq assms(2) q by linarith
  also have "\<dots> = 2 powi (max_exponent fmt + 1)" by (simp add: power_int_add_1')
  finally show ?thesis
    using q pos by (simp add: fl_round_def Let_def k_def [symmetric] r_def [symmetric])
qed

lemma fl_round_f32_finite:
  assumes "1 / 2 ^ 20 \<le> q" and "q \<le> 2 ^ 32"
  shows "\<exists>r. fl_round f32 q = FFin r \<and> 0 < r"
proof (rule fl_round_finite)
  have "2 powi (-149) \<le> (2 powi (-20) :: rat)" by (rule power_int_increasing) simp_all
  then show "2 powi min_quantum f32 \<le> q" using assms(1) by (simp add: f32_def power_int_minus field_simps)
  have "2 powi 32 \<le> (2 powi 127 :: rat)" by (rule power_int_increasing) simp_all
  then show "q \<le> 2 powi max_exponent f32" using assms(2) by (simp add: f32_def)
qed (simp add: f32_def)

text \<open>Evaluating one rounding: the exponent is given, the rest computes.\<close>

lemma ilog2_eqI: "2 powi e \<le> q \<Longrightarrow> q < 2 powi (e + 1) \<Longrightarrow> ilog2 q = e"
proof -
  assume e: "2 powi e \<le> q" "q < 2 powi (e + 1)"
  then have "0 < q" using powi_pos less_le_trans by blast
  from ilog2_spec [OF this] e have "2 powi (ilog2 q) < (2 powi (e + 1) :: rat)" "2 powi e < (2 powi (ilog2 q + 1) :: rat)"
    by linarith+
  moreover have "2 powi b \<le> (2 powi a :: rat)" if "b \<le> a" for a b using that by (intro power_int_increasing) simp_all
  ultimately show ?thesis by (smt (verit) linorder_not_le)
qed

lemma fl_round_f32_eval:
  assumes "2 powi e \<le> q" and "q < 2 powi (e + 1)" and "-126 \<le> e" and "e \<le> 126"
  shows "fl_round f32 q = FFin (of_int (round_half_even (q / 2 powi (e - 23))) * 2 powi (e - 23))"
proof -
  have q: "0 < q" using assms(1) powi_pos less_le_trans by blast
  have "2 powi -149 \<le> (2 powi e :: rat)" and "2 powi (e + 1) \<le> (2 powi 127 :: rat)"
    using assms(3,4) by (intro power_int_increasing; simp)+
  then obtain r where "fl_round f32 q = FFin r"
    using fl_round_finite [of f32 q] assms by (auto simp: f32_def)
  with q assms show ?thesis
    by (auto simp: fl_round_def Let_def f32_def ilog2_eqI [OF assms(1,2)] split: if_splits)
qed

section \<open>Operations\<close>

definition fl_of_nat :: "float_format \<Rightarrow> nat \<Rightarrow> fl" where
  "fl_of_nat fmt n = fl_round fmt (of_nat n)"

fun fl_add :: "float_format \<Rightarrow> fl \<Rightarrow> fl \<Rightarrow> fl" where
  "fl_add fmt (FFin a) (FFin b) = fl_round fmt (a + b)"
| "fl_add fmt (FInf s) (FInf t) = (if s = t then FInf s else FNan)"
| "fl_add fmt (FInf s) (FFin _) = FInf s"
| "fl_add fmt (FFin _) (FInf t) = FInf t"
| "fl_add fmt _ _ = FNan"

definition fl_neg :: "rat \<Rightarrow> bool" where "fl_neg a \<longleftrightarrow> a < 0"

fun fl_mul :: "float_format \<Rightarrow> fl \<Rightarrow> fl \<Rightarrow> fl" where
  "fl_mul fmt (FFin a) (FFin b) = fl_round fmt (a * b)"
| "fl_mul fmt (FInf s) (FInf t) = FInf (s \<noteq> t)"
| "fl_mul fmt (FInf s) (FFin b) = (if b = 0 then FNan else FInf (s \<noteq> fl_neg b))"
| "fl_mul fmt (FFin a) (FInf t) = (if a = 0 then FNan else FInf (fl_neg a \<noteq> t))"
| "fl_mul fmt _ _ = FNan"

text \<open>Division by zero, which is \<open>+0\<close> wherever the program divides.\<close>

fun fl_div :: "float_format \<Rightarrow> fl \<Rightarrow> fl \<Rightarrow> fl" where
  "fl_div fmt (FFin a) (FFin b) =
     (if b = 0 then (if a = 0 then FNan else FInf (a < 0)) else fl_round fmt (a / b))"
| "fl_div fmt (FInf s) (FFin b) = FInf (s \<noteq> fl_neg b)"
| "fl_div fmt (FFin a) (FInf t) = FFin 0"
| "fl_div fmt _ _ = FNan"

text \<open>Comparisons are false on NaN.\<close>

fun fl_less :: "fl \<Rightarrow> fl \<Rightarrow> bool" where
  "fl_less (FFin a) (FFin b) \<longleftrightarrow> a < b"
| "fl_less (FInf s) (FInf t) \<longleftrightarrow> s \<and> \<not> t"
| "fl_less (FInf s) (FFin _) \<longleftrightarrow> s"
| "fl_less (FFin _) (FInf t) \<longleftrightarrow> \<not> t"
| "fl_less _ _ \<longleftrightarrow> False"

definition fl_ge :: "fl \<Rightarrow> fl \<Rightarrow> bool" where
  "fl_ge a b \<longleftrightarrow> a \<noteq> FNan \<and> b \<noteq> FNan \<and> \<not> fl_less a b"

text \<open>\<open>clamp(0.0, 1.0)\<close>: NaN stays NaN.\<close>

definition fl_clamp01 :: "fl \<Rightarrow> fl" where
  "fl_clamp01 a =
     (if fl_less a (FFin 0) then FFin 0 else if fl_less (FFin 1) a then FFin 1 else a)"

lemma fl_clamp01_range: "a \<noteq> FNan \<Longrightarrow> \<exists>q. fl_clamp01 a = FFin q \<and> 0 \<le> q \<and> q \<le> 1"
proof (cases a)
  case (FInf s)
  then show ?thesis by (cases s) (simp_all add: fl_clamp01_def)
next
  case (FFin q)
  then show ?thesis by (simp add: fl_clamp01_def)
qed simp

lemma fl_round_not_nan [simp]: "fl_round fmt q \<noteq> FNan"
  by (simp add: fl_round_def Let_def)

lemma fl_nonneg_add: "fl_nonneg a \<Longrightarrow> fl_nonneg b \<Longrightarrow> fl_nonneg (fl_add fmt a b)"
  using fl_round_nonneg [of _ fmt, unfolded fl_nonneg_def]
  by (auto simp: fl_nonneg_def) (metis add_nonneg_nonneg)

lemma fl_div_not_nan: "a \<noteq> FNan \<Longrightarrow> b \<noteq> 0 \<Longrightarrow> fl_div fmt a (FFin b) \<noteq> FNan"
  by (cases a) simp_all

lemma fl_nonneg_not_nan: "fl_nonneg a \<Longrightarrow> a \<noteq> FNan"
  by (auto simp: fl_nonneg_def)

lemma fl_of_nat_f32_finite: "0 < n \<Longrightarrow> n \<le> u32_max \<Longrightarrow> \<exists>r. fl_of_nat f32 n = FFin r \<and> 0 < r"
proof -
  assume n: "0 < n" "n \<le> u32_max"
  then have "n \<le> 2 ^ 32" by (simp add: u32_max_def)
  then have "(of_nat n :: rat) \<le> of_nat (2 ^ 32)" by (rule of_nat_mono)
  moreover have "(1 :: rat) \<le> of_nat n" using n by simp
  ultimately show ?thesis
    unfolding fl_of_nat_def by (intro fl_round_f32_finite) (auto intro: order_trans)
qed

section \<open>Casts\<close>

text \<open>\<open>as u32\<close> and \<open>round() as i16\<close>: truncation and rounding half away from zero, both saturating.\<close>

fun fl_as_u32 :: "fl \<Rightarrow> nat" where
  "fl_as_u32 FNan = 0"
| "fl_as_u32 (FInf neg) = (if neg then 0 else u32_max)"
| "fl_as_u32 (FFin q) = min (nat \<lfloor>q\<rfloor>) u32_max"

definition round_half_away :: "rat \<Rightarrow> int" where
  "round_half_away q = (if 0 \<le> q then \<lfloor>q + 1 / 2\<rfloor> else - \<lfloor>- q + 1 / 2\<rfloor>)"

fun fl_round_as_i16 :: "fl \<Rightarrow> int" where
  "fl_round_as_i16 FNan = 0"
| "fl_round_as_i16 (FInf neg) = (if neg then -32768 else 32767)"
| "fl_round_as_i16 (FFin q) = max (-32768) (min 32767 (round_half_away q))"

lemma fl_as_u32_bound: "fl_as_u32 x \<le> u32_max"
  by (cases x) simp_all

lemma fl_round_as_i16_bound: "-32768 \<le> fl_round_as_i16 x \<and> fl_round_as_i16 x \<le> 32767"
  by (cases x) simp_all

section \<open>Parsing decimals\<close>

definition digits_value :: "ustr \<Rightarrow> nat" where
  "digits_value ds = foldl (\<lambda>n d. 10 * n + (d - 48)) 0 ds"

text \<open>An optional sign.\<close>

definition take_sign :: "ustr \<Rightarrow> bool \<times> ustr" where
  "take_sign s = (case s of c # r \<Rightarrow> if c = 45 then (True, r) else if c = 43 then (False, r) else (False, s)
                          | [] \<Rightarrow> (False, s))"

text \<open>The exponent part: absent, or \<open>e\<close> with an optional sign and digits to the end.\<close>

definition parse_exponent :: "ustr \<Rightarrow> int option" where
  "parse_exponent s =
     (case s of
        [] \<Rightarrow> Some 0
      | c # r \<Rightarrow>
          if to_ascii_lowercase c = 101 then
            (let (neg, ds) = take_sign r in
             if ds \<noteq> [] \<and> list_all is_ascii_digit ds
             then Some (if neg then - int (digits_value ds) else int (digits_value ds)) else None)
          else None)"

definition parse_decimal :: "float_format \<Rightarrow> bool \<Rightarrow> ustr \<Rightarrow> fl option" where
  "parse_decimal fmt neg s =
     (let whole = takeWhile is_ascii_digit s; r = dropWhile is_ascii_digit s;
          (frac, r') = (case r of c # t \<Rightarrow> if c = 46 then (takeWhile is_ascii_digit t, dropWhile is_ascii_digit t)
                                          else ([], r)
                                | [] \<Rightarrow> ([], r)) in
      if whole = [] \<and> frac = [] then None
      else map_option (\<lambda>e.
             fl_round fmt ((if neg then -1 else 1) * of_nat (digits_value (whole @ frac))
                            * 10 powi (e - int (length frac)))) (parse_exponent r'))"

definition parse_float :: "float_format \<Rightarrow> ustr \<Rightarrow> fl option" where
  "parse_float fmt s =
     (let (neg, r) = take_sign s; low = map to_ascii_lowercase r in
      if low = lit ''inf'' \<or> low = lit ''infinity'' then Some (FInf neg)
      else if low = lit ''nan'' then Some FNan
      else parse_decimal fmt neg r)"

text \<open>\<open>parse::<u32>\<close>.\<close>

definition parse_u32 :: "ustr \<Rightarrow> nat option" where
  "parse_u32 s =
     (let ds = (case s of c # r \<Rightarrow> if c = 43 then r else s | [] \<Rightarrow> []) in
      if ds \<noteq> [] \<and> list_all is_ascii_digit ds \<and> digits_value ds \<le> u32_max
      then Some (digits_value ds) else None)"

end
