(* ===== verification/Scan.thy ===== *)
theory Scan
  imports Signature Floats
begin

text \<open>
  Turning the text of a BSS scan into observations (\<open>radio/src/scan.rs\<close>): the line loop with its
  current record, the field lines, the security flags settled at the end of a record, the printed
  element names and the \<open>\xNN\<close> escapes of network names.
\<close>

section \<open>The parser\<close>

definition PRINTED_ELEMENT_NAMES :: "(ustr \<times> u8) list" where
  "PRINTED_ELEMENT_NAMES =
     [(lit ''SSID:'', 0), (lit ''Supported rates:'', 1), (lit ''DS Parameter set:'', 3),
      (lit ''TIM:'', 5), (lit ''Country:'', 7), (lit ''ERP:'', 42), (lit ''RSN:'', 48),
      (lit ''Extended supported rates:'', 50), (lit ''HT capabilities:'', 45),
      (lit ''HT operation:'', 61), (lit ''Extended capabilities:'', 127),
      (lit ''VHT capabilities:'', 191), (lit ''VHT operation:'', 192)]"

text \<open>The loop of \<open>unescape_iw\<close> on the bytes that remain.\<close>

function unescape_bytes :: "bytes \<Rightarrow> bytes" where
  "unescape_bytes raw =
     (if raw = [] then []
      else if raw ! 0 = 0x5c \<and> 3 < length raw \<and> raw ! 1 = 0x78
              \<and> to_digit16 (unat (raw ! 2)) \<noteq> None \<and> to_digit16 (unat (raw ! 3)) \<noteq> None then
        of_nat (the (to_digit16 (unat (raw ! 2))) * 16 + the (to_digit16 (unat (raw ! 3))))
          # unescape_bytes (drop 4 raw)
      else if raw ! 0 = 0x5c \<and> 1 < length raw \<and> raw ! 1 = 0x5c then
        0x5c # unescape_bytes (drop 2 raw)
      else raw ! 0 # unescape_bytes (drop 1 raw))"
  by pat_completeness auto
termination by (relation "measure length") auto

declare unescape_bytes.simps [simp del]

definition unescape_iw :: "ustr \<Rightarrow> bytes" where
  "unescape_iw text = unescape_bytes (utf8_bytes text)"

definition security_default :: Security where
  "security_default = \<lparr>sec_open = False, sec_wep = False, sec_wpa = False, sec_wpa2 = False,
     sec_wpa3 = False, sec_enterprise = False\<rparr>"

definition finish_security :: "WifiObservation \<Rightarrow> WifiObservation" where
  "finish_security obs =
     (case w_security obs of
        Some sec \<Rightarrow>
          if \<not> sec_open sec \<and> \<not> sec_wpa sec \<and> \<not> sec_wpa2 sec \<and> \<not> sec_wpa3 sec
          then obs\<lparr>w_security := Some (sec\<lparr>sec_wep := True\<rparr>)\<rparr> else obs
      | None \<Rightarrow> obs)"

text \<open>\<open>get_or_insert_with(Security::default)\<close> followed by an update through the reference.\<close>

definition with_security :: "(Security \<Rightarrow> Security) \<Rightarrow> WifiObservation \<Rightarrow> WifiObservation" where
  "with_security f obs =
     obs\<lparr>w_security := Some (f (case w_security obs of Some s \<Rightarrow> s | None \<Rightarrow> security_default))\<rparr>"

definition first_word :: "ustr \<Rightarrow> ustr option" where
  "first_word s =
     (let w = takeWhile (\<lambda>c. \<not> is_whitespace c) (dropWhile is_whitespace s) in
      if w = [] then None else Some w)"

text \<open>The \<open>if let\<close> chain on one line of the current record.\<close>

definition scan_field :: "ustr \<Rightarrow> WifiObservation \<Rightarrow> WifiObservation" where
  "scan_field trimmed obs =
     (case strip_prefix (lit ''freq:'') trimmed of
        Some v \<Rightarrow>
          (case parse_float f64 (trim v) of
             Some freq \<Rightarrow> obs\<lparr>w_frequency_mhz := Some (fl_as_u32 freq)\<rparr> | None \<Rightarrow> obs)
      | None \<Rightarrow>
      case strip_prefix (lit ''signal:'') trimmed of
        Some v \<Rightarrow>
          (case first_word v of
             Some num \<Rightarrow>
               (case parse_float f64 num of
                  Some dbm \<Rightarrow> obs\<lparr>w_rssi_dbm := Some (fl_round_as_i16 dbm)\<rparr> | None \<Rightarrow> obs)
           | None \<Rightarrow> obs)
      | None \<Rightarrow>
      case strip_prefix (lit ''capability:'') trimmed of
        Some v \<Rightarrow>
          with_security (\<lambda>sec. if \<not> contains_sub v (lit ''Privacy'') then sec\<lparr>sec_open := True\<rparr> else sec) obs
      | None \<Rightarrow>
      if starts_with (lit ''RSN:'') trimmed then
        with_security (\<lambda>sec. sec\<lparr>sec_wpa2 := True, sec_open := False\<rparr>) obs
      else if starts_with (lit ''WPA:'') trimmed then
        with_security (\<lambda>sec. sec\<lparr>sec_wpa := True, sec_open := False\<rparr>) obs
      else if starts_with (lit ''WPS:'') trimmed then obs\<lparr>w_wps := True\<rparr>
      else
      case strip_prefix (lit ''* Authentication suites:'') trimmed of
        Some v \<Rightarrow>
          with_security (\<lambda>sec.
            let sec1 = (if contains_sub v (lit ''00-0f-ac:8'') \<or> contains_sub v (lit ''SAE'')
                        then sec\<lparr>sec_wpa3 := True\<rparr> else sec) in
            if contains_sub v (lit ''802.1X'') then sec1\<lparr>sec_enterprise := True\<rparr> else sec1) obs
      | None \<Rightarrow>
      case strip_prefix (lit ''last seen:'') trimmed of
        Some v \<Rightarrow>
          (case first_word v of
             Some num \<Rightarrow>
               (case parse_u32 num of Some ms \<Rightarrow> obs\<lparr>w_last_seen_ms := Some ms\<rparr> | None \<Rightarrow> obs)
           | None \<Rightarrow> obs)
      | None \<Rightarrow>
      case strip_prefix (lit ''SSID:'') trimmed of
        Some v \<Rightarrow>
          (let raw = (case strip_prefix (lit '' '') v of Some r \<Rightarrow> r | None \<Rightarrow> v) in
           obs\<lparr>w_ssid := Some (ssid_from_bytes (unescape_iw raw))\<rparr>)
      | None \<Rightarrow> obs)"

text \<open>The loop over the printed element names.\<close>

fun note_elements :: "(ustr \<times> u8) list \<Rightarrow> ustr \<Rightarrow> InformationElement list \<Rightarrow> InformationElement list" where
  "note_elements [] trimmed ies = ies"
| "note_elements ((name, i) # names) trimmed ies =
     note_elements names trimmed
       (if starts_with name trimmed \<and> \<not> list_ex (\<lambda>ie. ie_id ie = i) ies
        then ies @ [ie_new i []] else ies)"

definition bss_record :: "ustr \<Rightarrow> WifiObservation" where
  "bss_record rest =
     (let word = (case first_word rest of Some w \<Rightarrow> w | None \<Rightarrow> []);
          addr_text = takeWhile (\<lambda>c. c \<noteq> 40) word;
          obs = (case mac_parse addr_text of
                   Inr mac \<Rightarrow> wifi_empty\<lparr>w_bssid := Some mac, w_transmitter := Some mac\<rparr>
                 | Inl _ \<Rightarrow> wifi_empty) in
      obs\<lparr>w_frame := Some BeaconOrProbeResponse\<rparr>)"

type_synonym scan_state = "WifiObservation list \<times> WifiObservation option"

definition flush_record :: "scan_state \<Rightarrow> WifiObservation list" where
  "flush_record st = (case snd st of Some d \<Rightarrow> fst st @ [finish_security d] | None \<Rightarrow> fst st)"

definition scan_line :: "scan_state \<Rightarrow> ustr \<Rightarrow> scan_state" where
  "scan_line st line =
     (let trimmed = trim line in
      case strip_prefix (lit ''BSS '') trimmed of
        Some rest \<Rightarrow> (flush_record st, Some (bss_record rest))
      | None \<Rightarrow>
          (case snd st of
             None \<Rightarrow> st
           | Some obs \<Rightarrow>
               (let obs1 = scan_field trimmed obs in
                (fst st, Some (obs1\<lparr>w_information_elements :=
                   note_elements PRINTED_ELEMENT_NAMES trimmed (w_information_elements obs1)\<rparr>)))))"

text \<open>\<open>str::lines\<close>: a line ending is a line feed, with the carriage return before it if there is one.\<close>

definition chomp :: "ustr \<Rightarrow> ustr" where
  "chomp l =
     (if l \<noteq> [] \<and> last l = 10 then
        (let b = butlast l in if b \<noteq> [] \<and> last b = 13 then butlast b else b)
      else l)"

definition str_lines :: "ustr \<Rightarrow> ustr list" where
  "str_lines s = map chomp (split_inclusive 10 s)"

definition parse_iw_scan :: "ustr \<Rightarrow> WifiObservation list" where
  "parse_iw_scan output = flush_record (foldl scan_line ([], None) (str_lines output))"

section \<open>What a parsed record looks like\<close>

definition ssid_bounded :: "Ssid option \<Rightarrow> bool" where
  "ssid_bounded s \<longleftrightarrow>
     (case s of Some (Named bs) \<Rightarrow> bs \<noteq> [] \<and> length bs \<le> SSID_MAX_LEN | _ \<Rightarrow> True)"

definition scan_wf :: "WifiObservation \<Rightarrow> bool" where
  "scan_wf w \<longleftrightarrow>
     w_frame w = Some BeaconOrProbeResponse \<and> w_transmitter w = w_bssid w
     \<and> w_receiver w = None \<and> w_addr3 w = None
     \<and> (\<forall>ie \<in> set (w_information_elements w). ie_data ie = []) \<and> distinct (map ie_id (w_information_elements w))
     \<and> ssid_bounded (w_ssid w)"

lemma ssid_from_bytes_bounded [simp]: "ssid_bounded (Some (ssid_from_bytes bs))"
  by (simp add: ssid_bounded_def ssid_from_bytes_def Let_def SSID_MAX_LEN_def)

text \<open>The updates one line can make.\<close>

lemma scan_field_cases:
  assumes "P obs"
    and "\<And>v. P (obs\<lparr>w_frequency_mhz := v\<rparr>)" and "\<And>v. P (obs\<lparr>w_rssi_dbm := v\<rparr>)"
    and "\<And>v. P (obs\<lparr>w_wps := v\<rparr>)" and "\<And>v. P (obs\<lparr>w_last_seen_ms := v\<rparr>)"
    and "\<And>bs. P (obs\<lparr>w_ssid := Some (ssid_from_bytes bs)\<rparr>)"
    and "\<And>f. (\<And>s. sec_wep (f s) = sec_wep s) \<Longrightarrow> P (with_security f obs)"
  shows "P (scan_field trimmed obs)"
  unfolding scan_field_def Let_def
  by (simp add: assms split: option.split del: lit_simps)

lemma scan_field_wf: "scan_wf obs \<Longrightarrow> scan_wf (scan_field trimmed obs)"
  by (rule scan_field_cases) (simp_all add: scan_wf_def with_security_def)

lemma note_elements_wf:
  "(\<forall>ie \<in> set ies. ie_data ie = []) \<and> distinct (map ie_id ies) \<Longrightarrow>
    (\<forall>ie \<in> set (note_elements names trimmed ies). ie_data ie = [])
    \<and> distinct (map ie_id (note_elements names trimmed ies))"
proof (induction names trimmed ies rule: note_elements.induct)
  case (2 name i names trimmed ies)
  show ?case unfolding note_elements.simps
    by (rule "2.IH") (use "2.prems" in \<open>auto simp: ie_new_def Let_def list_ex_iff\<close>)
qed simp

lemma bss_record_wf: "scan_wf (bss_record rest)"
  by (auto simp: bss_record_def wifi_empty_def scan_wf_def ssid_bounded_def Let_def split: sum.splits option.splits)

lemma finish_security_wf: "scan_wf obs \<Longrightarrow> scan_wf (finish_security obs)"
  by (auto simp: finish_security_def scan_wf_def split: option.splits)

text \<open>A property kept by every step of the line loop holds of every result.\<close>

locale record_invariant =
  fixes ok :: "WifiObservation \<Rightarrow> bool" and good :: "WifiObservation \<Rightarrow> bool"
  assumes record_start: "ok (bss_record rest)"
    and record_field: "ok obs \<Longrightarrow> ok (scan_field trimmed obs)"
    and record_elements: "ok obs \<Longrightarrow> ok (obs\<lparr>w_information_elements :=
          note_elements PRINTED_ELEMENT_NAMES trimmed (w_information_elements obs)\<rparr>)"
    and record_done: "ok obs \<Longrightarrow> good (finish_security obs)"
begin

definition state_ok :: "scan_state \<Rightarrow> bool" where
  "state_ok st \<longleftrightarrow> (\<forall>w \<in> set (fst st). good w) \<and> (\<forall>w. snd st = Some w \<longrightarrow> ok w)"

lemma flush_good: "state_ok st \<Longrightarrow> w \<in> set (flush_record st) \<Longrightarrow> good w"
  by (auto simp: state_ok_def flush_record_def record_done split: option.splits)

lemma scan_line_ok: "state_ok st \<Longrightarrow> state_ok (scan_line st line)"
  using flush_good [of st]
  by (auto simp: state_ok_def scan_line_def Let_def record_start record_field record_elements split: option.splits)

lemma foldl_ok: "state_ok st \<Longrightarrow> state_ok (foldl scan_line st lines)"
  by (induction lines arbitrary: st) (simp_all add: scan_line_ok)

lemma parse_good: "w \<in> set (parse_iw_scan output) \<Longrightarrow> good w"
proof -
  have "state_ok ([], None)" by (simp add: state_ok_def)
  then show "w \<in> set (parse_iw_scan output) \<Longrightarrow> good w"
    unfolding parse_iw_scan_def using flush_good foldl_ok by blast
qed

end

interpretation shape: record_invariant scan_wf scan_wf
proof unfold_locales
  fix obs trimmed
  assume "scan_wf obs"
  then show "scan_wf (obs\<lparr>w_information_elements :=
      note_elements PRINTED_ELEMENT_NAMES trimmed (w_information_elements obs)\<rparr>)"
    using note_elements_wf [of "w_information_elements obs" PRINTED_ELEMENT_NAMES trimmed]
    by (simp add: scan_wf_def)
qed (simp_all add: bss_record_wf scan_field_wf finish_security_wf)

text \<open>The security flags of a finished record.\<close>

definition security_settled :: "WifiObservation \<Rightarrow> bool" where
  "security_settled w \<longleftrightarrow>
     (case w_security w of None \<Rightarrow> True
      | Some s \<Rightarrow> sec_wep s \<longleftrightarrow> \<not> sec_open s \<and> \<not> sec_wpa s \<and> \<not> sec_wpa2 s \<and> \<not> sec_wpa3 s)"

definition wep_unset :: "WifiObservation \<Rightarrow> bool" where
  "wep_unset w \<longleftrightarrow> (case w_security w of None \<Rightarrow> True | Some s \<Rightarrow> \<not> sec_wep s)"

lemma scan_field_wep: "wep_unset obs \<Longrightarrow> wep_unset (scan_field trimmed obs)"
  by (rule scan_field_cases)
    (simp_all add: wep_unset_def with_security_def security_default_def split: option.splits)

lemma finish_settles: "wep_unset obs \<Longrightarrow> security_settled (finish_security obs)"
  by (auto simp: wep_unset_def security_settled_def finish_security_def split: option.splits)

interpretation security: record_invariant wep_unset security_settled
proof unfold_locales
  show "wep_unset (bss_record rest)" for rest
    by (auto simp: bss_record_def wifi_empty_def wep_unset_def Let_def split: sum.splits option.splits)
qed (simp_all add: scan_field_wep finish_settles, simp add: wep_unset_def)

section \<open>Escapes\<close>

text \<open>The ways a byte can be written in the text: itself when it is printable ASCII other than a
  backslash, as an escape with two hex digits, or, for a backslash, doubled.\<close>

definition spells :: "u8 \<Rightarrow> ustr \<Rightarrow> bool" where
  "spells b s \<longleftrightarrow> (unat b < 128 \<and> b \<noteq> 0x5c \<and> s = [unat b]) \<or> s = [0x5c, 0x78] @ hex_byte b
     \<or> (b = 0x5c \<and> s = [0x5c, 0x5c])"

lemma utf8_ascii [simp]: "c < 128 \<Longrightarrow> utf8_char c = [of_nat c]"
  by (simp add: utf8_char_def)

lemma utf8_bytes_simps [simp]:
  "utf8_bytes [] = []" "utf8_bytes (c # s) = utf8_char c @ utf8_bytes s"
  "utf8_bytes (s @ t) = utf8_bytes s @ utf8_bytes t"
  by (simp_all add: utf8_bytes_def)

lemma unescape_plain: "b \<noteq> 0x5c \<Longrightarrow> unescape_bytes (b # rest) = b # unescape_bytes rest"
  by (simp add: unescape_bytes.simps [of "b # rest"])

lemma unescape_backslash: "unescape_bytes (0x5c # 0x5c # rest) = 0x5c # unescape_bytes rest"
  by (simp add: unescape_bytes.simps [of "0x5c # 0x5c # rest"])

lemma hex_digit_ascii: "n < 16 \<Longrightarrow> hex_digit n < 128"
  by (simp add: hex_digit_def)

lemma unescape_hex:
  assumes "m < 16" and "n < 16"
  shows "unescape_bytes (0x5c # 0x78 # of_nat (hex_digit m) # of_nat (hex_digit n) # rest)
    = of_nat (m * 16 + n) # unescape_bytes rest"
proof -
  have "unat (of_nat (hex_digit k) :: u8) = hex_digit k" if "k < 16" for k
    using hex_digit_ascii [OF that] by simp
  with assms show ?thesis
    by (simp add: unescape_bytes.simps [of "0x5c # 0x78 # of_nat (hex_digit m) # _"] numeral_2_eq_2 numeral_3_eq_3
        numeral_eq_Suc [of "num.Bit0 (num.Bit0 num.One)"])
qed

lemma unescape_spelled: "spells b s \<Longrightarrow> unescape_bytes (utf8_bytes s @ rest) = b # unescape_bytes rest"
proof -
  assume "spells b s"
  then consider "unat b < 128" "b \<noteq> 0x5c" "s = [unat b]" | "s = [0x5c, 0x78] @ hex_byte b" | "b = 0x5c" "s = [0x5c, 0x5c]"
    unfolding spells_def by blast
  then show ?thesis
  proof cases
    case 1
    then show ?thesis by (simp add: unescape_plain)
  next
    case 2
    have "unat b div 16 < 16" "unat b mod 16 < 16" by (simp_all add: less_mult_imp_div_less)
    with 2 show ?thesis using unescape_hex [of "unat b div 16" "unat b mod 16" rest] hex_digit_ascii
      by (simp add: hex_byte_def div_mult_mod_eq del: of_nat_add of_nat_mult)
  next
    case 3
    then show ?thesis by (simp add: unescape_backslash)
  qed
qed

section \<open>Properties\<close>

text \<open>C37: Whatever text the scanner prints, and so whatever a hostile access point put into it, every
  observation parsed from it is one of the access point itself: receiver and third address absent,
  transmitter equal to the BSSID, frame kind \<open>beacon or probe response\<close>, SSID within its limit, each
  element listed once and no element payload invented.\<close>

theorem parse_iw_scan_wf:
  assumes "w \<in> set (parse_iw_scan output)"
  shows "scan_wf w"
  using assms by (rule shape.parse_good)

theorem parse_iw_scan_wf_witness:
  "scan_wf (finish_security ((bss_record (lit ''70:b3:d5:7c:b4:01''))\<lparr>w_wps := True\<rparr>))"
proof (rule parse_iw_scan_wf)
  show "finish_security ((bss_record (lit ''70:b3:d5:7c:b4:01''))\<lparr>w_wps := True\<rparr>)
    \<in> set (parse_iw_scan (lit ''BSS 70:b3:d5:7c:b4:01'' @ [10] @ lit ''WPS:''))"
    by (simp add: parse_iw_scan_def str_lines_def chomp_def flush_record_def scan_line_def scan_field_def
        trim_def trim_start_def trim_end_def is_whitespace_def starts_with_def PRINTED_ELEMENT_NAMES_def Let_def)
qed

text \<open>The protection shown for a network is always settled: once security was mentioned at all, WEP
  is concluded exactly when the network is neither open nor advertises any WPA generation, so the
  label is never \<open>Unknown\<close>.\<close>

theorem parse_iw_scan_security_settled:
  assumes "w \<in> set (parse_iw_scan output)" and "w_security w = Some s"
  shows "(sec_wep s \<longleftrightarrow> \<not> sec_open s \<and> \<not> sec_wpa s \<and> \<not> sec_wpa2 s \<and> \<not> sec_wpa3 s)
    \<and> security_label s \<noteq> lit ''Unknown''"
proof -
  have settled: "sec_wep s \<longleftrightarrow> \<not> sec_open s \<and> \<not> sec_wpa s \<and> \<not> sec_wpa2 s \<and> \<not> sec_wpa3 s"
    using security.parse_good [OF assms(1)] assms(2) by (simp add: security_settled_def)
  moreover from settled have "security_label s \<noteq> lit ''Unknown''"
    by (auto simp: security_label_def Let_def)
  ultimately show ?thesis by blast
qed

theorem parse_iw_scan_security_settled_witness:
  "security_label (security_default\<lparr>sec_wep := True\<rparr>) \<noteq> lit ''Unknown''"
proof -
  let ?w = "finish_security (with_security (\<lambda>s. s) (bss_record (lit ''70:b3:d5:7c:b4:01'')))"
  have "?w \<in> set (parse_iw_scan (lit ''BSS 70:b3:d5:7c:b4:01'' @ [10] @ lit ''capability: Privacy''))"
    by (simp add: parse_iw_scan_def str_lines_def chomp_def flush_record_def scan_line_def scan_field_def
        trim_def trim_start_def trim_end_def is_whitespace_def starts_with_def PRINTED_ELEMENT_NAMES_def Let_def
        with_security_def)
  moreover have "w_security ?w = Some (security_default\<lparr>sec_wep := True\<rparr>)"
    by (simp add: finish_security_def with_security_def bss_record_def wifi_empty_def security_default_def Let_def
        split: sum.splits)
  ultimately show ?thesis using parse_iw_scan_security_settled by blast
qed

text \<open>A network name survives the scanner's escaping: however each byte was written, plainly, as
  \<open>\xNN\<close> or as a doubled backslash, unescaping the text gives the bytes of the name.\<close>

theorem unescape_iw_round_trip:
  assumes "list_all2 spells name parts"
  shows "unescape_iw (concat parts) = name"
  unfolding unescape_iw_def using assms
proof (induction rule: list_all2_induct)
  case Nil
  then show ?case by (simp add: unescape_bytes.simps)
next
  case (Cons b bs s ss)
  then show ?case using unescape_spelled by simp
qed

theorem unescape_iw_round_trip_witness:
  "unescape_iw (concat [lit ''J'', 0x5c # lit ''xe2'', 0x5c # lit ''x80'', 0x5c # lit ''x99'', lit ''s'']) = [0x4a, 0xe2, 0x80, 0x99, 0x73]"
  by (rule unescape_iw_round_trip) (simp add: spells_def hex_byte_def hex_digit_def)

end
