(* ===== verification/Persistence.thy ===== *)
theory Persistence
  imports Observation Floats "HOL-Library.Multiset"
begin

text \<open>
  Has this device followed me (\<open>radio/src/persistence.rs\<close>): the environment tracker that infers
  movement from the change of the visible access points, the bounded store of sightings, and the score
  with its classification. The arithmetic is the program's \<open>f32\<close> arithmetic, rounded operation by
  operation. A \<open>HashMap\<close> is the list of its entries, and the order in which it iterates is a parameter
  (\<open>iter\<close>) of the operations that iterate, of which nothing is known but that it lists the entries.
  Times are integer nanoseconds; the texts of the reasons are structured values.
\<close>

section \<open>Classification\<close>

datatype Persistence =
  Incidental | Persistent | UnusuallyPersistent | PossibleFollowing | HighConfidenceFollowing

fun persistence_rank :: "Persistence \<Rightarrow> nat" where
  "persistence_rank Incidental = 0"
| "persistence_rank Persistent = 1"
| "persistence_rank UnusuallyPersistent = 2"
| "persistence_rank PossibleFollowing = 3"
| "persistence_rank HighConfidenceFollowing = 4"

lemma persistence_rank_inject [simp]: "persistence_rank a = persistence_rank b \<longleftrightarrow> a = b"
  by (cases a; cases b) simp_all

instantiation Persistence :: linorder
begin
definition less_eq_Persistence :: "Persistence \<Rightarrow> Persistence \<Rightarrow> bool" where
  "a \<le> b \<longleftrightarrow> persistence_rank a \<le> persistence_rank b"
definition less_Persistence :: "Persistence \<Rightarrow> Persistence \<Rightarrow> bool" where
  "a < b \<longleftrightarrow> persistence_rank a < persistence_rank b"
instance
  by standard (auto simp: less_eq_Persistence_def less_Persistence_def)
end

fun persistence_label :: "Persistence \<Rightarrow> ustr" where
  "persistence_label Incidental = lit ''incidental''"
| "persistence_label Persistent = lit ''persistent''"
| "persistence_label UnusuallyPersistent = lit ''unusually persistent''"
| "persistence_label PossibleFollowing = lit ''possible following behaviour''"
| "persistence_label HighConfidenceFollowing = lit ''correlated following behaviour''"

record PersistenceConfig =
  min_sightings :: nat
  temporal_saturation_hours :: fl
  reappearance_gap :: int
  environment_saturation :: nat
  density_saturation :: nat
  max_tracked_devices :: nat
  max_sightings_per_device :: nat

definition persistence_default :: PersistenceConfig where
  "persistence_default = \<lparr>min_sightings = 3, temporal_saturation_hours = FFin 4,
     reappearance_gap = 10 * 60 * 1000000000, environment_saturation = 4, density_saturation = 20,
     max_tracked_devices = 512, max_sightings_per_device = 64\<rparr>"

datatype PersistenceReason =
    SeenTimes nat fl
  | PresentIn nat
  | OnlyOneSurroundings
  | LeftAndReturned nat
  | SignalAveraged int int int
  | NotTreatedAsFollowing

record PersistenceScore =
  ps_score :: fl
  ps_classification :: Persistence
  ps_sightings :: nat
  ps_distinct_environments :: nat
  ps_reappearances :: nat
  ps_span_hours :: fl
  ps_reasons :: "PersistenceReason list"

section \<open>Environments\<close>

record EnvironmentTracker =
  env_current :: "MacAddr list"
  env_index :: nat
  similarity_threshold :: fl
  min_anchors :: nat

definition environment_default :: EnvironmentTracker where
  "environment_default = \<lparr>env_current = [], env_index = 0, similarity_threshold = FFin (1 / 2), min_anchors = 3\<rparr>"

definition environment_observe :: "EnvironmentTracker \<Rightarrow> MacAddr list \<Rightarrow> EnvironmentTracker \<times> bool" where
  "environment_observe t visible =
     (if length visible < min_anchors t then (t, False)
      else if env_current t = [] then (t\<lparr>env_current := visible\<rparr>, False)
      else
        (let overlap = length (filter (\<lambda>m. m \<in> set (env_current t)) visible);
             smaller = fl_of_nat f32 (min (length (env_current t)) (length visible));
             similarity = fl_div f32 (fl_of_nat f32 overlap) smaller;
             t1 = t\<lparr>env_current := visible\<rparr> in
         if fl_less similarity (similarity_threshold t)
         then (t1\<lparr>env_index := sat_add_u32 (env_index t1) 1\<rparr>, True)
         else (t1, False)))"

section \<open>Sightings\<close>

record Sighting =
  si_at :: datetime
  si_environment :: nat
  si_rssi_dbm :: "int option"

record DeviceHistory =
  dh_sightings :: "Sighting list"
  dh_last_seen :: datetime

record PersistenceTracker =
  pt_config :: PersistenceConfig
  pt_devices :: "(ustr \<times> DeviceHistory) list"

definition tracker_new :: "PersistenceConfig \<Rightarrow> PersistenceTracker" where
  "tracker_new config = \<lparr>pt_config = config, pt_devices = []\<rparr>"

definition tracked_devices :: "PersistenceTracker \<Rightarrow> nat" where
  "tracked_devices t = length (pt_devices t)"

text \<open>\<open>min_by_key\<close>: the first of the least.\<close>

fun min_by :: "('a \<Rightarrow> 'k :: linorder) \<Rightarrow> 'a list \<Rightarrow> 'a option" where
  "min_by key [] = None"
| "min_by key (x # xs) =
     (case min_by key xs of None \<Rightarrow> Some x | Some m \<Rightarrow> Some (if key x \<le> key m then x else m))"

type_synonym iteration = "(ustr \<times> DeviceHistory) list \<Rightarrow> (ustr \<times> DeviceHistory) list"

definition evict_oldest :: "iteration \<Rightarrow> PersistenceTracker \<Rightarrow> PersistenceTracker" where
  "evict_oldest iter t =
     (case min_by (\<lambda>(_, h). dh_last_seen h) (iter (pt_devices t)) of
        Some (k, _) \<Rightarrow> t\<lparr>pt_devices := filter (\<lambda>d. fst d \<noteq> k) (pt_devices t)\<rparr>
      | None \<Rightarrow> t)"

text \<open>The update of one history in \<open>record\<close>.\<close>

definition push_sighting :: "PersistenceConfig \<Rightarrow> Sighting \<Rightarrow> DeviceHistory \<Rightarrow> DeviceHistory" where
  "push_sighting config s h =
     (let xs = dh_sightings h @ [s];
          ys = (if length xs > max_sightings_per_device config then tl xs else xs) in
      h\<lparr>dh_sightings := ys, dh_last_seen := (if si_at s > dh_last_seen h then si_at s else dh_last_seen h)\<rparr>)"

definition tracker_record ::
  "iteration \<Rightarrow> PersistenceTracker \<Rightarrow> ustr \<Rightarrow> datetime \<Rightarrow> nat \<Rightarrow> int option \<Rightarrow> PersistenceTracker" where
  "tracker_record iter t key when environment rssi =
     (let known = (\<lambda>u. key \<in> fst ` set (pt_devices u));
          t1 = (if \<not> known t \<and> tracked_devices t \<ge> max_tracked_devices (pt_config t)
                then evict_oldest iter t else t);
          t2 = (if known t1 then t1
                else t1\<lparr>pt_devices := pt_devices t1 @ [(key, \<lparr>dh_sightings = [], dh_last_seen = when\<rparr>)]\<rparr>);
          s = \<lparr>si_at = when, si_environment = environment, si_rssi_dbm = rssi\<rparr> in
      t2\<lparr>pt_devices := map (\<lambda>(k, h). (k, if k = key then push_sighting (pt_config t) s h else h)) (pt_devices t2)\<rparr>)"

definition tracker_prune :: "PersistenceTracker \<Rightarrow> datetime \<Rightarrow> PersistenceTracker" where
  "tracker_prune t cutoff =
     t\<lparr>pt_devices := filter (\<lambda>(_, h). dh_sightings h \<noteq> [])
         (map (\<lambda>(k, h). (k, h\<lparr>dh_sightings := filter (\<lambda>s. si_at s \<ge> cutoff) (dh_sightings h)\<rparr>)) (pt_devices t))\<rparr>"

section \<open>Scoring\<close>

definition fl_const :: "rat \<Rightarrow> fl" where "fl_const q = fl_round f32 q"

definition classify :: "fl \<Rightarrow> nat \<Rightarrow> Persistence" where
  "classify score distinct_environments =
     (if distinct_environments \<le> 1 then
        (if fl_ge score (fl_const (4 / 10)) then UnusuallyPersistent
         else if fl_ge score (fl_const (2 / 10)) then Persistent else Incidental)
      else if fl_ge score (fl_const (8 / 10)) then HighConfidenceFollowing
      else if fl_ge score (fl_const (6 / 10)) then PossibleFollowing
      else if fl_ge score (fl_const (4 / 10)) then UnusuallyPersistent
      else if fl_ge score (fl_const (2 / 10)) then Persistent else Incidental)"

text \<open>Integer division of the program truncates towards zero.\<close>

definition div_trunc :: "int \<Rightarrow> int \<Rightarrow> int" where
  "div_trunc a b = sgn a * sgn b * (\<bar>a\<bar> div \<bar>b\<bar>)"

definition rssi_summary :: "Sighting list \<Rightarrow> PersistenceReason option" where
  "rssi_summary sightings =
     (let vals = List.map_filter si_rssi_dbm sightings in
      if length vals < 3 then None
      else Some (SignalAveraged (div_trunc (sum_list vals) (int (length vals)))
                   (Min (set vals)) (Max (set vals))))"

text \<open>\<open>sort_unstable\<close> and \<open>dedup\<close>, then the length.\<close>

definition distinct_count :: "nat list \<Rightarrow> nat" where
  "distinct_count xs = length (remdups_adj (sort xs))"

definition count_reappearances :: "int \<Rightarrow> Sighting list \<Rightarrow> nat" where
  "count_reappearances gap ss = length (filter (\<lambda>(a, b). si_at b - si_at a > gap) (zip ss (tl ss)))"

definition span_hours_of :: "Sighting list \<Rightarrow> fl" where
  "span_hours_of ss =
     fl_div f32 (fl_round f32 (of_int (max ((si_at (last ss) - si_at (hd ss)) div 1000000000) 0))) (FFin 3600)"

definition movement_of :: "PersistenceConfig \<Rightarrow> nat \<Rightarrow> fl" where
  "movement_of config distinct_environments =
     (if environment_saturation config > 1 then
        fl_clamp01 (fl_div f32 (fl_of_nat f32 (distinct_environments - 1))
          (fl_of_nat f32 (environment_saturation config - 1)))
      else FFin 0)"

definition combine_score :: "fl \<Rightarrow> fl \<Rightarrow> fl \<Rightarrow> fl \<Rightarrow> fl" where
  "combine_score movement temporal recurrence density =
     fl_clamp01 (fl_add f32 (fl_add f32 (fl_add f32
       (fl_mul f32 (fl_const (40 / 100)) movement) (fl_mul f32 (fl_const (25 / 100)) temporal))
       (fl_mul f32 (fl_const (25 / 100)) recurrence)) (fl_mul f32 (fl_const (10 / 100)) density))"

definition score_history :: "PersistenceConfig \<Rightarrow> Sighting list \<Rightarrow> PersistenceScore option" where
  "score_history config ss =
     (let sightings = length ss mod 4294967296 in
      if sightings < min_sightings config then None
      else if ss = [] then None
      else
        (let span_hours = span_hours_of ss;
             distinct_environments = distinct_count (map si_environment ss);
             reappearances = count_reappearances (reappearance_gap config) ss;
             temporal = fl_clamp01 (fl_div f32 span_hours (temporal_saturation_hours config));
             recurrence = fl_clamp01 (fl_div f32 (fl_of_nat f32 reappearances) (FFin 5));
             movement = movement_of config distinct_environments;
             density = fl_clamp01 (fl_div f32 (fl_of_nat f32 sightings) (fl_of_nat f32 (density_saturation config)));
             score = combine_score movement temporal recurrence density in
         Some \<lparr>ps_score = score, ps_classification = classify score distinct_environments,
               ps_sightings = sightings, ps_distinct_environments = distinct_environments,
               ps_reappearances = reappearances, ps_span_hours = span_hours,
               ps_reasons =
                 [SeenTimes sightings span_hours,
                  if distinct_environments > 1 then PresentIn distinct_environments else OnlyOneSurroundings]
                 @ (if reappearances > 0 then [LeftAndReturned reappearances] else [])
                 @ (case rssi_summary ss of Some trend \<Rightarrow> [trend] | None \<Rightarrow> [])
                 @ (if distinct_environments \<le> 1 \<and> fl_ge score (fl_const (6 / 10))
                    then [NotTreatedAsFollowing] else [])\<rparr>))"

definition tracker_score :: "PersistenceTracker \<Rightarrow> ustr \<Rightarrow> PersistenceScore option" where
  "tracker_score t key =
     (case map_of (pt_devices t) key of
        None \<Rightarrow> None
      | Some history \<Rightarrow> score_history (pt_config t) (dh_sightings history))"

text \<open>\<open>above\<close>: the sort is stable and puts the higher score first. (Scores are not NaN, so its
  comparison is a total preorder.)\<close>

fun insert_scored :: "ustr \<times> PersistenceScore \<Rightarrow> (ustr \<times> PersistenceScore) list \<Rightarrow> (ustr \<times> PersistenceScore) list" where
  "insert_scored x [] = [x]"
| "insert_scored x (y # ys) =
     (if fl_less (ps_score (snd x)) (ps_score (snd y)) then y # insert_scored x ys else x # y # ys)"

definition above :: "iteration \<Rightarrow> PersistenceTracker \<Rightarrow> Persistence \<Rightarrow> (ustr \<times> PersistenceScore) list" where
  "above iter t flr =
     foldr insert_scored
       (filter (\<lambda>(_, s). ps_classification s \<ge> flr)
         (List.map_filter (\<lambda>(k, _). map_option (\<lambda>s. (k, s)) (tracker_score t k)) (iter (pt_devices t)))) []"

section \<open>Bounds on the store\<close>

definition tracker_wf :: "PersistenceConfig \<Rightarrow> PersistenceTracker \<Rightarrow> bool" where
  "tracker_wf config t \<longleftrightarrow>
     pt_config t = config \<and> distinct (map fst (pt_devices t))
     \<and> length (pt_devices t) \<le> max 1 (max_tracked_devices config)
     \<and> (\<forall>(k, h) \<in> set (pt_devices t). length (dh_sightings h) \<le> max_sightings_per_device config)"

text \<open>The histories of the program: any sequence of sightings and prunings, with any iteration order of
  the table each time.\<close>

inductive reachable_tracker :: "PersistenceConfig \<Rightarrow> PersistenceTracker \<Rightarrow> bool"
  for config :: PersistenceConfig where
  start: "reachable_tracker config (tracker_new config)"
| seen: "reachable_tracker config t \<Longrightarrow> \<forall>m. mset (iter m) = mset m \<Longrightarrow>
    reachable_tracker config (tracker_record iter t key when environment rssi)"
| pruned: "reachable_tracker config t \<Longrightarrow> reachable_tracker config (tracker_prune t cutoff)"

lemma min_by_least: "min_by key xs = Some m \<Longrightarrow> m \<in> set xs \<and> (\<forall>x \<in> set xs. key m \<le> key x)"
proof (induction xs arbitrary: m)
  case Nil
  then show ?case by simp
next
  case (Cons x xs)
  show ?case
  proof (cases "min_by key xs")
    case None
    then have "xs = []" by (cases xs) (auto split: option.splits)
    with Cons.prems show ?thesis by simp
  next
    case (Some n)
    with Cons show ?thesis by (fastforce split: if_splits)
  qed
qed

lemma min_by_None: "min_by key xs = None \<longleftrightarrow> xs = []"
  by (cases xs) (simp_all split: option.splits)

lemma evict_oldest_config [simp]: "pt_config (evict_oldest iter t) = pt_config t"
  by (simp add: evict_oldest_def split: option.splits prod.splits)

lemma evict_oldest_subset: "set (pt_devices (evict_oldest iter t)) \<subseteq> set (pt_devices t)"
  by (auto simp: evict_oldest_def split: option.splits)

lemma evict_oldest_distinct:
  "distinct (map fst (pt_devices t)) \<Longrightarrow> distinct (map fst (pt_devices (evict_oldest iter t)))"
  by (simp add: evict_oldest_def distinct_map_filter split: option.splits prod.splits)

lemma evict_oldest_length:
  assumes "mset (iter (pt_devices t)) = mset (pt_devices t)"
  shows "length (pt_devices (evict_oldest iter t)) \<le> length (pt_devices t) - 1"
proof (cases "min_by (\<lambda>(_, h). dh_last_seen h) (iter (pt_devices t))")
  case None
  then have "iter (pt_devices t) = []" by (simp add: min_by_None)
  with assms have "pt_devices t = []" by simp
  with None show ?thesis by (simp add: evict_oldest_def)
next
  case (Some d)
  then have "d \<in> set (pt_devices t)" using min_by_least assms mset_eq_setD by metis
  then have "length (filter (\<lambda>e. fst e \<noteq> fst d) (pt_devices t)) < length (pt_devices t)"
    by (intro length_filter_less) auto
  with Some show ?thesis by (cases d) (simp add: evict_oldest_def)
qed

lemma push_sighting_bound:
  "length (dh_sightings h) \<le> max_sightings_per_device config \<Longrightarrow>
    length (dh_sightings (push_sighting config s h)) \<le> max_sightings_per_device config"
  by (auto simp: push_sighting_def Let_def)

lemma tracker_record_wf:
  assumes wf: "tracker_wf config t" and iter: "\<forall>m. mset (iter m) = mset m"
  shows "tracker_wf config (tracker_record iter t key when environment rssi)"
proof -
  let ?cap = "max_tracked_devices config"
  let ?known = "\<lambda>u. key \<in> fst ` set (pt_devices u)"
  define t1 where "t1 = (if \<not> ?known t \<and> tracked_devices t \<ge> ?cap then evict_oldest iter t else t)"
  define t2 where "t2 = (if ?known t1 then t1
      else t1\<lparr>pt_devices := pt_devices t1 @ [(key, \<lparr>dh_sightings = [], dh_last_seen = when\<rparr>)]\<rparr>)"
  have config: "pt_config t = config" using wf by (simp add: tracker_wf_def)
  have t1: "pt_config t1 = config" "distinct (map fst (pt_devices t1))"
    "set (pt_devices t1) \<subseteq> set (pt_devices t)"
    using wf evict_oldest_distinct evict_oldest_subset by (auto simp: t1_def tracker_wf_def)
  have room: "length (pt_devices t1) \<le> max 1 ?cap"
    "\<not> ?known t1 \<Longrightarrow> Suc (length (pt_devices t1)) \<le> max 1 ?cap"
    using wf evict_oldest_length [of iter t] iter by (auto simp: t1_def tracker_wf_def tracked_devices_def split: if_splits)
  have t2: "distinct (map fst (pt_devices t2))" "length (pt_devices t2) \<le> max 1 ?cap" "pt_config t2 = config"
    using t1 room by (auto simp: t2_def)
  have small: "\<forall>(k, h) \<in> set (pt_devices t2). length (dh_sightings h) \<le> max_sightings_per_device config"
    using wf t1(3) by (auto simp: t2_def tracker_wf_def)
  have eq: "tracker_record iter t key when environment rssi = t2\<lparr>pt_devices := map (\<lambda>(k, h). (k, if k = key
      then push_sighting config \<lparr>si_at = when, si_environment = environment, si_rssi_dbm = rssi\<rparr> h else h)) (pt_devices t2)\<rparr>"
    unfolding tracker_record_def Let_def config t1_def [symmetric] t2_def [symmetric] ..
  have keys: "map fst (pt_devices (tracker_record iter t key when environment rssi)) = map fst (pt_devices t2)"
    unfolding eq by (simp add: case_prod_unfold comp_def)
  have "\<forall>(k, h) \<in> set (pt_devices (tracker_record iter t key when environment rssi)).
      length (dh_sightings h) \<le> max_sightings_per_device config"
    unfolding eq using small push_sighting_bound by auto
  then show ?thesis
    unfolding tracker_wf_def keys using t2 by (simp add: eq)
qed

lemma tracker_wf_shrink:
  "tracker_wf config t \<Longrightarrow> pt_config u = pt_config t \<Longrightarrow> distinct (map fst (pt_devices u)) \<Longrightarrow>
    length (pt_devices u) \<le> length (pt_devices t) \<Longrightarrow>
    (\<And>k h. (k, h) \<in> set (pt_devices u) \<Longrightarrow> length (dh_sightings h) \<le> max_sightings_per_device config) \<Longrightarrow>
    tracker_wf config u"
  by (auto simp: tracker_wf_def)

lemma tracker_prune_wf:
  assumes wf: "tracker_wf config t"
  shows "tracker_wf config (tracker_prune t cutoff)"
proof -
  let ?cut = "map (\<lambda>(k, h). (k, h\<lparr>dh_sightings := filter (\<lambda>s. si_at s \<ge> cutoff) (dh_sightings h)\<rparr>)) (pt_devices t)"
  let ?kept = "filter (\<lambda>(_, h). dh_sightings h \<noteq> []) ?cut"
  have devices: "pt_devices (tracker_prune t cutoff) = ?kept" by (simp add: tracker_prune_def)
  have "map fst ?cut = map fst (pt_devices t)" by (simp add: case_prod_unfold comp_def)
  then have "distinct (map fst ?cut)" using wf unfolding tracker_wf_def by metis
  then have dist: "distinct (map fst ?kept)" by (rule distinct_map_filter)
  have len: "length ?kept \<le> length (pt_devices t)" by (rule le_trans [OF length_filter_le]) simp
  have small: "length (dh_sightings h) \<le> max_sightings_per_device config" if kh: "(k, h) \<in> set ?kept" for k h
  proof -
    from kh obtain g where "(k, g) \<in> set (pt_devices t)" "dh_sightings h = filter (\<lambda>s. si_at s \<ge> cutoff) (dh_sightings g)"
      by auto
    moreover from this wf have "length (dh_sightings g) \<le> max_sightings_per_device config"
      by (auto simp: tracker_wf_def)
    ultimately show ?thesis by (metis le_trans length_filter_le)
  qed
  have config: "pt_config (tracker_prune t cutoff) = pt_config t" by (simp add: tracker_prune_def)
  show ?thesis by (rule tracker_wf_shrink [OF wf config]; unfold devices) (fact dist len small)+
qed

lemma reachable_tracker_wf: "reachable_tracker config t \<Longrightarrow> tracker_wf config t"
  by (induction rule: reachable_tracker.induct)
    (simp_all add: tracker_record_wf tracker_prune_wf, simp add: tracker_wf_def tracker_new_def)

section \<open>The score\<close>

lemma distinct_remdups_adj_sorted: "sorted xs \<Longrightarrow> distinct (remdups_adj xs)"
  for xs :: "'a :: linorder list"
  by (induction xs rule: remdups_adj.induct) (auto simp: antisym)

lemma distinct_count_card: "distinct_count xs = card (set xs)"
proof -
  have "distinct (remdups_adj (sort xs))" by (simp add: distinct_remdups_adj_sorted)
  from distinct_card [OF this] show ?thesis by (simp add: distinct_count_def)
qed

lemma classify_following: "PossibleFollowing \<le> classify s n \<Longrightarrow> 2 \<le> n"
  by (auto simp: classify_def less_eq_Persistence_def split: if_splits)

lemma card_two_members: "2 \<le> card A \<Longrightarrow> \<exists>x \<in> A. \<exists>y \<in> A. x \<noteq> y"
proof (rule ccontr)
  assume "2 \<le> card A" and no: "\<not> (\<exists>x \<in> A. \<exists>y \<in> A. x \<noteq> y)"
  then have "finite A" by (metis card.infinite not_numeral_le_zero)
  then have "card A \<le> Suc 0" using no card_le_Suc0_iff_eq by blast
  with \<open>2 \<le> card A\<close> show False by simp
qed

lemma weighted_nonneg:
  assumes "1 / 2 ^ 20 \<le> c" and "c \<le> 2 ^ 32" and "0 \<le> q"
  shows "fl_nonneg (fl_mul f32 (fl_const c) (FFin q))"
proof -
  obtain r where "fl_const c = FFin r" "0 < r"
    using fl_round_f32_finite [OF assms(1,2)] unfolding fl_const_def by blast
  with assms(3) show ?thesis by (simp add: fl_round_nonneg)
qed

lemma combine_score_range:
  assumes "0 \<le> m" and "0 \<le> t" and "0 \<le> r" and "0 \<le> d"
  shows "\<exists>q. combine_score (FFin m) (FFin t) (FFin r) (FFin d) = FFin q \<and> 0 \<le> q \<and> q \<le> 1"
  unfolding combine_score_def
  by (intro fl_clamp01_range fl_nonneg_not_nan fl_nonneg_add weighted_nonneg) (use assms in simp_all)

lemma score_history_fields:
  assumes "score_history config ss = Some s"
  shows "ps_classification s = classify (ps_score s) (distinct_count (map si_environment ss))"
    and "ps_score s = combine_score (movement_of config (distinct_count (map si_environment ss)))
      (fl_clamp01 (fl_div f32 (span_hours_of ss) (temporal_saturation_hours config)))
      (fl_clamp01 (fl_div f32 (fl_of_nat f32 (count_reappearances (reappearance_gap config) ss)) (FFin 5)))
      (fl_clamp01 (fl_div f32 (fl_of_nat f32 (length ss mod 4294967296)) (fl_of_nat f32 (density_saturation config))))"
proof -
  have "\<not> length ss mod 4294967296 < min_sightings config" "ss \<noteq> []"
    using assms unfolding score_history_def Let_def by (metis option.distinct(1))+
  with assms have "s = the (score_history config ss)" by simp
  note s = this [unfolded score_history_def Let_def]
  show "ps_classification s = classify (ps_score s) (distinct_count (map si_environment ss))"
    using s \<open>ss \<noteq> []\<close> \<open>\<not> length ss mod 4294967296 < min_sightings config\<close> by simp
  show "ps_score s = combine_score (movement_of config (distinct_count (map si_environment ss)))
      (fl_clamp01 (fl_div f32 (span_hours_of ss) (temporal_saturation_hours config)))
      (fl_clamp01 (fl_div f32 (fl_of_nat f32 (count_reappearances (reappearance_gap config) ss)) (FFin 5)))
      (fl_clamp01 (fl_div f32 (fl_of_nat f32 (length ss mod 4294967296)) (fl_of_nat f32 (density_saturation config))))"
    using s \<open>ss \<noteq> []\<close> \<open>\<not> length ss mod 4294967296 < min_sightings config\<close> by simp
qed

lemma tracker_score_history:
  "tracker_score t key = Some s \<Longrightarrow>
    \<exists>h. map_of (pt_devices t) key = Some h \<and> score_history (pt_config t) (dh_sightings h) = Some s"
  by (auto simp: tracker_score_def split: option.splits)

lemma movement_range:
  assumes "environment_saturation config \<le> u32_max"
  shows "\<exists>m. movement_of config n = FFin m \<and> 0 \<le> m"
proof (cases "environment_saturation config > 1")
  case True
  then obtain r where "fl_of_nat f32 (environment_saturation config - 1) = FFin r" "r \<noteq> 0"
    using fl_of_nat_f32_finite [of "environment_saturation config - 1"] assms
    by (metis diff_le_self le_trans less_irrefl zero_less_diff)
  then show ?thesis
    using fl_clamp01_range [OF fl_div_not_nan, of "fl_of_nat f32 (n - 1)" r f32] True
    by (auto simp: movement_of_def fl_of_nat_def)
qed (simp add: movement_of_def)

section \<open>Properties\<close>

text \<open>The sighting store is bounded whatever passes by: after any sequence of sightings and prunings
  it holds each device once, at most the configured number of devices and at most the configured
  number of sightings of each.\<close>

theorem tracker_bounded:
  assumes "reachable_tracker config t" and "1 \<le> max_tracked_devices config"
  shows "tracked_devices t \<le> max_tracked_devices config \<and> distinct (map fst (pt_devices t))
    \<and> (\<forall>(k, h) \<in> set (pt_devices t). length (dh_sightings h) \<le> max_sightings_per_device config)"
  using reachable_tracker_wf [OF assms(1)] assms(2) by (auto simp: tracker_wf_def tracked_devices_def)

theorem tracker_bounded_witness:
  "tracked_devices (tracker_record (\<lambda>m. rev m) (tracker_new persistence_default) (lit ''a'') 0 0 None)
    \<le> max_tracked_devices persistence_default"
  using tracker_bounded [OF reachable_tracker.seen [OF reachable_tracker.start], of rev persistence_default]
  by (simp add: persistence_default_def)

text \<open>C39: Persistence alone is never called following: a device classified as possibly following or
  higher has, in the history the tracker holds for it, two sightings in different surroundings.\<close>

theorem following_needs_two_places:
  assumes "tracker_score t key = Some s" and "PossibleFollowing \<le> ps_classification s"
  shows "\<exists>h. map_of (pt_devices t) key = Some h
    \<and> (\<exists>a \<in> set (dh_sightings h). \<exists>b \<in> set (dh_sightings h). si_environment a \<noteq> si_environment b)"
proof -
  from assms(1) obtain h where h: "map_of (pt_devices t) key = Some h"
    and s: "score_history (pt_config t) (dh_sightings h) = Some s"
    using tracker_score_history by blast
  from s assms(2) have "2 \<le> distinct_count (map si_environment (dh_sightings h))"
    using score_history_fields [OF s] classify_following by metis
  then have "2 \<le> card (si_environment ` set (dh_sightings h))" by (simp add: distinct_count_card)
  with h show ?thesis by (auto dest!: card_two_members)
qed

text \<open>A device seen in four surroundings over four hours scores as high as possible.\<close>

lemma rounded_constants [simp]:
  "fl_round f32 1 = FFin 1" "fl_round f32 3 = FFin 3" "fl_round f32 4 = FFin 4" "fl_round f32 5 = FFin 5" "fl_round f32 6 = FFin 6" "fl_round f32 14400 = FFin 14400"
  "fl_round f32 (2 / 5) = FFin (13421773 / 33554432)" "fl_round f32 (1 / 4) = FFin (1 / 4)"
  "fl_round f32 (1 / 10) = FFin (13421773 / 134217728)" "fl_round f32 (4 / 5) = FFin (13421773 / 16777216)"
  "fl_round f32 (13421773 / 33554432) = FFin (13421773 / 33554432)"
  "fl_round f32 (13421773 / 134217728) = FFin (13421773 / 134217728)"
  "fl_round f32 (21810381 / 33554432) = FFin (5452595 / 8388608)"
  "fl_round f32 (7549747 / 8388608) = FFin (7549747 / 8388608)"
  "fl_round f32 (134217725 / 134217728) = FFin 1"
proof -
  have "\<lfloor>67108864 / 5 :: rat\<rfloor> = 13421772" "\<lfloor>21810381 / 2 :: rat\<rfloor> = 10905190" "\<lfloor>134217725 / 8 :: rat\<rfloor> = 16777215"
    by (simp_all add: floor_eq_iff)
  note eval = this round_half_even_def Let_def power_int_minus
  show "fl_round f32 1 = FFin 1" "fl_round f32 3 = FFin 3" "fl_round f32 4 = FFin 4" "fl_round f32 5 = FFin 5" "fl_round f32 6 = FFin 6" "fl_round f32 14400 = FFin 14400"
    using fl_round_f32_eval [of 0 1] fl_round_f32_eval [of 1 3] fl_round_f32_eval [of 2 4] fl_round_f32_eval [of 2 5] fl_round_f32_eval [of 2 6]
      fl_round_f32_eval [of 13 14400] by (simp_all add: eval)
  show "fl_round f32 (2 / 5) = FFin (13421773 / 33554432)" "fl_round f32 (1 / 4) = FFin (1 / 4)"
    "fl_round f32 (1 / 10) = FFin (13421773 / 134217728)" "fl_round f32 (4 / 5) = FFin (13421773 / 16777216)"
    using fl_round_f32_eval [of "-2" "2 / 5"] fl_round_f32_eval [of "-2" "1 / 4"]
      fl_round_f32_eval [of "-4" "1 / 10"] fl_round_f32_eval [of "-1" "4 / 5"] by (simp_all add: eval)
  show "fl_round f32 (13421773 / 33554432) = FFin (13421773 / 33554432)"
    "fl_round f32 (13421773 / 134217728) = FFin (13421773 / 134217728)"
    using fl_round_f32_eval [of "-2" "13421773 / 33554432"] fl_round_f32_eval [of "-4" "13421773 / 134217728"]
    by (simp_all add: eval)
  show "fl_round f32 (21810381 / 33554432) = FFin (5452595 / 8388608)"
    "fl_round f32 (7549747 / 8388608) = FFin (7549747 / 8388608)"
    "fl_round f32 (134217725 / 134217728) = FFin 1"
    using fl_round_f32_eval [of "-1" "21810381 / 33554432"] fl_round_f32_eval [of "-1" "7549747 / 8388608"]
      fl_round_f32_eval [of "-1" "134217725 / 134217728"] by (simp_all add: eval)
qed

definition follower :: "Sighting list" where
  "follower = map (\<lambda>n. \<lparr>si_at = int n * 2880000000000, si_environment = min n 3, si_rssi_dbm = None\<rparr>) [0, 1, 2, 3, 4, 5]"

lemma follower_score:
  "\<exists>s. score_history (persistence_default\<lparr>density_saturation := 6\<rparr>) follower = Some s
    \<and> ps_classification s = HighConfidenceFollowing"
proof -
  have "distinct_count (map si_environment follower) = 4"
    by (simp add: distinct_count_card follower_def)
  moreover have "count_reappearances (10 * 60 * 1000000000) follower = 5"
    by (simp add: count_reappearances_def follower_def)
  moreover have "length follower = 6" "follower \<noteq> []" by (simp_all add: follower_def)
  moreover have "span_hours_of follower = FFin 4" by (simp add: span_hours_of_def follower_def)
  moreover have "combine_score (FFin 1) (FFin 1) (FFin 1) (FFin 1) = FFin 1"
    by (simp add: combine_score_def fl_const_def fl_clamp01_def)
  ultimately show ?thesis
    by (simp add: score_history_def Let_def persistence_default_def movement_of_def fl_of_nat_def classify_def
        fl_ge_def fl_const_def fl_clamp01_def)
qed

theorem following_needs_two_places_witness:
  "\<exists>h. map_of [(lit ''a'', \<lparr>dh_sightings = follower, dh_last_seen = 0\<rparr>)] (lit ''a'') = Some h
    \<and> (\<exists>a \<in> set (dh_sightings h). \<exists>b \<in> set (dh_sightings h). si_environment a \<noteq> si_environment b)"
proof -
  let ?t = "\<lparr>pt_config = persistence_default\<lparr>density_saturation := 6\<rparr>,
    pt_devices = [(lit ''a'', \<lparr>dh_sightings = follower, dh_last_seen = 0\<rparr>)]\<rparr>"
  obtain s where "tracker_score ?t (lit ''a'') = Some s" "PossibleFollowing \<le> ps_classification s"
    using follower_score by (auto simp: tracker_score_def less_eq_Persistence_def)
  from following_needs_two_places [OF this] show ?thesis by simp
qed

text \<open>With saturation points that are not zero the score is a number between 0 and 1, never NaN or
  an infinity, whatever the history.\<close>

theorem score_in_unit_interval:
  assumes "tracker_score t key = Some s"
    and "temporal_saturation_hours (pt_config t) = FFin hours" and "hours \<noteq> 0"
    and "0 < density_saturation (pt_config t)" and "density_saturation (pt_config t) \<le> u32_max"
    and "environment_saturation (pt_config t) \<le> u32_max"
  shows "\<exists>q. ps_score s = FFin q \<and> 0 \<le> q \<and> q \<le> 1"
proof -
  from assms(1) obtain h :: DeviceHistory where s: "score_history (pt_config t) (dh_sightings h) = Some s"
    using tracker_score_history by blast
  let ?c = "pt_config t" and ?ss = "dh_sightings h"
  have "span_hours_of ?ss \<noteq> FNan" unfolding span_hours_of_def by (intro fl_div_not_nan) simp_all
  then obtain a where a: "fl_clamp01 (fl_div f32 (span_hours_of ?ss) (temporal_saturation_hours ?c)) = FFin a" "0 \<le> a"
    using fl_clamp01_range [OF fl_div_not_nan, of "span_hours_of ?ss" hours f32] assms(2,3) by auto
  obtain b where b: "fl_clamp01 (fl_div f32 (fl_of_nat f32 (count_reappearances (reappearance_gap ?c) ?ss)) (FFin 5)) = FFin b" "0 \<le> b"
    using fl_clamp01_range [OF fl_div_not_nan, of "fl_of_nat f32 (count_reappearances (reappearance_gap ?c) ?ss)" 5 f32]
    by (auto simp: fl_of_nat_def)
  obtain r where r: "fl_of_nat f32 (density_saturation ?c) = FFin r" "r \<noteq> 0"
    using fl_of_nat_f32_finite [OF assms(4,5)] by auto
  obtain d where d: "fl_clamp01 (fl_div f32 (fl_of_nat f32 (length ?ss mod 4294967296)) (fl_of_nat f32 (density_saturation ?c))) = FFin d" "0 \<le> d"
    using fl_clamp01_range [OF fl_div_not_nan, of "fl_of_nat f32 (length ?ss mod 4294967296)" r f32] r
    by (auto simp: fl_of_nat_def)
  obtain m where m: "movement_of ?c (distinct_count (map si_environment ?ss)) = FFin m" "0 \<le> m"
    using movement_range [OF assms(6)] by blast
  show ?thesis
    using combine_score_range [OF m(2) a(2) b(2) d(2)] score_history_fields(2) [OF s] by (simp add: a b d m)
qed

theorem score_in_unit_interval_witness:
  "\<exists>s q. tracker_score \<lparr>pt_config = persistence_default,
      pt_devices = [(lit ''a'', \<lparr>dh_sightings = replicate 3 \<lparr>si_at = 0, si_environment = 0, si_rssi_dbm = None\<rparr>,
        dh_last_seen = 0\<rparr>)]\<rparr> (lit ''a'') = Some s \<and> ps_score s = FFin q \<and> 0 \<le> q \<and> q \<le> 1"
proof -
  let ?t = "\<lparr>pt_config = persistence_default,
      pt_devices = [(lit ''a'', \<lparr>dh_sightings = replicate 3 \<lparr>si_at = 0, si_environment = 0, si_rssi_dbm = None\<rparr>,
        dh_last_seen = 0\<rparr>)]\<rparr>"
  obtain s where s: "tracker_score ?t (lit ''a'') = Some s"
    by (simp add: tracker_score_def score_history_def Let_def persistence_default_def)
  from score_in_unit_interval [OF s, of 4] show ?thesis
    using s by (simp add: persistence_default_def u32_max_def)
qed

end
