(* ===== verification/Evidence.thy ===== *)
theory Evidence
  imports Scan
begin

text \<open>
  Durable evidence (\<open>radio/src/evidence.rs\<close>): how a device is named in a record under the retention
  policy, the session pseudonym, and the newline-delimited file of records. JSON encoding of one
  record is a parameter.
\<close>

section \<open>Device references\<close>

datatype RetentionPolicy = Identify | Pseudonymise

datatype DeviceRef = RefMac MacAddr | RefPseudonym ustr

definition FNV_OFFSET :: u64 where "FNV_OFFSET = 0xcbf29ce484222325"
definition FNV_PRIME :: u64 where "FNV_PRIME = 0x00000100000001b3"

definition fnv_step :: "u64 \<Rightarrow> u8 \<Rightarrow> u64" where
  "fnv_step hash byte = (xor hash (ucast byte)) * FNV_PRIME"

text \<open>\<open>{:016x}\<close>.\<close>

definition hex_u64 :: "u64 \<Rightarrow> ustr" where
  "hex_u64 h = map (\<lambda>i. hex_digit (unat h div 16 ^ i mod 16)) (rev [0..<16])"

definition pseudonymise :: "MacAddr \<Rightarrow> bytes \<Rightarrow> ustr" where
  "pseudonymise mac salt = lit ''anon-'' @ hex_u64 (foldl fnv_step FNV_OFFSET (salt @ octets mac))"

fun device_ref_new :: "MacAddr \<Rightarrow> RetentionPolicy \<Rightarrow> bytes \<Rightarrow> DeviceRef" where
  "device_ref_new mac Identify salt = RefMac mac"
| "device_ref_new mac Pseudonymise salt = RefPseudonym (pseudonymise mac salt)"

fun device_ref_key :: "DeviceRef \<Rightarrow> ustr" where
  "device_ref_key (RefMac mac) = mac_to_string mac"
| "device_ref_key (RefPseudonym pseudonym) = pseudonym"

fun is_identifying :: "DeviceRef \<Rightarrow> bool" where
  "is_identifying (RefMac _) = True"
| "is_identifying (RefPseudonym _) = False"

section \<open>Records\<close>

record EvidenceRecord =
  ev_timestamp :: datetime
  ev_recording_id :: ustr
  ev_technology :: RadioTech
  ev_source :: ObservationSource
  ev_device :: DeviceRef
  ev_ssid :: "ustr option"
  ev_rssi_dbm :: "int option"
  ev_frequency_mhz :: "nat option"
  ev_channel :: "nat option"
  ev_first_seen :: datetime
  ev_last_seen :: datetime
  ev_observation_count :: nat
  ev_detection :: "Detection option"
  ev_rule_version :: "ustr option"

fun to_ndjson :: "('r \<Rightarrow> 'e + ustr) \<Rightarrow> 'r list \<Rightarrow> ustr" where
  "to_ndjson to_string [] = []"
| "to_ndjson to_string (r # rs) =
     (case to_string r of
        Inr line \<Rightarrow> line @ [10] @ to_ndjson to_string rs
      | Inl _ \<Rightarrow> to_ndjson to_string rs)"

definition from_ndjson :: "(ustr \<Rightarrow> 'e + 'r) \<Rightarrow> ustr \<Rightarrow> 'r list" where
  "from_ndjson from_str input =
     List.map_filter (\<lambda>l. case from_str l of Inr r \<Rightarrow> Some r | Inl _ \<Rightarrow> None)
       (filter (\<lambda>l. trim l \<noteq> []) (str_lines input))"

section \<open>Pseudonyms\<close>

lemma fnv_prime_odd: "FNV_PRIME * 0xce965057aff6957b = 1"
  by (simp add: FNV_PRIME_def)

lemma fnv_step_hash_inject: "fnv_step a x = fnv_step b y \<longleftrightarrow> xor a (ucast x) = xor b (ucast y)"
proof
  assume "fnv_step a x = fnv_step b y"
  then have "fnv_step a x * 0xce965057aff6957b = fnv_step b y * 0xce965057aff6957b" by simp
  then show "xor a (ucast x) = xor b (ucast y)"
    by (simp only: fnv_step_def mult.assoc fnv_prime_odd mult_1_right)
qed (simp add: fnv_step_def)

lemma xor_cancel: "xor a x = xor a y \<longleftrightarrow> x = (y :: u64)"
  by (auto simp: bit_eq_iff bit_xor_iff)

lemma ucast_byte_inject: "(ucast (x :: u8) :: u64) = ucast y \<longleftrightarrow> x = y"
proof -
  have "unat (ucast b :: u64) = unat b" for b :: u8
    using less_trans [OF unat_byte_bound [of b], of "18446744073709551616"]
    by (simp add: unsigned_ucast_eq take_bit_eq_mod)
  then show ?thesis by (metis word_unat_eq_iff)
qed

lemma fnv_step_byte_inject: "fnv_step h x = fnv_step h y \<longleftrightarrow> x = y"
  by (simp add: fnv_step_hash_inject xor_cancel ucast_byte_inject)

lemma digits16_determine:
  "(\<And>i. i < k \<Longrightarrow> a div 16 ^ i mod 16 = b div 16 ^ i mod 16) \<Longrightarrow> a mod 16 ^ k = b mod (16 :: nat) ^ k"
proof (induction k)
  case 0
  then show ?case by simp
next
  case (Suc k)
  have "a mod 16 ^ Suc k = 16 ^ k * (a div 16 ^ k mod 16) + a mod 16 ^ k" for a :: nat
    using mod_mult2_eq [of a "16 ^ k" 16] by (simp add: mult.commute)
  with Suc show ?case by simp
qed

lemma hex_u64_inject: "hex_u64 a = hex_u64 b \<longleftrightarrow> a = b"
proof
  assume "hex_u64 a = hex_u64 b"
  then have "unat a div 16 ^ i mod 16 = unat b div 16 ^ i mod 16" if "i < 16" for i
    using that by (simp add: hex_u64_def hex_digit_inject)
  then have "unat a mod 16 ^ 16 = unat b mod 16 ^ 16" by (rule digits16_determine)
  moreover have "unat w < 16 ^ 16" for w :: u64 using unsigned_less [of w] by simp
  ultimately show "a = b" by (simp add: word_unat_eq_iff)
qed simp

section \<open>Lines\<close>

lemma to_ndjson_lines:
  assumes "\<And>r l. to_string r = Inr l \<Longrightarrow> 10 \<notin> set l \<and> trim l \<noteq> [] \<and> last l \<noteq> 13"
  shows "str_lines (to_ndjson to_string rs)
    = List.map_filter (\<lambda>r. case to_string r of Inr l \<Rightarrow> Some l | Inl _ \<Rightarrow> None) rs"
proof (induction rs)
  case Nil
  then show ?case by (simp add: str_lines_def List.map_filter_def)
next
  case (Cons r rs)
  show ?case
  proof (cases "to_string r")
    case (Inl e)
    with Cons show ?thesis by (simp add: List.map_filter_def)
  next
    case (Inr l)
    from assms [OF Inr] have l: "10 \<notin> set l" "last l \<noteq> 13" by auto
    from Inr l Cons show ?thesis
      by (simp add: str_lines_def split_inclusive_piece chomp_def Let_def List.map_filter_def)
  qed
qed

section \<open>Properties\<close>

text \<open>Naming under the retention policy. A pseudonymised device carries no address, and its key
  can never be mistaken for one; identified devices have distinct keys; and two bystanders whose
  addresses differ only in the last octet (neighbouring units of one maker) still get different
  pseudonyms, whatever the salt.\<close>

theorem device_ref_keys:
  "\<not> is_identifying (device_ref_new m Pseudonymise salt)
   \<and> device_ref_key (device_ref_new m Pseudonymise salt) \<noteq> device_ref_key (device_ref_new m' Identify salt')
   \<and> (device_ref_key (device_ref_new m Identify salt) = device_ref_key (device_ref_new m' Identify salt') \<longleftrightarrow> m = m')
   \<and> (device_ref_key (device_ref_new (MacAddr a b c d e x) Pseudonymise salt)
        = device_ref_key (device_ref_new (MacAddr a b c d e y) Pseudonymise salt) \<longleftrightarrow> x = y)"
proof -
  have "hd (pseudonymise m salt) = 97 \<and> pseudonymise m salt ! 1 = 110" by (simp add: pseudonymise_def)
  moreover have "n mod 16 \<noteq> 23" for n :: nat using mod_less_divisor [of 16 n] by linarith
  then have "mac_to_string m' ! 1 \<noteq> 110" by (cases m') (simp add: hex_byte_def hex_digit_def)
  ultimately have "pseudonymise m salt \<noteq> mac_to_string m'" by metis
  moreover have "pseudonymise (MacAddr a b c d e x) salt = pseudonymise (MacAddr a b c d e y) salt \<longleftrightarrow> x = y"
    by (simp add: pseudonymise_def hex_u64_inject fnv_step_byte_inject)
  ultimately show ?thesis by (simp add: mac_to_string_inject)
qed

text \<open>The evidence file gives back what was written to it: reading the file yields the records that
  could be serialised, in order. What is relied on of the encoder: it writes a record as one line that
  is not blank and does not end in a carriage return, and the decoder reads that line back.\<close>

theorem ndjson_round_trip:
  assumes "\<And>r l. to_string r = Inr l \<Longrightarrow> 10 \<notin> set l \<and> trim l \<noteq> [] \<and> last l \<noteq> 13"
    and "\<And>r l. to_string r = Inr l \<Longrightarrow> from_str l = Inr r"
  shows "from_ndjson from_str (to_ndjson to_string records)
    = filter (\<lambda>r. \<not> isl (to_string r)) records"
proof -
  let ?lines = "List.map_filter (\<lambda>r. case to_string r of Inr l \<Rightarrow> Some l | Inl _ \<Rightarrow> None) records"
  have "str_lines (to_ndjson to_string records) = ?lines" by (rule to_ndjson_lines) (fact assms(1))
  moreover have "filter (\<lambda>l. trim l \<noteq> []) ?lines = ?lines"
    using assms(1) by (auto simp: filter_id_conv List.map_filter_def split: sum.splits)
  moreover have "List.map_filter (\<lambda>l. case from_str l of Inr r \<Rightarrow> Some r | Inl _ \<Rightarrow> None) ?lines
      = filter (\<lambda>r. \<not> isl (to_string r)) records"
    by (induction records) (auto simp: List.map_filter_def assms(2) split: sum.splits)
  ultimately show ?thesis by (simp add: from_ndjson_def)
qed

theorem ndjson_round_trip_witness:
  "from_ndjson (\<lambda>l. if l = [123] then Inr True else Inl ())
     (to_ndjson (\<lambda>r. if r then Inr [123] else Inl ()) [True, False, True]) = [True, True]"
  by (subst ndjson_round_trip)
    (auto simp: trim_def trim_start_def trim_end_def is_whitespace_def split: if_splits)

end
