(* ===== verification/Display.thy ===== *)
theory Display
  imports RhPrelude
begin

text \<open>
  What the daemon may put on the unit's screen (\<open>daemon/src/display/mod.rs\<close>): a picture that takes the
  whole screen until a deadline, a banner line with a deadline of its own, and the quiet period after
  a button press. Every operation takes the monotonic clock's reading as \<open>now\<close>; the pixels of a
  picture are abstract (\<open>'p\<close>).
\<close>

definition KEYPRESS_QUIET_PERIOD :: duration where "KEYPRESS_QUIET_PERIOD = from_secs 20"

section \<open>Suppression\<close>

record DisplaySuppression =
  until_ms :: nat
  sup_base :: instant

definition as_millis_u64 :: "duration \<Rightarrow> nat" where
  "as_millis_u64 d = d div 1000000 mod 2 ^ 64"

definition suppression_new :: "instant \<Rightarrow> DisplaySuppression" where
  "suppression_new now = \<lparr>until_ms = 0, sup_base = now\<rparr>"

definition suppress_for :: "DisplaySuppression \<Rightarrow> instant \<Rightarrow> duration \<Rightarrow> DisplaySuppression" where
  "suppress_for s now period =
     (let deadline = as_millis_u64 (elapsed now (sup_base s) + period) in
      s\<lparr>until_ms := max (until_ms s) deadline\<rparr>)"

definition suppression_active :: "DisplaySuppression \<Rightarrow> instant \<Rightarrow> bool" where
  "suppression_active s now \<longleftrightarrow> until_ms s \<noteq> 0 \<and> as_millis_u64 (elapsed now (sup_base s)) < until_ms s"

section \<open>The override picture and the banner\<close>

record 'p OverrideFrame =
  fr_pixels :: 'p
  fr_until :: instant

record 'p DisplayOverride =
  do_inner :: "'p OverrideFrame option"
  do_banner :: "(ustr \<times> instant) option"

definition override_new :: "'p DisplayOverride" where
  "override_new = \<lparr>do_inner = None, do_banner = None\<rparr>"

definition override_show :: "'p DisplayOverride \<Rightarrow> instant \<Rightarrow> 'p \<Rightarrow> duration \<Rightarrow> 'p DisplayOverride" where
  "override_show d now pixels period = d\<lparr>do_inner := Some \<lparr>fr_pixels = pixels, fr_until = now + period\<rparr>\<rparr>"

definition override_clear :: "'p DisplayOverride \<Rightarrow> 'p DisplayOverride" where
  "override_clear d = d\<lparr>do_inner := None\<rparr>"

definition override_current :: "'p DisplayOverride \<Rightarrow> instant \<Rightarrow> 'p option \<times> 'p DisplayOverride" where
  "override_current d now =
     (case do_inner d of
        Some frame \<Rightarrow> if now < fr_until frame then (Some (fr_pixels frame), d) else (None, d\<lparr>do_inner := None\<rparr>)
      | None \<Rightarrow> (None, d))"

definition override_active :: "'p DisplayOverride \<Rightarrow> instant \<Rightarrow> bool" where
  "override_active d now \<longleftrightarrow> fst (override_current d now) \<noteq> None"

definition show_banner :: "'p DisplayOverride \<Rightarrow> instant \<Rightarrow> ustr \<Rightarrow> duration \<Rightarrow> 'p DisplayOverride" where
  "show_banner d now text period = d\<lparr>do_banner := Some (text, now + period)\<rparr>"

definition clear_banner :: "'p DisplayOverride \<Rightarrow> 'p DisplayOverride" where
  "clear_banner d = d\<lparr>do_banner := None\<rparr>"

definition current_banner :: "'p DisplayOverride \<Rightarrow> instant \<Rightarrow> ustr option \<times> 'p DisplayOverride" where
  "current_banner d now =
     (case do_banner d of
        Some (text, until) \<Rightarrow> if now < until then (Some text, d) else (None, d\<lparr>do_banner := None\<rparr>)
      | None \<Rightarrow> (None, d))"

definition override_remaining :: "'p DisplayOverride \<Rightarrow> instant \<Rightarrow> duration option" where
  "override_remaining d now =
     (case do_inner d of Some f \<Rightarrow> checked_duration_since (fr_until f) now | None \<Rightarrow> None)"

section \<open>Facts\<close>

lemma override_show_current: "fst (override_current (override_show d t p period) now) = (if now < t + period then Some p else None)"
  by (simp add: override_current_def override_show_def)

lemma override_banner_independent [simp]:
  "do_banner (override_show d now p period) = do_banner d" "do_banner (override_clear d) = do_banner d"
  "do_inner (show_banner d now text period) = do_inner d" "do_inner (clear_banner d) = do_inner d"
  by (simp_all add: override_show_def override_clear_def show_banner_def clear_banner_def)

lemma suppress_for_extends:
  "suppression_active s now' \<Longrightarrow> suppression_active (suppress_for s now period) now'"
  by (auto simp: suppression_active_def suppress_for_def Let_def less_max_iff_disj)

end
