(* ===== verification/Pairing.thy ===== *)
theory Pairing
  imports Display
begin

text \<open>
  Which browsers the unit trusts (\<open>daemon/src/pairing.rs\<close>): the setup window with its token, the press
  of the unit's button, add-a-device codes, the passphrase with its backoff, and the store of trusted
  devices. Each operation is a function of the pairing state and of the world it runs in (\<open>world\<close>): the
  monotonic clock, the wall clock's text, the operating system's randomness, whether the store can be
  written, and the functions of other crates and modules (SHA-256, base64, the password hashing of
  \<open>web_auth\<close>, whether a code can be drawn). An operation returns its result and the state after it, also
  when it fails.
\<close>

section \<open>Constants\<close>

definition SETUP_WINDOW :: duration where "SETUP_WINDOW = from_secs (10 * 60)"
definition SETUP_TOKEN_LEN :: nat where "SETUP_TOKEN_LEN = 8"
definition MAX_SETUP_ATTEMPTS :: nat where "MAX_SETUP_ATTEMPTS = 10"
definition MIN_PASSPHRASE_LEN :: nat where "MIN_PASSPHRASE_LEN = 8"
definition MAX_PASSWORD_LEN :: nat where "MAX_PASSWORD_LEN = 256"
definition LAST_SEEN_INTERVAL :: duration where "LAST_SEEN_INTERVAL = from_secs 3600"
definition MAX_BACKOFF :: duration where "MAX_BACKOFF = from_secs 60"
definition BACKOFF_MEMORY :: duration where "BACKOFF_MEMORY = from_secs (10 * 60)"
definition PAIR_CODE_TTL :: duration where "PAIR_CODE_TTL = from_secs (5 * 60)"
definition MAX_CODE_ATTEMPTS :: nat where "MAX_CODE_ATTEMPTS = 5"
definition PRESS_WINDOW :: duration where "PRESS_WINDOW = from_secs 30"
definition MAX_DEVICES :: nat where "MAX_DEVICES = 32"
definition FINGERPRINT_VIEW :: duration where "FINGERPRINT_VIEW = from_secs 15"

definition CROCKFORD :: ustr where "CROCKFORD = lit ''0123456789ABCDEFGHJKMNPQRSTVWXYZ''"

section \<open>Data\<close>

record TrustedDevice =
  td_id :: ustr
  td_name :: ustr
  td_token_sha256 :: ustr
  td_created :: ustr
  td_last_seen :: ustr
  td_user_agent :: ustr

record AuthState =
  setup_complete :: bool
  owner_passphrase_hash :: "ustr option"
  devices :: "TrustedDevice list"

definition auth_default :: AuthState where
  "auth_default = \<lparr>setup_complete = False, owner_passphrase_hash = None, devices = []\<rparr>"

record DeviceInfo =
  di_id :: ustr
  di_name :: ustr
  di_created :: ustr
  di_last_seen :: ustr
  di_user_agent :: ustr
  di_current :: bool

record IssuedDevice =
  is_id :: ustr
  is_name :: ustr
  is_cookie_value :: ustr

datatype PairError =
    AlreadyComplete
  | WindowClosed
  | WrongToken nat
  | PassphraseTooShort
  | WrongPassphrase
  | BackoffWait nat
  | NoPassphrase
  | NoSuchDevice
  | NoCode
  | NotPressed
  | PressPending nat
  | TooManyDevices
  | Storage ustr

record SetupWindow =
  sw_token :: ustr
  sw_opened :: instant
  sw_wrong :: nat

record Backoff =
  bo_failures :: nat
  bo_last_failure :: "instant option"

definition backoff_default :: Backoff where "backoff_default = \<lparr>bo_failures = 0, bo_last_failure = None\<rparr>"

record PairCode =
  pc_code :: ustr
  pc_created :: instant
  pc_wrong :: nat

record PressRequest =
  pr_id :: ustr
  pr_created :: instant
  pr_approved :: "instant option"

text \<open>What the pairing side puts on the screen.\<close>

datatype Picture = SetupCode ustr | Fingerprint | PressTheButton | ContinueOnPhone

record Pairing =
  pa_state :: AuthState
  pa_setup :: "SetupWindow option"
  pa_backoff :: Backoff
  pa_last_seen_written :: "ustr \<Rightarrow> instant option"
  pa_display :: "Picture DisplayOverride option"
  pa_pair_code :: "PairCode option"
  pa_press :: "PressRequest option"
  pa_fingerprint :: bool
  pa_showing_fingerprint :: bool

record WebUser =
  wu_username :: ustr
  wu_password_hash :: ustr

record world =
  clock_now :: instant
  wall_clock :: ustr
  random_bytes :: "nat \<Rightarrow> ustr + bytes"
  store_write :: "AuthState \<Rightarrow> ustr + unit"
  sha256 :: "bytes \<Rightarrow> bytes"
  base64 :: "bytes \<Rightarrow> ustr"
  hash_password :: "ustr \<Rightarrow> ustr option"
  verify_password :: "ustr \<Rightarrow> ustr \<Rightarrow> bool"
  credentials_are_valid :: "WebUser list \<Rightarrow> ustr \<Rightarrow> ustr \<Rightarrow> bool"
  code_fits :: "ustr \<Rightarrow> bool"

section \<open>Helpers\<close>

fun ct_eq_loop :: "u8 \<Rightarrow> bytes \<Rightarrow> bytes \<Rightarrow> u8" where
  "ct_eq_loop diff (x # xs) (y # ys) = ct_eq_loop (or diff (xor x y)) xs ys"
| "ct_eq_loop diff _ _ = diff"

definition ct_eq :: "bytes \<Rightarrow> bytes \<Rightarrow> bool" where
  "ct_eq a b = (if length a \<noteq> length b then False else ct_eq_loop 0 a b = 0)"

definition hex :: "bytes \<Rightarrow> ustr" where
  "hex bs = concat (map hex_byte bs)"

definition token_of_raw :: "bytes \<Rightarrow> ustr" where
  "token_of_raw raw = map (\<lambda>b. CROCKFORD ! unat (and b 31)) raw"

definition new_setup_token :: "world \<Rightarrow> PairError + ustr" where
  "new_setup_token e =
     (case random_bytes e SETUP_TOKEN_LEN of Inl err \<Rightarrow> Inl (Storage err) | Inr raw \<Rightarrow> Inr (token_of_raw raw))"

definition normalize_char :: "uchar \<Rightarrow> uchar" where
  "normalize_char c =
     (let u = to_ascii_uppercase c in
      if u = of_char (CHR ''O'') then of_char (CHR ''0'')
      else if u = of_char (CHR ''I'') \<or> u = of_char (CHR ''L'') then of_char (CHR ''1'') else u)"

definition normalize_token :: "ustr \<Rightarrow> ustr" where
  "normalize_token input =
     map normalize_char (filter (\<lambda>c. \<not> is_whitespace c \<and> c \<noteq> of_char (CHR ''-'')) input)"

definition display_token :: "ustr \<Rightarrow> ustr" where
  "display_token token =
     (if str_len token = SETUP_TOKEN_LEN then take 4 token @ lit '' '' @ drop 4 token else token)"

definition issue_token :: "world \<Rightarrow> PairError + (ustr \<times> ustr \<times> ustr)" where
  "issue_token e =
     (case random_bytes e 32 of
        Inl err \<Rightarrow> Inl (Storage err)
      | Inr raw \<Rightarrow>
          (let v = base64 e raw; digest = sha256 e (utf8_bytes v) in
           Inr (v, hex digest, hex (take 8 digest))))"

definition default_device_name :: "ustr \<Rightarrow> ustr" where
  "default_device_name ua =
     (let has = (\<lambda>s. contains_sub ua (lit s));
          platform = (if has ''iPhone'' then lit ''iPhone'' else if has ''iPad'' then lit ''iPad''
                      else if has ''Android'' then lit ''Android'' else if has ''Windows'' then lit ''Windows''
                      else if has ''Mac OS'' \<or> has ''Macintosh'' then lit ''Mac''
                      else if has ''CrOS'' then lit ''Chromebook'' else if has ''Linux'' then lit ''Linux''
                      else lit ''Browser'');
          browser = (if has ''Firefox/'' then Some (lit ''Firefox'') else if has ''Edg/'' then Some (lit ''Edge'')
                     else if has ''OPR/'' then Some (lit ''Opera'')
                     else if has ''Chrome/'' \<or> has ''CriOS/'' then Some (lit ''Chrome'')
                     else if has ''Safari/'' then Some (lit ''Safari'') else None) in
      case browser of Some b \<Rightarrow> platform @ lit '' ('' @ b @ lit '')'' | None \<Rightarrow> platform)"

definition add_device ::
    "world \<Rightarrow> AuthState \<Rightarrow> ustr option \<Rightarrow> ustr \<Rightarrow> PairError + (IssuedDevice \<times> AuthState)" where
  "add_device e st device_name user_agent =
     (if length (devices st) \<ge> MAX_DEVICES then Inl TooManyDevices
      else and_then (issue_token e) (\<lambda>(cookie_value, token_sha256, i).
        let name = (case device_name of
                      Some n \<Rightarrow> if trim n \<noteq> [] then take 64 (trim n) else default_device_name user_agent
                    | None \<Rightarrow> default_device_name user_agent);
            dev = \<lparr>td_id = i, td_name = name, td_token_sha256 = token_sha256, td_created = wall_clock e,
                    td_last_seen = wall_clock e, td_user_agent = take 256 user_agent\<rparr> in
        Inr (\<lparr>is_id = i, is_name = name, is_cookie_value = cookie_value\<rparr>, st\<lparr>devices := devices st @ [dev]\<rparr>)))"

section \<open>Backoff\<close>

definition backoff_delay :: "nat \<Rightarrow> duration" where
  "backoff_delay failures = min (from_secs (2 ^ min failures 6)) MAX_BACKOFF"

definition wait_remaining :: "Backoff \<Rightarrow> instant \<Rightarrow> duration option" where
  "wait_remaining b t =
     (case bo_last_failure b of
        None \<Rightarrow> None
      | Some l \<Rightarrow>
          if elapsed t l \<ge> BACKOFF_MEMORY then None
          else checked_duration_since (l + backoff_delay (bo_failures b)) t)"

definition backoff_failed :: "Backoff \<Rightarrow> instant \<Rightarrow> Backoff" where
  "backoff_failed b t =
     (let f = (case bo_last_failure b of
                 Some l \<Rightarrow> if elapsed t l \<ge> BACKOFF_MEMORY then 0 else bo_failures b
               | None \<Rightarrow> bo_failures b) in
      \<lparr>bo_failures = sat_add_u32 f 1, bo_last_failure = Some t\<rparr>)"

definition backoff_succeeded :: "Backoff \<Rightarrow> Backoff" where
  "backoff_succeeded b = backoff_default"

definition check_backoff :: "world \<Rightarrow> Pairing \<Rightarrow> PairError + unit" where
  "check_backoff e p =
     (case wait_remaining (pa_backoff p) (clock_now e) of
        Some left \<Rightarrow> Inl (BackoffWait (max (as_secs left) 1))
      | None \<Rightarrow> Inr ())"

definition note_failure :: "world \<Rightarrow> Pairing \<Rightarrow> Pairing" where
  "note_failure e p = p\<lparr>pa_backoff := backoff_failed (pa_backoff p) (clock_now e)\<rparr>"

definition note_success :: "Pairing \<Rightarrow> Pairing" where
  "note_success p = p\<lparr>pa_backoff := backoff_succeeded (pa_backoff p)\<rparr>"

section \<open>The setup window\<close>

definition window_expired :: "SetupWindow \<Rightarrow> instant \<Rightarrow> bool" where
  "window_expired w t \<longleftrightarrow> elapsed t (sw_opened w) \<ge> SETUP_WINDOW"

definition setup_window :: "world \<Rightarrow> Pairing \<Rightarrow> (ustr \<times> duration) option \<times> Pairing" where
  "setup_window e p =
     (case pa_setup p of
        Some w \<Rightarrow>
          if \<not> window_expired w (clock_now e)
          then (Some (sw_token w, SETUP_WINDOW - elapsed (clock_now e) (sw_opened w)), p)
          else (None, p\<lparr>pa_setup := None\<rparr>)
      | None \<Rightarrow> (None, p))"

text \<open>Showing and clearing on a unit that may have no screen.\<close>

definition on_screen :: "world \<Rightarrow> Picture \<Rightarrow> duration \<Rightarrow> Pairing \<Rightarrow> Pairing" where
  "on_screen e pic period p =
     p\<lparr>pa_display := map_option (\<lambda>d. override_show d (clock_now e) pic period) (pa_display p)\<rparr>"

definition clear_screen :: "Pairing \<Rightarrow> Pairing" where
  "clear_screen p = p\<lparr>pa_display := map_option override_clear (pa_display p)\<rparr>"

text \<open>\<open>show_code\<close>: nothing is drawn when the link cannot be encoded or does not fit the screen.\<close>

definition show_code :: "world \<Rightarrow> ustr \<Rightarrow> Pairing \<Rightarrow> Pairing" where
  "show_code e token p =
     (if pa_display p = None \<or> \<not> code_fits e token then p else on_screen e (SetupCode token) SETUP_WINDOW p)"

definition open_setup_window :: "world \<Rightarrow> Pairing \<Rightarrow> (PairError + ustr) \<times> Pairing" where
  "open_setup_window e p =
     (if setup_complete (pa_state p) \<or> length (devices (pa_state p)) > 0 then (Inl AlreadyComplete, p)
      else
        case pa_setup p of
          Some w \<Rightarrow>
            if \<not> window_expired w (clock_now e) then
              (Inr (sw_token w), show_code e (sw_token w) (p\<lparr>pa_setup := Some (w\<lparr>sw_opened := clock_now e\<rparr>)\<rparr>))
            else
              (case new_setup_token e of
                 Inl err \<Rightarrow> (Inl err, p)
               | Inr token \<Rightarrow>
                   (Inr token, show_code e token
                      (p\<lparr>pa_setup := Some \<lparr>sw_token = token, sw_opened = clock_now e, sw_wrong = 0\<rparr>\<rparr>)))
        | None \<Rightarrow>
            (case new_setup_token e of
               Inl err \<Rightarrow> (Inl err, p)
             | Inr token \<Rightarrow>
                 (Inr token, show_code e token
                    (p\<lparr>pa_setup := Some \<lparr>sw_token = token, sw_opened = clock_now e, sw_wrong = 0\<rparr>\<rparr>))))"

definition close_setup_window :: "Pairing \<Rightarrow> Pairing" where
  "close_setup_window p = clear_screen (p\<lparr>pa_setup := None\<rparr>)"

definition check_setup_token :: "world \<Rightarrow> Pairing \<Rightarrow> ustr \<Rightarrow> (PairError + unit) \<times> Pairing" where
  "check_setup_token e p token =
     (case pa_setup p of
        None \<Rightarrow> (Inl WindowClosed, p)
      | Some w \<Rightarrow>
          if window_expired w (clock_now e) then (Inl WindowClosed, p\<lparr>pa_setup := None\<rparr>)
          else if ct_eq (utf8_bytes (normalize_token token)) (utf8_bytes (sw_token w)) then (Inr (), p)
          else
            (let wrong = sw_wrong w + 1 in
             if wrong \<ge> MAX_SETUP_ATTEMPTS then (Inl WindowClosed, clear_screen (p\<lparr>pa_setup := None\<rparr>))
             else (Inl (WrongToken (MAX_SETUP_ATTEMPTS - wrong)), p\<lparr>pa_setup := Some (w\<lparr>sw_wrong := wrong\<rparr>)\<rparr>)))"

section \<open>Finishing setup\<close>

text \<open>\<open>save\<close> may fail; the state in memory has been changed by then.\<close>

definition save_state :: "world \<Rightarrow> AuthState \<Rightarrow> PairError + unit" where
  "save_state e st = (case store_write e st of Inl err \<Rightarrow> Inl (Storage err) | Inr _ \<Rightarrow> Inr ())"

definition finish_setup ::
    "world \<Rightarrow> Pairing \<Rightarrow> ustr \<Rightarrow> ustr option \<Rightarrow> ustr \<Rightarrow> (PairError + IssuedDevice) \<times> Pairing" where
  "finish_setup e p passphrase device_name user_agent =
     (if length passphrase < MIN_PASSPHRASE_LEN then (Inl PassphraseTooShort, p)
      else if str_len passphrase > MAX_PASSWORD_LEN then (Inl PassphraseTooShort, p)
      else case hash_password e passphrase of
          None \<Rightarrow> (Inl (Storage (lit ''hashing was interrupted'')), p)
        | Some h \<Rightarrow>
            if setup_complete (pa_state p) \<or> devices (pa_state p) \<noteq> [] then (Inl AlreadyComplete, p)
            else
              (case add_device e (pa_state p) device_name user_agent of
                 Inl err \<Rightarrow> (Inl err, p)
               | Inr (issued, st) \<Rightarrow>
                   (let st1 = st\<lparr>owner_passphrase_hash := Some h, setup_complete := True\<rparr>;
                        p1 = p\<lparr>pa_state := st1\<rparr> in
                    case save_state e st1 of
                      Inl err \<Rightarrow> (Inl err, p1)
                    | Inr _ \<Rightarrow> (Inr issued, close_setup_window p1))))"

definition complete_setup ::
    "world \<Rightarrow> Pairing \<Rightarrow> ustr \<Rightarrow> ustr \<Rightarrow> ustr option \<Rightarrow> ustr \<Rightarrow> (PairError + IssuedDevice) \<times> Pairing" where
  "complete_setup e p token passphrase device_name user_agent =
     (if setup_complete (pa_state p) then (Inl AlreadyComplete, p)
      else case check_setup_token e p token of
          (Inl err, p1) \<Rightarrow> (Inl err, p1)
        | (Inr _, p1) \<Rightarrow> finish_setup e p1 passphrase device_name user_agent)"

section \<open>The button\<close>

definition request_press :: "world \<Rightarrow> Pairing \<Rightarrow> (PairError + ustr) \<times> Pairing" where
  "request_press e p =
     (if setup_complete (pa_state p) \<or> length (devices (pa_state p)) > 0 then (Inl AlreadyComplete, p)
      else case random_bytes e 8 of
          Inl err \<Rightarrow> (Inl (Storage err), p)
        | Inr raw \<Rightarrow>
            (let i = hex raw;
                 fresh = on_screen e PressTheButton PRESS_WINDOW
                   (p\<lparr>pa_press := Some \<lparr>pr_id = i, pr_created = clock_now e, pr_approved = None\<rparr>\<rparr>) in
             case pa_press p of
               Some r \<Rightarrow>
                 (let age = elapsed (clock_now e) (pr_created r) in
                  if age < PRESS_WINDOW then (Inl (PressPending (max (as_secs (PRESS_WINDOW - age)) 1)), p)
                  else (Inr i, fresh))
             | None \<Rightarrow> (Inr i, fresh)))"

definition press_status :: "world \<Rightarrow> Pairing \<Rightarrow> ustr \<Rightarrow> bool option" where
  "press_status e p i =
     (case pa_press p of
        None \<Rightarrow> None
      | Some r \<Rightarrow>
          if pr_id r \<noteq> i then None
          else
            (let since = elapsed (clock_now e) (case pr_approved r of Some a \<Rightarrow> a | None \<Rightarrow> pr_created r) in
             if since < PRESS_WINDOW then Some (pr_approved r \<noteq> None) else None))"

definition show_fingerprint :: "world \<Rightarrow> Pairing \<Rightarrow> bool \<times> Pairing" where
  "show_fingerprint e p =
     (if pa_display p = None \<or> \<not> pa_fingerprint p then (False, p)
      else (True, (on_screen e Fingerprint FINGERPRINT_VIEW p)\<lparr>pa_showing_fingerprint := True\<rparr>))"

text \<open>The task \<open>show_fingerprint\<close> leaves behind, when its sleep is over.\<close>

definition fingerprint_timeout :: "world \<Rightarrow> Pairing \<Rightarrow> Pairing" where
  "fingerprint_timeout e p =
     (case setup_window e (p\<lparr>pa_showing_fingerprint := False\<rparr>) of
        (Some (token, _), p1) \<Rightarrow> show_code e token p1
      | (None, p1) \<Rightarrow> p1)"

definition open_setup_window_silently :: "world \<Rightarrow> Pairing \<Rightarrow> (PairError + unit) \<times> Pairing" where
  "open_setup_window_silently e p =
     (case pa_setup p of
        Some w \<Rightarrow>
          if \<not> window_expired w (clock_now e)
          then (Inr (), p\<lparr>pa_setup := Some (w\<lparr>sw_opened := clock_now e\<rparr>)\<rparr>) else (Inl WindowClosed, p)
      | None \<Rightarrow> (Inl WindowClosed, p))"

definition press_approves :: "world \<Rightarrow> PressRequest \<Rightarrow> bool" where
  "press_approves e r \<longleftrightarrow> pr_approved r = None \<and> elapsed (clock_now e) (pr_created r) < PRESS_WINDOW"

text \<open>A press that approves nothing: the fingerprint while the window is open, else a new window.\<close>

definition button_rearm :: "world \<Rightarrow> Pairing \<Rightarrow> Pairing" where
  "button_rearm e p =
     (let (open_window, p1) = setup_window e p in
      if open_window \<noteq> None \<and> \<not> pa_showing_fingerprint p1 \<and> fst (show_fingerprint e p1)
      then snd (open_setup_window_silently e (snd (show_fingerprint e p1)))
      else snd (open_setup_window e p1))"

definition button_pressed :: "world \<Rightarrow> Pairing \<Rightarrow> Pairing" where
  "button_pressed e p =
     (case pa_press p of
        Some r \<Rightarrow>
          if press_approves e r then
            on_screen e ContinueOnPhone PRESS_WINDOW (p\<lparr>pa_press := Some (r\<lparr>pr_approved := Some (clock_now e)\<rparr>)\<rparr>)
          else button_rearm e p
      | None \<Rightarrow> button_rearm e p)"

definition complete_setup_by_press ::
    "world \<Rightarrow> Pairing \<Rightarrow> ustr \<Rightarrow> ustr \<Rightarrow> ustr option \<Rightarrow> ustr \<Rightarrow> (PairError + IssuedDevice) \<times> Pairing" where
  "complete_setup_by_press e p i passphrase device_name user_agent =
     (if setup_complete (pa_state p) then (Inl AlreadyComplete, p)
      else if press_status e p i \<noteq> Some True then (Inl NotPressed, p)
      else case finish_setup e p passphrase device_name user_agent of
          (Inl err, p1) \<Rightarrow> (Inl err, p1)
        | (Inr issued, p1) \<Rightarrow> (Inr issued, p1\<lparr>pa_press := None\<rparr>))"

section \<open>The passphrase\<close>

definition verify_passphrase :: "world \<Rightarrow> Pairing \<Rightarrow> ustr \<Rightarrow> (PairError + unit) \<times> Pairing" where
  "verify_passphrase e p passphrase =
     (case check_backoff e p of
        Inl err \<Rightarrow> (Inl err, p)
      | Inr _ \<Rightarrow>
          (case owner_passphrase_hash (pa_state p) of
             None \<Rightarrow> (Inl NoPassphrase, p)
           | Some h \<Rightarrow>
               if str_len passphrase > MAX_PASSWORD_LEN \<or> \<not> verify_password e passphrase h
               then (Inl WrongPassphrase, note_failure e p)
               else (Inr (), note_success p)))"

definition change_passphrase :: "world \<Rightarrow> Pairing \<Rightarrow> ustr \<Rightarrow> ustr \<Rightarrow> (PairError + unit) \<times> Pairing" where
  "change_passphrase e p current new =
     (case verify_passphrase e p current of
        (Inl err, p1) \<Rightarrow> (Inl err, p1)
      | (Inr _, p1) \<Rightarrow>
          if length new < MIN_PASSPHRASE_LEN \<or> str_len new > MAX_PASSWORD_LEN then (Inl PassphraseTooShort, p1)
          else
            (case hash_password e new of
               None \<Rightarrow> (Inl (Storage (lit ''hashing was interrupted'')), p1)
             | Some h \<Rightarrow>
                 (let st = (pa_state p1)\<lparr>owner_passphrase_hash := Some h\<rparr> in
                  (save_state e st, p1\<lparr>pa_state := st\<rparr>))))"

text \<open>Adding a device to the store and writing it, the tail the pairing operations share: \<open>f\<close> is what the
  operation sets besides, and \<open>after\<close> what follows a successful write.\<close>

definition add_and_save ::
    "world \<Rightarrow> Pairing \<Rightarrow> ustr option \<Rightarrow> ustr \<Rightarrow> (AuthState \<Rightarrow> AuthState) \<Rightarrow> (Pairing \<Rightarrow> Pairing)
      \<Rightarrow> (PairError + IssuedDevice) \<times> Pairing" where
  "add_and_save e p device_name user_agent f after =
     (case add_device e (pa_state p) device_name user_agent of
        Inl err \<Rightarrow> (Inl err, p)
      | Inr (issued, st) \<Rightarrow>
          (let p1 = p\<lparr>pa_state := f st\<rparr> in
           case save_state e (f st) of
             Inl err \<Rightarrow> (Inl err, p1)
           | Inr _ \<Rightarrow> (Inr issued, after p1)))"

definition pair_with_passphrase ::
    "world \<Rightarrow> Pairing \<Rightarrow> ustr \<Rightarrow> ustr option \<Rightarrow> ustr \<Rightarrow> (PairError + IssuedDevice) \<times> Pairing" where
  "pair_with_passphrase e p passphrase device_name user_agent =
     (case verify_passphrase e p passphrase of
        (Inl err, p1) \<Rightarrow> (Inl err, p1)
      | (Inr _, p1) \<Rightarrow>
          add_and_save e p1 device_name user_agent (\<lambda>st. st\<lparr>setup_complete := True\<rparr>) close_setup_window)"

definition pair_with_account ::
    "world \<Rightarrow> Pairing \<Rightarrow> WebUser list \<Rightarrow> ustr \<Rightarrow> ustr \<Rightarrow> ustr option \<Rightarrow> ustr
      \<Rightarrow> (PairError + IssuedDevice) \<times> Pairing" where
  "pair_with_account e p users username password device_name user_agent =
     (case check_backoff e p of
        Inl err \<Rightarrow> (Inl err, p)
      | Inr _ \<Rightarrow>
          if \<not> credentials_are_valid e users username password then (Inl WrongPassphrase, note_failure e p)
          else
            (let h = map_option wu_password_hash (List.find (\<lambda>u. wu_username u = username) users) in
             add_and_save e (note_success p) device_name user_agent
               (\<lambda>st. (if owner_passphrase_hash st = None then st\<lparr>owner_passphrase_hash := h\<rparr> else st)
                       \<lparr>setup_complete := True\<rparr>) close_setup_window))"

section \<open>Codes from a trusted browser\<close>

definition u32_of_le_bytes :: "bytes \<Rightarrow> nat" where
  "u32_of_le_bytes raw = unat (raw ! 0) + 256 * unat (raw ! 1) + 65536 * unat (raw ! 2) + 16777216 * unat (raw ! 3)"

text \<open>\<open>{:06}\<close> and \<open>{:04}\<close> of a number that fits.\<close>

definition padded_decimal :: "nat \<Rightarrow> nat \<Rightarrow> ustr" where
  "padded_decimal width n = map (\<lambda>i. 48 + n div 10 ^ i mod 10) (rev [0..<width])"

definition mint_code :: "world \<Rightarrow> Pairing \<Rightarrow> (PairError + ustr \<times> duration) \<times> Pairing" where
  "mint_code e p =
     (case random_bytes e 4 of
        Inl err \<Rightarrow> (Inl (Storage err), p)
      | Inr raw \<Rightarrow>
          (let code = padded_decimal 6 (u32_of_le_bytes raw mod 1000000) in
           (Inr (code, PAIR_CODE_TTL),
            p\<lparr>pa_pair_code := Some \<lparr>pc_code = code, pc_created = clock_now e, pc_wrong = 0\<rparr>\<rparr>)))"

text \<open>The part of \<open>pair_with_code\<close> under the lock of the code.\<close>

definition check_pair_code :: "world \<Rightarrow> Pairing \<Rightarrow> ustr \<Rightarrow> (PairError + unit) \<times> Pairing" where
  "check_pair_code e p given =
     (case pa_pair_code p of
        None \<Rightarrow> (Inl NoCode, p)
      | Some pc \<Rightarrow>
          if elapsed (clock_now e) (pc_created pc) \<ge> PAIR_CODE_TTL then (Inl NoCode, p\<lparr>pa_pair_code := None\<rparr>)
          else if \<not> ct_eq (utf8_bytes (pc_code pc)) (utf8_bytes given) then
            (let wrong = pc_wrong pc + 1 in
             if wrong \<ge> MAX_CODE_ATTEMPTS then (Inl NoCode, p\<lparr>pa_pair_code := None\<rparr>)
             else (Inl (WrongToken (MAX_CODE_ATTEMPTS - wrong)), p\<lparr>pa_pair_code := Some (pc\<lparr>pc_wrong := wrong\<rparr>)\<rparr>))
          else (Inr (), p\<lparr>pa_pair_code := None\<rparr>))"

definition pair_with_code ::
    "world \<Rightarrow> Pairing \<Rightarrow> ustr \<Rightarrow> ustr option \<Rightarrow> ustr \<Rightarrow> (PairError + IssuedDevice) \<times> Pairing" where
  "pair_with_code e p code device_name user_agent =
     (case check_pair_code e p (filter is_ascii_digit code) of
        (Inl err, p1) \<Rightarrow> (Inl err, p1)
      | (Inr _, p1) \<Rightarrow> add_and_save e p1 device_name user_agent (\<lambda>st. st) (\<lambda>q. q))"

section \<open>Trusted devices\<close>

definition touch_device :: "world \<Rightarrow> Pairing \<Rightarrow> ustr \<Rightarrow> Pairing" where
  "touch_device e p i =
     (let due = (case pa_last_seen_written p i of
                   Some l \<Rightarrow> \<not> (elapsed (clock_now e) l < LAST_SEEN_INTERVAL) | None \<Rightarrow> True) in
      if \<not> due then p
      else
        (let st = pa_state p in
         p\<lparr>pa_last_seen_written := (pa_last_seen_written p)(i := Some (clock_now e)),
           pa_state := st\<lparr>devices := update_first (\<lambda>d. td_id d = i) (\<lambda>d. d\<lparr>td_last_seen := wall_clock e\<rparr>) (devices st)\<rparr>\<rparr>))"

definition find_device :: "world \<Rightarrow> AuthState \<Rightarrow> ustr \<Rightarrow> TrustedDevice option" where
  "find_device e st cookie_token =
     (if cookie_token = [] \<or> str_len cookie_token > 128 then None
      else
        (let digest = sha256 e (utf8_bytes cookie_token) in
         case List.find (\<lambda>d. td_id d = hex (take 8 digest)) (devices st) of
           None \<Rightarrow> None
         | Some found \<Rightarrow>
             if \<not> ct_eq (utf8_bytes (td_token_sha256 found)) (utf8_bytes (hex digest)) then None else Some found))"

definition authenticate :: "world \<Rightarrow> Pairing \<Rightarrow> ustr \<Rightarrow> TrustedDevice option \<times> Pairing" where
  "authenticate e p cookie_token =
     (case find_device e (pa_state p) cookie_token of
        None \<Rightarrow> (None, p)
      | Some d \<Rightarrow> (Some d, touch_device e p (td_id d)))"

definition device_infos :: "Pairing \<Rightarrow> ustr option \<Rightarrow> DeviceInfo list" where
  "device_infos p current_id =
     map (\<lambda>d. \<lparr>di_id = td_id d, di_name = td_name d, di_created = td_created d, di_last_seen = td_last_seen d,
               di_user_agent = td_user_agent d, di_current = (current_id = Some (td_id d))\<rparr>) (devices (pa_state p))"

definition rename_device :: "world \<Rightarrow> Pairing \<Rightarrow> ustr \<Rightarrow> ustr \<Rightarrow> (PairError + unit) \<times> Pairing" where
  "rename_device e p i name =
     (let n = trim name; st = pa_state p in
      if n = [] \<or> length n > 64 then (Inl NoSuchDevice, p)
      else if List.find (\<lambda>d. td_id d = i) (devices st) = None then (Inl NoSuchDevice, p)
      else
        (let st1 = st\<lparr>devices := update_first (\<lambda>d. td_id d = i) (\<lambda>d. d\<lparr>td_name := n\<rparr>) (devices st)\<rparr> in
         (save_state e st1, p\<lparr>pa_state := st1\<rparr>)))"

definition revoke_device :: "world \<Rightarrow> Pairing \<Rightarrow> ustr \<Rightarrow> (PairError + unit) \<times> Pairing" where
  "revoke_device e p i =
     (let st = pa_state p; kept = filter (\<lambda>d. td_id d \<noteq> i) (devices st) in
      if length kept = length (devices st) then (Inl NoSuchDevice, p)
      else (save_state e (st\<lparr>devices := kept\<rparr>), p\<lparr>pa_state := st\<lparr>devices := kept\<rparr>\<rparr>))"

section \<open>Loading\<close>

definition pairing_with :: "AuthState \<Rightarrow> Picture DisplayOverride option \<Rightarrow> Pairing" where
  "pairing_with st display =
     \<lparr>pa_state = st, pa_setup = None, pa_backoff = backoff_default, pa_last_seen_written = (\<lambda>_. None),
      pa_display = display, pa_pair_code = None, pa_press = None, pa_fingerprint = False,
      pa_showing_fingerprint = False\<rparr>"

text \<open>The file as read: an error, nothing there, or its text; \<open>parse\<close> reads the text.\<close>

definition pairing_load ::
    "(ustr \<Rightarrow> ustr + AuthState) \<Rightarrow> ustr + ustr option \<Rightarrow> Picture DisplayOverride option \<Rightarrow> PairError + Pairing" where
  "pairing_load parse file display =
     (case file of
        Inl err \<Rightarrow> Inl (Storage err)
      | Inr None \<Rightarrow> Inr (pairing_with auth_default display)
      | Inr (Some text) \<Rightarrow>
          (case parse text of
             Inl err \<Rightarrow> Inl (Storage err)
           | Inr st \<Rightarrow> Inr (pairing_with st display)))"

end
