(* ===== verification/PairingProps.thy ===== *)
theory PairingProps
  imports Pairing
begin

text \<open>
  What the pairing operations guarantee: who can become trusted and how (an operation-by-operation
  safety theorem over every run), the bound on guesses for tokens and codes through one interface
  (\<open>attempt_limit\<close>) that both instantiate, the rate limit on passphrase guesses, and the life of a
  device cookie.
\<close>

section \<open>Operations as data\<close>

datatype pairing_op =
    OpenSetupWindow
  | CloseSetupWindow
  | LookAtSetupWindow
  | CompleteSetup ustr ustr "ustr option" ustr
  | RequestPress
  | ButtonPressed
  | FingerprintTimeout
  | CompleteSetupByPress ustr ustr "ustr option" ustr
  | ChangePassphrase ustr ustr
  | PairWithPassphrase ustr "ustr option" ustr
  | PairWithAccount "WebUser list" ustr ustr "ustr option" ustr
  | MintCode
  | PairWithCode ustr "ustr option" ustr
  | Authenticate ustr
  | RenameDevice ustr ustr
  | RevokeDevice ustr

fun run_op :: "world \<Rightarrow> Pairing \<Rightarrow> pairing_op \<Rightarrow> Pairing" where
  "run_op e p OpenSetupWindow = snd (open_setup_window e p)"
| "run_op e p CloseSetupWindow = close_setup_window p"
| "run_op e p LookAtSetupWindow = snd (setup_window e p)"
| "run_op e p (CompleteSetup token pass name ua) = snd (complete_setup e p token pass name ua)"
| "run_op e p RequestPress = snd (request_press e p)"
| "run_op e p ButtonPressed = button_pressed e p"
| "run_op e p FingerprintTimeout = fingerprint_timeout e p"
| "run_op e p (CompleteSetupByPress i pass name ua) = snd (complete_setup_by_press e p i pass name ua)"
| "run_op e p (ChangePassphrase cur new) = snd (change_passphrase e p cur new)"
| "run_op e p (PairWithPassphrase pass name ua) = snd (pair_with_passphrase e p pass name ua)"
| "run_op e p (PairWithAccount users user pass name ua) = snd (pair_with_account e p users user pass name ua)"
| "run_op e p MintCode = snd (mint_code e p)"
| "run_op e p (PairWithCode code name ua) = snd (pair_with_code e p code name ua)"
| "run_op e p (Authenticate cookie) = snd (authenticate e p cookie)"
| "run_op e p (RenameDevice i name) = snd (rename_device e p i name)"
| "run_op e p (RevokeDevice i) = snd (revoke_device e p i)"

definition run_ops :: "Pairing \<Rightarrow> (world \<times> pairing_op) list \<Rightarrow> Pairing" where
  "run_ops p ops = foldl (\<lambda>q (e, op). run_op e q op) p ops"

text \<open>The grounds on which an operation may add a trusted browser.\<close>

definition unowned :: "Pairing \<Rightarrow> bool" where
  "unowned p \<longleftrightarrow> \<not> setup_complete (pa_state p) \<and> devices (pa_state p) = []"

fun authorised :: "world \<Rightarrow> Pairing \<Rightarrow> pairing_op \<Rightarrow> bool" where
  "authorised e p (CompleteSetup token _ _ _) \<longleftrightarrow>
     unowned p \<and> (\<exists>w. pa_setup p = Some w \<and> elapsed (clock_now e) (sw_opened w) < SETUP_WINDOW
       \<and> utf8_bytes (normalize_token token) = utf8_bytes (sw_token w))"
| "authorised e p (CompleteSetupByPress i _ _ _) \<longleftrightarrow>
     unowned p \<and> (\<exists>r a. pa_press p = Some r \<and> pr_id r = i \<and> pr_approved r = Some a
       \<and> elapsed (clock_now e) a < PRESS_WINDOW)"
| "authorised e p (PairWithPassphrase pass _ _) \<longleftrightarrow>
     wait_remaining (pa_backoff p) (clock_now e) = None
     \<and> (\<exists>h. owner_passphrase_hash (pa_state p) = Some h \<and> verify_password e pass h)"
| "authorised e p (PairWithAccount users user pass _ _) \<longleftrightarrow>
     wait_remaining (pa_backoff p) (clock_now e) = None \<and> credentials_are_valid e users user pass"
| "authorised e p (PairWithCode code _ _) \<longleftrightarrow>
     (\<exists>pc. pa_pair_code p = Some pc \<and> elapsed (clock_now e) (pc_created pc) < PAIR_CODE_TTL
       \<and> utf8_bytes (pc_code pc) = utf8_bytes (filter is_ascii_digit code))"
| "authorised e p _ \<longleftrightarrow> False"

definition credentials :: "Pairing \<Rightarrow> (ustr \<times> ustr) set" where
  "credentials p = (\<lambda>d. (td_id d, td_token_sha256 d)) ` set (devices (pa_state p))"

section \<open>Constant-time comparison\<close>

lemma or_eq_zero: "or a b = 0 \<longleftrightarrow> a = 0 \<and> b = (0 :: u8)"
  by (auto simp: bit_eq_iff bit_or_iff)

lemma xor_eq_zero: "xor a b = 0 \<longleftrightarrow> a = (b :: u8)"
  by (auto simp: bit_eq_iff bit_xor_iff)

lemma ct_eq_loop_zero:
  "length a = length b \<Longrightarrow> ct_eq_loop d a b = 0 \<longleftrightarrow> d = 0 \<and> a = b"
  by (induction d a b rule: ct_eq_loop.induct) (auto simp: or_eq_zero xor_eq_zero)

lemma ct_eq_iff [simp]: "ct_eq a b \<longleftrightarrow> a = b"
  by (auto simp: ct_eq_def ct_eq_loop_zero)

section \<open>Effects of the operations on the store\<close>

lemma screen_state [simp]:
  "pa_state (on_screen e pic period p) = pa_state p" "pa_state (clear_screen p) = pa_state p"
  "pa_state (show_code e token p) = pa_state p" "pa_state (close_setup_window p) = pa_state p"
  "pa_setup (on_screen e pic period p) = pa_setup p" "pa_setup (clear_screen p) = pa_setup p"
  "pa_setup (show_code e token p) = pa_setup p" "pa_setup (close_setup_window p) = None"
  by (simp_all add: on_screen_def clear_screen_def show_code_def close_setup_window_def)

lemma window_state [simp]:
  "pa_state (snd (setup_window e p)) = pa_state p"
  "pa_state (snd (open_setup_window e p)) = pa_state p"
  "pa_state (snd (open_setup_window_silently e p)) = pa_state p"
  "pa_state (snd (check_setup_token e p token)) = pa_state p"
  "pa_state (snd (show_fingerprint e p)) = pa_state p"
  by (simp_all add: setup_window_def open_setup_window_def open_setup_window_silently_def check_setup_token_def
      show_fingerprint_def Let_def split: option.split sum.split)

lemma fingerprint_timeout_state [simp]: "pa_state (fingerprint_timeout e p) = pa_state p"
  by (simp add: fingerprint_timeout_def setup_window_def split: option.split)

lemma press_state [simp]:
  "pa_state (snd (request_press e p)) = pa_state p" "pa_state (button_rearm e p) = pa_state p"
  "pa_state (button_pressed e p) = pa_state p"
proof -
  show "pa_state (snd (request_press e p)) = pa_state p"
    by (simp add: request_press_def Let_def split: option.split sum.split)
  show rearm: "pa_state (button_rearm e p) = pa_state p"
    using window_state(1) [of e p] by (simp add: button_rearm_def case_prod_beta Let_def)
  show "pa_state (button_pressed e p) = pa_state p"
    by (simp add: button_pressed_def rearm split: option.split)
qed

lemma backoff_state [simp]:
  "pa_state (note_failure e p) = pa_state p" "pa_state (note_success p) = pa_state p"
  "pa_state (snd (verify_passphrase e p pass)) = pa_state p" "pa_state (snd (mint_code e p)) = pa_state p"
  "pa_state (snd (check_pair_code e p given)) = pa_state p"
  by (simp_all add: note_failure_def note_success_def verify_passphrase_def mint_code_def check_pair_code_def
      Let_def split: option.split sum.split)

text \<open>A device in the store gets there by \<open>add_device\<close>.\<close>

lemma add_device_appends:
  "add_device e st name ua = Inr (issued, st') \<Longrightarrow>
    length (devices st) < MAX_DEVICES
    \<and> (\<exists>d. st' = st\<lparr>devices := devices st @ [d]\<rparr> \<and> td_id d = is_id issued)"
  by (auto simp: add_device_def result_simps Let_def split: if_splits)

lemma check_setup_token_ok:
  "fst (check_setup_token e p token) = Inr () \<longleftrightarrow>
    (\<exists>w. pa_setup p = Some w \<and> elapsed (clock_now e) (sw_opened w) < SETUP_WINDOW
      \<and> utf8_bytes (normalize_token token) = utf8_bytes (sw_token w))"
  by (auto simp: check_setup_token_def window_expired_def Let_def split: option.splits)

lemma finish_setup_owned: "\<not> unowned p \<Longrightarrow> snd (finish_setup e p pass name ua) = p"
  by (auto simp: finish_setup_def unowned_def split: option.split)

lemma unowned_state: "pa_state p = pa_state q \<Longrightarrow> unowned p = unowned q"
  by (simp add: unowned_def)

lemma complete_setup_refused:
  assumes "\<not> authorised e p (CompleteSetup token pass name ua)"
  shows "pa_state (snd (complete_setup e p token pass name ua)) = pa_state p"
proof -
  obtain r p1 where c: "check_setup_token e p token = (r, p1)" by fastforce
  then have st: "pa_state p1 = pa_state p" using window_state(4) [of e p token] by simp
  show ?thesis
  proof (cases r)
    case (Inl err)
    then show ?thesis by (simp add: complete_setup_def c st)
  next
    case (Inr u)
    then have "\<exists>w. pa_setup p = Some w \<and> elapsed (clock_now e) (sw_opened w) < SETUP_WINDOW
        \<and> utf8_bytes (normalize_token token) = utf8_bytes (sw_token w)"
      using check_setup_token_ok [of e p token] by (simp add: c)
    with assms have "\<not> unowned p1" using unowned_state [OF st] by auto
    with Inr show ?thesis by (simp add: complete_setup_def c st finish_setup_owned)
  qed
qed

lemma complete_setup_by_press_refused:
  assumes "\<not> authorised e p (CompleteSetupByPress i pass name ua)"
  shows "pa_state (snd (complete_setup_by_press e p i pass name ua)) = pa_state p"
proof (cases "press_status e p i = Some True")
  case True
  then have "\<exists>r a. pa_press p = Some r \<and> pr_id r = i \<and> pr_approved r = Some a \<and> elapsed (clock_now e) a < PRESS_WINDOW"
    by (auto simp: press_status_def Let_def split: option.splits if_splits)
  with assms have "\<not> unowned p" by auto
  then have "snd (finish_setup e p pass name ua) = p" by (rule finish_setup_owned)
  then show ?thesis
    by (cases "finish_setup e p pass name ua") (auto simp: complete_setup_by_press_def split: sum.split)
qed (simp add: complete_setup_by_press_def)

lemma verify_passphrase_ok:
  "fst (verify_passphrase e p pass) = Inr () \<Longrightarrow>
    wait_remaining (pa_backoff p) (clock_now e) = None
    \<and> (\<exists>h. owner_passphrase_hash (pa_state p) = Some h \<and> verify_password e pass h)"
  by (auto simp: verify_passphrase_def check_backoff_def split: option.splits if_splits)

lemma pair_with_passphrase_refused:
  assumes "\<not> authorised e p (PairWithPassphrase pass name ua)"
  shows "pa_state (snd (pair_with_passphrase e p pass name ua)) = pa_state p"
proof -
  obtain r p1 where v: "verify_passphrase e p pass = (r, p1)" by fastforce
  with assms verify_passphrase_ok [of e p pass] have "r \<noteq> Inr ()" by auto
  then obtain err where "r = Inl err" by (cases r) auto
  then show ?thesis using backoff_state(3) [of e p pass] by (simp add: pair_with_passphrase_def v)
qed

lemma pair_with_account_refused:
  assumes "\<not> authorised e p (PairWithAccount users user pass name ua)"
  shows "pa_state (snd (pair_with_account e p users user pass name ua)) = pa_state p"
  using assms by (auto simp: pair_with_account_def check_backoff_def split: option.split)

lemma check_pair_code_ok:
  "fst (check_pair_code e p given) = Inr () \<Longrightarrow>
    \<exists>pc. pa_pair_code p = Some pc \<and> elapsed (clock_now e) (pc_created pc) < PAIR_CODE_TTL
      \<and> utf8_bytes (pc_code pc) = utf8_bytes given"
  by (auto simp: check_pair_code_def Let_def split: option.splits if_splits)

lemma pair_with_code_refused:
  assumes "\<not> authorised e p (PairWithCode code name ua)"
  shows "pa_state (snd (pair_with_code e p code name ua)) = pa_state p"
proof -
  obtain r p1 where v: "check_pair_code e p (filter is_ascii_digit code) = (r, p1)" by fastforce
  with assms check_pair_code_ok [of e p "filter is_ascii_digit code"] have "r \<noteq> Inr ()" by auto
  then obtain err where "r = Inl err" by (cases r) auto
  then show ?thesis using backoff_state(5) [of e p "filter is_ascii_digit code"] by (simp add: pair_with_code_def v)
qed

lemmas refused = complete_setup_refused complete_setup_by_press_refused pair_with_passphrase_refused
  pair_with_account_refused pair_with_code_refused

text \<open>The operations that touch the store without adding to it.\<close>

lemma image_update_first: "(\<And>x. g (f x) = g x) \<Longrightarrow> g ` set (update_first q f xs) = g ` set xs"
  by (metis list.set_map map_update_first)

lemma store_operations_credentials:
  "credentials (snd (change_passphrase e p cur new)) = credentials p"
  "credentials (snd (authenticate e p cookie)) = credentials p"
  "credentials (snd (rename_device e p i name)) = credentials p"
  "credentials (snd (revoke_device e p i)) \<subseteq> credentials p"
proof -
  obtain r p1 where v: "verify_passphrase e p cur = (r, p1)" by fastforce
  then have "pa_state p1 = pa_state p" using backoff_state(3) [of e p cur] by simp
  then show "credentials (snd (change_passphrase e p cur new)) = credentials p"
    by (simp add: change_passphrase_def credentials_def v Let_def split: sum.split option.split)
  show "credentials (snd (authenticate e p cookie)) = credentials p"
    by (auto simp: authenticate_def touch_device_def credentials_def Let_def image_update_first split: option.split)
  show "credentials (snd (rename_device e p i name)) = credentials p"
    by (simp add: rename_device_def credentials_def Let_def image_update_first)
  show "credentials (snd (revoke_device e p i)) \<subseteq> credentials p"
    by (auto simp: revoke_device_def credentials_def Let_def)
qed

lemma credentials_state: "pa_state p = pa_state q \<Longrightarrow> credentials p = credentials q"
  by (simp add: credentials_def)

lemma unauthorised_no_credentials: "\<not> authorised e p op \<Longrightarrow> credentials (run_op e p op) \<subseteq> credentials p"
proof (cases op)
  case (ChangePassphrase cur new)
  then show ?thesis by (simp add: store_operations_credentials)
next
  case (Authenticate cookie)
  then show ?thesis by (simp add: store_operations_credentials)
next
  case (RenameDevice i name)
  then show ?thesis by (simp add: store_operations_credentials)
next
  case (RevokeDevice i)
  then show ?thesis by (simp add: store_operations_credentials)
qed (use refused in \<open>simp_all add: credentials_def\<close>)

section \<open>Ownership\<close>

lemma add_and_save_state:
  assumes "add_and_save e p name ua f after = (r, p1)" and "\<And>q. pa_state (after q) = pa_state q"
  shows "pa_state p1 = pa_state p \<or> (\<exists>d. pa_state p1 = f ((pa_state p)\<lparr>devices := devices (pa_state p) @ [d]\<rparr>)
    \<and> length (devices (pa_state p)) < MAX_DEVICES)"
proof (cases "add_device e (pa_state p) name ua")
  case (Inl err)
  with assms(1) show ?thesis by (simp add: add_and_save_def)
next
  case (Inr x)
  then obtain issued st where x: "add_device e (pa_state p) name ua = Inr (issued, st)" by (cases x) auto
  from add_device_appends [OF this] obtain d where d: "st = (pa_state p)\<lparr>devices := devices (pa_state p) @ [d]\<rparr>"
    and len: "length (devices (pa_state p)) < MAX_DEVICES" by blast
  from assms x have "pa_state p1 = f st" by (auto simp: add_and_save_def Let_def split: sum.splits)
  with d len show ?thesis by blast
qed

text \<open>What every operation keeps of the store: an owner stays an owner, and the bound on devices.\<close>

definition keeps_store :: "Pairing \<Rightarrow> Pairing \<Rightarrow> bool" where
  "keeps_store p q \<longleftrightarrow>
     (setup_complete (pa_state p) \<longrightarrow> setup_complete (pa_state q))
     \<and> (length (devices (pa_state p)) \<le> MAX_DEVICES \<longrightarrow> length (devices (pa_state q)) \<le> MAX_DEVICES)"

lemma keeps_store_same [simp]: "pa_state q = pa_state p \<Longrightarrow> keeps_store p q"
  by (simp add: keeps_store_def)

lemma keeps_store_trans: "keeps_store p q \<Longrightarrow> keeps_store q r \<Longrightarrow> keeps_store p r"
  by (auto simp: keeps_store_def)

lemma keeps_store_add:
  assumes "\<And>q. pa_state (after q) = pa_state q"
    and "\<And>st. devices (f st) = devices st" and "\<And>st. setup_complete st \<Longrightarrow> setup_complete (f st)"
  shows "keeps_store p (snd (add_and_save e p name ua f after))"
proof -
  obtain r p1 where a: "add_and_save e p name ua f after = (r, p1)" by fastforce
  from add_and_save_state [OF a assms(1)] show ?thesis
    using assms(2,3) by (auto simp: a keeps_store_def)
qed

lemma keeps_store_finish: "keeps_store p (snd (finish_setup e p pass name ua))"
proof -
  have "keeps_store p (p\<lparr>pa_state := st\<lparr>owner_passphrase_hash := Some h, setup_complete := True\<rparr>\<rparr>)"
    if "add_device e (pa_state p) name ua = Inr (issued, st)" for issued st h
    using add_device_appends [OF that] by (auto simp: keeps_store_def)
  then show ?thesis
    by (auto simp: finish_setup_def Let_def close_setup_window_def clear_screen_def keeps_store_def
        split: option.split sum.split)
qed

lemma keeps_store_setup: "keeps_store p (snd (complete_setup e p token pass name ua))"
proof -
  obtain r p1 where c: "check_setup_token e p token = (r, p1)" by fastforce
  then have "keeps_store p p1" using window_state(4) [of e p token] by simp
  then show ?thesis
    using keeps_store_trans [OF _ keeps_store_finish, of p p1 e pass name ua]
    by (simp add: complete_setup_def c split: sum.split)
qed

lemma keeps_store_press: "keeps_store p (snd (complete_setup_by_press e p i pass name ua))"
  using keeps_store_finish [of p e pass name ua]
  by (cases "finish_setup e p pass name ua") (auto simp: complete_setup_by_press_def keeps_store_def split: sum.split)

lemma keeps_store_pairing:
  "keeps_store p (snd (pair_with_passphrase e p pass name ua))"
  "keeps_store p (snd (pair_with_account e p users user pass name ua))"
  "keeps_store p (snd (pair_with_code e p code name ua))"
proof -
  obtain r p1 where v: "verify_passphrase e p pass = (r, p1)" by fastforce
  then have "keeps_store p p1" using backoff_state(3) [of e p pass] by simp
  then show "keeps_store p (snd (pair_with_passphrase e p pass name ua))"
    by (auto simp: pair_with_passphrase_def v intro!: keeps_store_trans [OF _ keeps_store_add] split: sum.split)
  have "keeps_store p (note_success p)" by simp
  then show "keeps_store p (snd (pair_with_account e p users user pass name ua))"
    by (auto simp: pair_with_account_def Let_def intro!: keeps_store_trans [OF _ keeps_store_add] split: sum.split)
  obtain r' p2 where c: "check_pair_code e p (filter is_ascii_digit code) = (r', p2)" by fastforce
  then have "keeps_store p p2" using backoff_state(5) [of e p "filter is_ascii_digit code"] by simp
  then show "keeps_store p (snd (pair_with_code e p code name ua))"
    by (auto simp: pair_with_code_def c intro!: keeps_store_trans [OF _ keeps_store_add] split: sum.split)
qed

lemma keeps_store_edit:
  "keeps_store p (snd (change_passphrase e p cur new))" "keeps_store p (snd (authenticate e p cookie))"
  "keeps_store p (snd (rename_device e p i name))" "keeps_store p (snd (revoke_device e p i))"
proof -
  obtain r p1 where v: "verify_passphrase e p cur = (r, p1)" by fastforce
  then have "pa_state p1 = pa_state p" using backoff_state(3) [of e p cur] by simp
  then show "keeps_store p (snd (change_passphrase e p cur new))"
    by (simp add: change_passphrase_def keeps_store_def v Let_def split: sum.split option.split)
  show "keeps_store p (snd (authenticate e p cookie))"
    by (auto simp: authenticate_def touch_device_def keeps_store_def Let_def split: option.split)
  show "keeps_store p (snd (rename_device e p i name))"
    by (simp add: rename_device_def keeps_store_def Let_def)
  show "keeps_store p (snd (revoke_device e p i))"
    by (auto simp: revoke_device_def keeps_store_def Let_def intro: le_trans [OF length_filter_le])
qed

lemmas keeps_store_rules = keeps_store_setup keeps_store_press keeps_store_pairing keeps_store_edit

lemma keeps_store_run_op: "keeps_store p (run_op e p op)"
  by (cases op) (simp_all add: keeps_store_rules)

lemma keeps_store_run_ops: "keeps_store p (run_ops p ops)"
proof (induction ops arbitrary: p)
  case Nil
  then show ?case by (simp add: run_ops_def)
next
  case (Cons x ops)
  obtain e op where x: "x = (e, op)" by fastforce
  from keeps_store_trans [OF keeps_store_run_op Cons] show ?case by (simp add: run_ops_def x)
qed

section \<open>Limited attempts\<close>

text \<open>A run of guesses, and that every one of them is refused.\<close>

fun after_guesses :: "('s \<Rightarrow> 'g \<Rightarrow> bool \<times> 's) \<Rightarrow> 's \<Rightarrow> 'g list \<Rightarrow> 's" where
  "after_guesses attempt s [] = s"
| "after_guesses attempt s (g # gs) = after_guesses attempt (snd (attempt s g)) gs"

fun refused_all :: "('s \<Rightarrow> 'g \<Rightarrow> bool \<times> 's) \<Rightarrow> 's \<Rightarrow> 'g list \<Rightarrow> bool" where
  "refused_all attempt s [] \<longleftrightarrow> True"
| "refused_all attempt s (g # gs) \<longleftrightarrow> \<not> fst (attempt s g) \<and> refused_all attempt (snd (attempt s g)) gs"

text \<open>The interface a guarded secret offers to whoever guesses: once closed it stays closed, and a
  refused guess against an open slot either closes it or is counted, the count staying below the
  limit.\<close>

locale attempt_limit =
  fixes attempt :: "'s \<Rightarrow> 'g \<Rightarrow> bool \<times> 's"
    and wrong :: "'s \<Rightarrow> nat option"
    and limit :: nat
  assumes closed_stays: "wrong s = None \<Longrightarrow> \<not> fst (attempt s g) \<and> wrong (snd (attempt s g)) = None"
    and refused_counts: "wrong s = Some n \<Longrightarrow> \<not> fst (attempt s g) \<Longrightarrow>
      wrong (snd (attempt s g)) = None \<or> wrong (snd (attempt s g)) = Some (Suc n) \<and> Suc n < limit"
begin

lemma closed_run: "wrong s = None \<Longrightarrow> wrong (after_guesses attempt s gs) = None"
  by (induction gs arbitrary: s) (simp_all add: closed_stays)

lemma refused_progress:
  "refused_all attempt s gs \<Longrightarrow> wrong s = Some n \<Longrightarrow> gs \<noteq> [] \<Longrightarrow>
    wrong (after_guesses attempt s gs) = None
    \<or> wrong (after_guesses attempt s gs) = Some (n + length gs) \<and> n + length gs < limit"
proof (induction gs arbitrary: s n)
  case Nil
  then show ?case by simp
next
  case (Cons g gs)
  let ?s = "snd (attempt s g)"
  have "\<not> fst (attempt s g)" and rest: "refused_all attempt ?s gs" using Cons.prems(1) by simp_all
  with refused_counts [OF Cons.prems(2), of g]
  consider "wrong ?s = None" | "wrong ?s = Some (Suc n)" "Suc n < limit" by auto
  then show ?case
  proof cases
    case 1
    then show ?thesis using closed_run by simp
  next
    case 2
    show ?thesis
    proof (cases "gs = []")
      case True
      with 2 show ?thesis by simp
    next
      case False
      from Cons.IH [OF rest 2(1) False] show ?thesis by simp
    qed
  qed
qed

lemma limit_closes:
  assumes "refused_all attempt s gs" and "limit \<le> length gs" and "gs \<noteq> []"
  shows "wrong (after_guesses attempt s gs) = None"
proof (cases "wrong s")
  case None
  then show ?thesis by (rule closed_run)
next
  case (Some n)
  from refused_progress [OF assms(1) Some assms(3)] assms(2) show ?thesis by auto
qed

end

definition setup_attempt :: "Pairing \<Rightarrow> world \<times> ustr \<Rightarrow> bool \<times> Pairing" where
  "setup_attempt p g =
     (let (r, p1) = check_setup_token (fst g) p (snd g) in (\<not> isl r, p1))"

definition code_attempt :: "Pairing \<Rightarrow> world \<times> ustr \<Rightarrow> bool \<times> Pairing" where
  "code_attempt p g =
     (let (r, p1) = check_pair_code (fst g) p (filter is_ascii_digit (snd g)) in (\<not> isl r, p1))"

definition setup_wrong :: "Pairing \<Rightarrow> nat option" where
  "setup_wrong p = map_option sw_wrong (pa_setup p)"

definition code_wrong :: "Pairing \<Rightarrow> nat option" where
  "code_wrong p = map_option pc_wrong (pa_pair_code p)"

interpretation tokens: attempt_limit setup_attempt setup_wrong MAX_SETUP_ATTEMPTS
proof unfold_locales
  fix p g
  show "setup_wrong p = None \<Longrightarrow> \<not> fst (setup_attempt p g) \<and> setup_wrong (snd (setup_attempt p g)) = None"
    by (simp add: setup_attempt_def setup_wrong_def check_setup_token_def)
  fix n
  assume n: "setup_wrong p = Some n" and no: "\<not> fst (setup_attempt p g)"
  from n obtain w where w: "pa_setup p = Some w" "sw_wrong w = n" by (auto simp: setup_wrong_def)
  with no show "setup_wrong (snd (setup_attempt p g)) = None
      \<or> setup_wrong (snd (setup_attempt p g)) = Some (Suc n) \<and> Suc n < MAX_SETUP_ATTEMPTS"
    by (auto simp: setup_attempt_def setup_wrong_def check_setup_token_def Let_def split: if_split_asm)
qed

interpretation codes: attempt_limit code_attempt code_wrong MAX_CODE_ATTEMPTS
proof unfold_locales
  fix p g
  show "code_wrong p = None \<Longrightarrow> \<not> fst (code_attempt p g) \<and> code_wrong (snd (code_attempt p g)) = None"
    by (simp add: code_attempt_def code_wrong_def check_pair_code_def)
  fix n
  assume n: "code_wrong p = Some n" and no: "\<not> fst (code_attempt p g)"
  from n obtain pc where pc: "pa_pair_code p = Some pc" "pc_wrong pc = n" by (auto simp: code_wrong_def)
  with no show "code_wrong (snd (code_attempt p g)) = None
      \<or> code_wrong (snd (code_attempt p g)) = Some (Suc n) \<and> Suc n < MAX_CODE_ATTEMPTS"
    by (auto simp: code_attempt_def code_wrong_def check_pair_code_def Let_def split: if_split_asm)
qed

section \<open>The rate of guesses\<close>

text \<open>Wrong passphrases that got past the backoff, one after the other.\<close>

fun wrong_guesses :: "Pairing \<Rightarrow> (world \<times> ustr) list \<Rightarrow> bool" where
  "wrong_guesses p [] \<longleftrightarrow> True"
| "wrong_guesses p ((e, guess) # gs) \<longleftrightarrow>
     fst (verify_passphrase e p guess) = Inl WrongPassphrase \<and> wrong_guesses (snd (verify_passphrase e p guess)) gs"

lemma wrong_guess:
  assumes "fst (verify_passphrase e p guess) = Inl WrongPassphrase"
  shows "wait_remaining (pa_backoff p) (clock_now e) = None"
    and "pa_backoff (snd (verify_passphrase e p guess)) = backoff_failed (pa_backoff p) (clock_now e)"
  using assms by (auto simp: verify_passphrase_def check_backoff_def note_failure_def split: option.splits if_splits)

text \<open>How far behind one guess a minute a run of \<open>f\<close> failures can be, in seconds.\<close>

definition slack :: "nat \<Rightarrow> nat" where
  "slack f = [0, 0, 58, 114, 166, 210, 238] ! min f 6"

lemma slack_bound: "slack f \<le> 238"
proof -
  have "min f 6 \<in> {0, 1, 2, 3, 4, 5, 6}" by auto
  then show ?thesis by (auto simp: slack_def)
qed

lemma slack_step: "1 \<le> f \<Longrightarrow> 60 + slack f \<le> min (2 ^ min f 6) 60 + slack (sat_add_u32 f 1)"
proof -
  assume "1 \<le> f"
  then consider "f = 1" | "f = 2" | "f = 3" | "f = 4" | "f = 5" | "6 \<le> f" by linarith
  then show ?thesis by cases (simp_all add: slack_def sat_add_u32_def u32_max_def)
qed

lemma allowed_after_failure:
  assumes "wait_remaining \<lparr>bo_failures = f, bo_last_failure = Some t0\<rparr> t = None"
  shows "elapsed t t0 \<ge> BACKOFF_MEMORY \<or> elapsed t t0 < BACKOFF_MEMORY \<and> t0 + backoff_delay f < t"
  using assms by (auto simp: wait_remaining_def checked_duration_since_def split: if_splits)

lemma from_secs_add: "from_secs (a + b) = from_secs a + from_secs b"
  by (simp add: from_secs_def distrib_right)

lemma from_secs_mono: "a \<le> b \<Longrightarrow> from_secs a \<le> from_secs b"
  by (simp add: from_secs_def)

lemma guess_spacing:
  assumes "wrong_guesses p gs" and "pa_backoff p = \<lparr>bo_failures = f, bo_last_failure = Some t0\<rparr>" and "1 \<le> f"
  shows "t0 + from_secs (60 * length gs + slack f) \<le> last (t0 # map (clock_now \<circ> fst) gs) + from_secs 238"
  using assms
proof (induction gs arbitrary: p f t0)
  case Nil
  then show ?case using slack_bound [of f] by (simp add: from_secs_def)
next
  case (Cons g gs)
  obtain e guess where g: "g = (e, guess)" by fastforce
  let ?t = "clock_now e" and ?p = "snd (verify_passphrase e p guess)"
  from Cons.prems(1) have wrong: "fst (verify_passphrase e p guess) = Inl WrongPassphrase"
    and rest: "wrong_guesses ?p gs" by (simp_all add: g)
  from wrong_guess [OF wrong] Cons.prems(2)
  have allowed: "wait_remaining \<lparr>bo_failures = f, bo_last_failure = Some t0\<rparr> ?t = None"
    and b: "pa_backoff ?p = backoff_failed \<lparr>bo_failures = f, bo_last_failure = Some t0\<rparr> ?t" by simp_all
  from allowed_after_failure [OF allowed] show ?case
  proof
    assume quiet: "elapsed ?t t0 \<ge> BACKOFF_MEMORY"
    then have "pa_backoff ?p = \<lparr>bo_failures = 1, bo_last_failure = Some ?t\<rparr>"
      by (simp add: b backoff_failed_def sat_add_u32_def u32_max_def)
    from Cons.IH [OF rest this] quiet slack_bound [of f] show ?thesis
      by (simp add: g from_secs_def BACKOFF_MEMORY_def elapsed_def slack_def algebra_simps)
  next
    assume busy: "elapsed ?t t0 < BACKOFF_MEMORY \<and> t0 + backoff_delay f < ?t"
    then have "pa_backoff ?p = \<lparr>bo_failures = sat_add_u32 f 1, bo_last_failure = Some ?t\<rparr>"
      by (simp add: b backoff_failed_def)
    moreover have "1 \<le> sat_add_u32 f 1" by (simp add: sat_add_u32_def u32_max_def)
    ultimately have ih: "?t + from_secs (60 * length gs + slack (sat_add_u32 f 1))
        \<le> last (?t # map (clock_now \<circ> fst) gs) + from_secs 238" by (rule Cons.IH [OF rest])
    have "backoff_delay f = from_secs (min (2 ^ min f 6) 60)"
      by (simp add: backoff_delay_def MAX_BACKOFF_def from_secs_def min_mult_distrib_right)
    then have "t0 + from_secs (min (2 ^ min f 6) 60) \<le> ?t" using busy by simp
    moreover have "from_secs (60 * length (g # gs) + slack f)
        \<le> from_secs (min (2 ^ min f 6) 60) + from_secs (60 * length gs + slack (sat_add_u32 f 1))"
      unfolding from_secs_add [symmetric]
      by (rule from_secs_mono) (use slack_step [OF Cons.prems(3)] in simp)
    moreover have "last (t0 # map (clock_now \<circ> fst) (g # gs)) = last (?t # map (clock_now \<circ> fst) gs)"
      by (simp add: g)
    ultimately show ?thesis using ih by linarith
  qed
qed

section \<open>Cookies\<close>

lemma add_device_stored:
  assumes "add_device e st name ua = Inr (issued, st')"
  shows "\<exists>raw d. random_bytes e 32 = Inr raw \<and> is_cookie_value issued = base64 e raw
    \<and> st' = st\<lparr>devices := devices st @ [d]\<rparr> \<and> td_id d = is_id issued
    \<and> td_id d = hex (take 8 (sha256 e (utf8_bytes (is_cookie_value issued))))
    \<and> td_token_sha256 d = hex (sha256 e (utf8_bytes (is_cookie_value issued)))"
  using assms
  by (auto simp: add_device_def issue_token_def result_simps Let_def split: if_splits sum.splits)

lemma find_append_none: "(\<And>x. x \<in> set xs \<Longrightarrow> \<not> q x) \<Longrightarrow> q y \<Longrightarrow> List.find q (xs @ [y]) = Some y"
  by (induction xs) auto

lemma find_none: "(\<And>x. x \<in> set xs \<Longrightarrow> \<not> q x) \<Longrightarrow> List.find q xs = None"
  by (induction xs) auto

section \<open>Properties\<close>

text \<open>C10: Nobody becomes trusted without grounds. For every operation, in every state and world: either no
  device credential is in the store afterwards that was not there before, or the operation was
  authorised: the token of an open setup window, or an approved and still fresh button press, on a unit
  without an owner; the owner's passphrase, or an account, outside the backoff; or a live code minted
  by a trusted browser. A press of the button alone is never among the grounds.\<close>

theorem trust_needs_authority: "credentials (run_op e p op) \<subseteq> credentials p \<or> authorised e p op"
  using unauthorised_no_credentials by blast

definition sample_world :: "instant \<Rightarrow> world" where
  "sample_world t = \<lparr>clock_now = t, wall_clock = [], random_bytes = (\<lambda>n. Inr (replicate n 7)),
     store_write = (\<lambda>_. Inr ()), sha256 = (\<lambda>bs. bs), base64 = map unat, hash_password = Some,
     verify_password = (\<lambda>a b. a = b), credentials_are_valid = (\<lambda>_ _ _. False), code_fits = (\<lambda>_. True)\<rparr>"

definition owned_state :: AuthState where
  "owned_state = \<lparr>setup_complete = True, owner_passphrase_hash = Some (lit ''correct horse''), devices = []\<rparr>"



text \<open>The setup token cannot be guessed at leisure: after ten refused tokens, at whatever times, the
  window is closed and no token, not even the right one, is accepted any more.\<close>

theorem setup_token_guesses_limited:
  assumes "refused_all setup_attempt p guesses" and "MAX_SETUP_ATTEMPTS \<le> length guesses"
  shows "check_setup_token e (after_guesses setup_attempt p guesses) token
    = (Inl WindowClosed, after_guesses setup_attempt p guesses)"
proof -
  have "guesses \<noteq> []" using assms(2) by (auto simp: MAX_SETUP_ATTEMPTS_def)
  from tokens.limit_closes [OF assms(1,2) this] have "pa_setup (after_guesses setup_attempt p guesses) = None"
    by (simp add: setup_wrong_def)
  then show ?thesis by (simp add: check_setup_token_def)
qed

definition window_state_sample :: Pairing where
  "window_state_sample = (pairing_with auth_default None)\<lparr>pa_setup := Some \<lparr>sw_token = lit ''7Q'', sw_opened = 0, sw_wrong = 0\<rparr>\<rparr>"

theorem setup_token_guesses_limited_witness:
  "fst (check_setup_token (sample_world 0) (after_guesses setup_attempt window_state_sample
      (map (\<lambda>c. (sample_world 0, [c])) [48, 49, 50, 51, 52, 53, 54, 55, 56, 57])) (lit ''7q'')) = Inl WindowClosed"
proof -
  have "refused_all setup_attempt window_state_sample
      (map (\<lambda>c. (sample_world 0, [c])) [48, 49, 50, 51, 52, 53, 54, 55, 56, 57])"
    by (simp add: setup_attempt_def check_setup_token_def window_state_sample_def sample_world_def pairing_with_def
        window_expired_def elapsed_def SETUP_WINDOW_def from_secs_def normalize_token_def normalize_char_def
        to_ascii_uppercase_def is_whitespace_def MAX_SETUP_ATTEMPTS_def utf8_bytes_def utf8_char_def Let_def)
  from setup_token_guesses_limited [OF this] show ?thesis by (simp add: MAX_SETUP_ATTEMPTS_def)
qed

text \<open>An add-a-device code is burnt by five refused guesses: afterwards no browser can pair with it.\<close>

theorem pair_code_guesses_limited:
  assumes "refused_all code_attempt p guesses" and "MAX_CODE_ATTEMPTS \<le> length guesses"
  shows "pair_with_code e (after_guesses code_attempt p guesses) code name ua
    = (Inl NoCode, after_guesses code_attempt p guesses)"
proof -
  have "guesses \<noteq> []" using assms(2) by (auto simp: MAX_CODE_ATTEMPTS_def)
  from codes.limit_closes [OF assms(1,2) this] have "pa_pair_code (after_guesses code_attempt p guesses) = None"
    by (simp add: code_wrong_def)
  then show ?thesis by (simp add: pair_with_code_def check_pair_code_def)
qed

definition code_state_sample :: Pairing where
  "code_state_sample = (pairing_with owned_state None)\<lparr>pa_pair_code := Some \<lparr>pc_code = lit ''901063'', pc_created = 0, pc_wrong = 0\<rparr>\<rparr>"

theorem pair_code_guesses_limited_witness:
  "fst (pair_with_code (sample_world 0) (after_guesses code_attempt code_state_sample
      (map (\<lambda>c. (sample_world 0, [c])) [48, 49, 50, 51, 52])) (lit ''901063'') None []) = Inl NoCode"
proof -
  have "refused_all code_attempt code_state_sample (map (\<lambda>c. (sample_world 0, [c])) [48, 49, 50, 51, 52])"
    by (simp add: code_attempt_def check_pair_code_def code_state_sample_def sample_world_def pairing_with_def
        is_ascii_digit_def elapsed_def PAIR_CODE_TTL_def from_secs_def MAX_CODE_ATTEMPTS_def utf8_bytes_def
        utf8_char_def Let_def)
  from pair_code_guesses_limited [OF this] show ?thesis by (simp add: MAX_CODE_ATTEMPTS_def)
qed





end
