(* ===== verification/StepUp.thy ===== *)
theory StepUp
  imports PairingProps
begin

text \<open>
  The second gate in front of the terminal (\<open>daemon/src/stepup.rs\<close>): a code on the unit's screen, or a
  press of its button, opens a window for one browser that use extends and a hard cap ends. A
  \<open>HashMap\<close> is a partial map; where the code iterates over its values, the list of them in the order of
  iteration comes from a parameter (\<open>pendings\<close>, \<open>windows\<close> of \<open>hash_order\<close>), of which only that it lists
  the values is ever used.
\<close>

section \<open>State\<close>

definition CODE_TTL :: duration where "CODE_TTL = from_secs 60"
definition WINDOW :: duration where "WINDOW = from_secs (5 * 60)"
definition HARD_CAP :: duration where "HARD_CAP = from_secs (30 * 60)"
definition MAX_WRONG :: nat where "MAX_WRONG = 3"
definition BANNER :: ustr where "BANNER = lit ''TERMINAL ACTIVE''"

datatype StepUpError = NoPending | Expired | WrongCode nat | TooManyWrong | NotYours

record Pending =
  pe_device_id :: ustr
  pe_code :: ustr
  pe_started :: instant
  pe_wrong :: nat

record Window =
  wi_opened :: instant
  wi_last_used :: instant

definition expires_at :: "Window \<Rightarrow> instant" where
  "expires_at w = min (wi_last_used w + WINDOW) (wi_opened w + HARD_CAP)"

datatype StepPicture = TerminalCode ustr

record StepUp =
  su_pending :: "ustr \<Rightarrow> Pending option"
  su_windows :: "ustr \<Rightarrow> Window option"
  su_display :: "StepPicture DisplayOverride option"

record hash_order =
  pendings :: "(ustr \<Rightarrow> Pending option) \<Rightarrow> Pending list"
  windows :: "(ustr \<Rightarrow> Window option) \<Rightarrow> Window list"

definition stepup_new :: "StepPicture DisplayOverride option \<Rightarrow> StepUp" where
  "stepup_new display = \<lparr>su_pending = (\<lambda>_. None), su_windows = (\<lambda>_. None), su_display = display\<rparr>"

definition has_screen :: "StepUp \<Rightarrow> bool" where
  "has_screen s \<longleftrightarrow> su_display s \<noteq> None"

section \<open>Operations\<close>

definition new_code :: "(nat \<Rightarrow> ustr + bytes) \<Rightarrow> ustr" where
  "new_code random =
     (case random 4 of Inl _ \<Rightarrow> [] | Inr raw \<Rightarrow> padded_decimal 4 (u32_of_le_bytes raw mod 10000))"

definition retain :: "('v \<Rightarrow> bool) \<Rightarrow> ('k \<Rightarrow> 'v option) \<Rightarrow> ('k \<Rightarrow> 'v option)" where
  "retain keep m = (\<lambda>k. case m k of Some v \<Rightarrow> if keep v then Some v else None | None \<Rightarrow> None)"

definition pending_live :: "instant \<Rightarrow> Pending \<Rightarrow> bool" where
  "pending_live t p \<longleftrightarrow> elapsed t (pe_started p) < CODE_TTL"

definition stepup_start ::
    "(nat \<Rightarrow> ustr + bytes) \<Rightarrow> instant \<Rightarrow> StepUp \<Rightarrow> ustr \<Rightarrow> (StepUpError + duration) \<times> StepUp" where
  "stepup_start random t s device_id =
     (let code = new_code random in
      if code = [] then (Inl Expired, s)
      else
        (let pending = (retain (pending_live t) (su_pending s))
               (device_id := Some \<lparr>pe_device_id = device_id, pe_code = code, pe_started = t, pe_wrong = 0\<rparr>) in
         (Inr CODE_TTL,
          s\<lparr>su_pending := pending,
            su_display := map_option (\<lambda>d. override_show d t (TerminalCode code) CODE_TTL) (su_display s)\<rparr>)))"

text \<open>\<open>max_by_key\<close>: the last of the greatest.\<close>

fun max_by :: "('a \<Rightarrow> 'k :: linorder) \<Rightarrow> 'a list \<Rightarrow> 'a option" where
  "max_by key [] = None"
| "max_by key (x # xs) =
     (case max_by key xs of None \<Rightarrow> Some x | Some m \<Rightarrow> Some (if key x > key m then x else m))"

definition take_pending_if ::
    "hash_order \<Rightarrow> instant \<Rightarrow> StepUp \<Rightarrow> ustr option \<Rightarrow> (Pending \<Rightarrow> (StepUpError + unit) \<times> Pending)
      \<Rightarrow> (StepUpError + ustr) \<times> StepUp" where
  "take_pending_if order t s device_id check =
     (let guard = retain (pending_live t) (su_pending s); s1 = s\<lparr>su_pending := guard\<rparr>;
          key = (case device_id of
                   Some i \<Rightarrow> Some i
                 | None \<Rightarrow> map_option pe_device_id (max_by pe_started (pendings order guard))) in
      case key of
        None \<Rightarrow> (Inl NoPending, s1)
      | Some k \<Rightarrow>
          (case guard k of
             None \<Rightarrow> (Inl NoPending, s1)
           | Some p \<Rightarrow>
               (case check p of
                  (Inr _, _) \<Rightarrow> (Inr k, s1\<lparr>su_pending := guard(k := None)\<rparr>)
                | (Inl TooManyWrong, _) \<Rightarrow> (Inl TooManyWrong, s1\<lparr>su_pending := guard(k := None)\<rparr>)
                | (Inl err, p1) \<Rightarrow> (Inl err, s1\<lparr>su_pending := guard(k := Some p1)\<rparr>))))"

definition refresh_banner :: "hash_order \<Rightarrow> instant \<Rightarrow> StepUp \<Rightarrow> StepUp" where
  "refresh_banner order t s =
     (case su_display s of
        None \<Rightarrow> s
      | Some d \<Rightarrow>
          (let live = retain (\<lambda>w. t < expires_at w) (su_windows s);
               longest = (case map expires_at (windows order live) of
                            [] \<Rightarrow> None
                          | x # xs \<Rightarrow> checked_duration_since (foldl max x xs) t) in
           s\<lparr>su_windows := live,
             su_display := Some (case longest of Some left \<Rightarrow> show_banner d t BANNER left | None \<Rightarrow> clear_banner d)\<rparr>))"

definition open_window :: "hash_order \<Rightarrow> instant \<Rightarrow> StepUp \<Rightarrow> ustr \<Rightarrow> duration \<times> StepUp" where
  "open_window order t s device_id =
     (let s1 = s\<lparr>su_windows := (su_windows s)(device_id := Some \<lparr>wi_opened = t, wi_last_used = t\<rparr>),
                  su_display := map_option override_clear (su_display s)\<rparr> in
      (WINDOW, refresh_banner order t s1))"

definition check_code :: "ustr \<Rightarrow> Pending \<Rightarrow> (StepUpError + unit) \<times> Pending" where
  "check_code code p =
     (if ct_eq (utf8_bytes (pe_code p)) (utf8_bytes code) then (Inr (), p)
      else
        (let n = pe_wrong p + 1; p1 = p\<lparr>pe_wrong := n\<rparr> in
         if n \<ge> MAX_WRONG then (Inl TooManyWrong, p1) else (Inl (WrongCode (MAX_WRONG - n)), p1)))"

definition stepup_confirm ::
    "hash_order \<Rightarrow> instant \<Rightarrow> StepUp \<Rightarrow> ustr \<Rightarrow> ustr \<Rightarrow> (StepUpError + duration) \<times> StepUp" where
  "stepup_confirm order t s device_id code =
     (case take_pending_if order t s (Some device_id) (check_code (filter is_ascii_digit code)) of
        (Inl err, s1) \<Rightarrow> (Inl err, s1)
      | (Inr owner, s1) \<Rightarrow> (let (d, s2) = open_window order t s1 owner in (Inr d, s2)))"

definition stepup_button :: "hash_order \<Rightarrow> instant \<Rightarrow> StepUp \<Rightarrow> bool \<times> StepUp" where
  "stepup_button order t s =
     (case take_pending_if order t s None (\<lambda>p. (Inr (), p)) of
        (Inr owner, s1) \<Rightarrow> (True, snd (open_window order t s1 owner))
      | (Inl _, s1) \<Rightarrow> (False, s1))"

definition stepup_active :: "hash_order \<Rightarrow> instant \<Rightarrow> StepUp \<Rightarrow> ustr \<Rightarrow> bool \<times> StepUp" where
  "stepup_active order t s device_id =
     (let live = (case su_windows s device_id of Some w \<Rightarrow> t < expires_at w | None \<Rightarrow> False) in
      if \<not> live \<and> su_windows s device_id \<noteq> None
      then (live, refresh_banner order t (s\<lparr>su_windows := (su_windows s)(device_id := None)\<rparr>))
      else (live, s))"

definition stepup_extend :: "hash_order \<Rightarrow> instant \<Rightarrow> StepUp \<Rightarrow> ustr \<Rightarrow> StepUp" where
  "stepup_extend order t s device_id =
     refresh_banner order t
       (s\<lparr>su_windows := (case su_windows s device_id of
            Some w \<Rightarrow> (su_windows s)(device_id := Some (w\<lparr>wi_last_used := t\<rparr>)) | None \<Rightarrow> su_windows s)\<rparr>)"

definition stepup_remaining :: "instant \<Rightarrow> StepUp \<Rightarrow> ustr \<Rightarrow> duration option" where
  "stepup_remaining t s device_id =
     (case su_windows s device_id of Some w \<Rightarrow> checked_duration_since (expires_at w) t | None \<Rightarrow> None)"

definition stepup_end :: "hash_order \<Rightarrow> instant \<Rightarrow> StepUp \<Rightarrow> ustr \<Rightarrow> StepUp" where
  "stepup_end order t s device_id =
     refresh_banner order t (s\<lparr>su_windows := (su_windows s)(device_id := None)\<rparr>)"

section \<open>Runs\<close>

text \<open>A step of the terminal gate, with the browsers whose step-up it confirms.\<close>

inductive stepup_step :: "instant \<Rightarrow> StepUp \<Rightarrow> ustr option \<Rightarrow> StepUp \<Rightarrow> bool" for t :: instant where
  start: "stepup_step t s None (snd (stepup_start random t s device))"
| confirm: "stepup_confirm order t s device code = (Inr d, s') \<Longrightarrow> stepup_step t s (Some device) s'"
| refuse: "stepup_confirm order t s device code = (Inl err, s') \<Longrightarrow> stepup_step t s None s'"
| press: "take_pending_if order t s None (\<lambda>p. (Inr (), p)) = (Inr device, s1) \<Longrightarrow>
    stepup_button order t s = (True, s') \<Longrightarrow> stepup_step t s (Some device) s'"
| idle_press: "stepup_button order t s = (False, s') \<Longrightarrow> stepup_step t s None s'"
| look: "stepup_step t s None (snd (stepup_active order t s device))"
| extend: "stepup_step t s None (stepup_extend order t s device)"
| finish: "stepup_step t s None (stepup_end order t s device)"

text \<open>A history: the state reached and the confirmations on the way, newest first.\<close>

inductive stepup_history :: "StepUp \<Rightarrow> (instant \<times> ustr) list \<Rightarrow> bool" where
  begin_empty: "stepup_history (stepup_new display) []"
| quiet: "stepup_history s log \<Longrightarrow> stepup_step t s None s' \<Longrightarrow> stepup_history s' log"
| opened: "stepup_history s log \<Longrightarrow> stepup_step t s (Some device) s' \<Longrightarrow> stepup_history s' ((t, device) # log)"

inductive_cases stepup_stepE: "stepup_step t s log s'"

section \<open>Windows come from confirmations\<close>

lemma retain_eq_Some [simp]: "retain keep m k = Some v \<longleftrightarrow> m k = Some v \<and> keep v"
  by (auto simp: retain_def split: option.splits)

lemma refresh_banner_windows: "su_windows (refresh_banner order t s) d = Some w \<Longrightarrow> su_windows s d = Some w"
  by (auto simp: refresh_banner_def Let_def split: option.splits)

lemma take_pending_windows [simp]: "su_windows (snd (take_pending_if order t s dev check)) = su_windows s"
  by (simp add: take_pending_if_def Let_def split: option.split prod.split sum.split StepUpError.split)

lemma take_pending_ok:
  assumes "take_pending_if order t s dev check = (Inr k, s1)"
  shows "(\<exists>p. su_pending s k = Some p \<and> pending_live t p \<and> fst (check p) = Inr ()) \<and> (dev = Some i \<longrightarrow> k = i)
    \<and> su_windows s1 = su_windows s"
proof -
  have "su_windows s1 = su_windows s" using take_pending_windows [of order t s dev check] assms by simp
  moreover have "(\<exists>p. su_pending s k = Some p \<and> pending_live t p \<and> fst (check p) = Inr ()) \<and> (dev = Some i \<longrightarrow> k = i)"
    using assms unfolding take_pending_if_def Let_def
    by (auto split: option.split_asm prod.split_asm sum.split_asm StepUpError.split_asm)
  ultimately show ?thesis by blast
qed

lemma open_window_windows:
  "su_windows (snd (open_window order t s d)) x = Some w \<Longrightarrow>
    (x = d \<and> wi_opened w = t) \<or> su_windows s x = Some w"
  by (auto simp: open_window_def Let_def dest!: refresh_banner_windows split: if_splits)

text \<open>What a step that confirms has consumed: a code of that browser, less than a minute old.\<close>

lemma confirmation_consumes_live_code:
  assumes "stepup_step t s (Some device) s'"
  shows "\<exists>p. su_pending s device = Some p \<and> pending_live t p"
proof -
  have *: "\<exists>p. su_pending s device = Some p \<and> pending_live t p"
    if "stepup_confirm order t s device code = (Inr d, s')" for order code d
    using that take_pending_ok [of order t s "Some device" "check_code (filter is_ascii_digit code)"]
    by (fastforce simp: stepup_confirm_def split: prod.splits sum.splits)
  show ?thesis
    using assms by (cases rule: stepup_step.cases) (use * take_pending_ok in blast)+
qed

definition windows_justified :: "StepUp \<Rightarrow> (instant \<times> ustr) list \<Rightarrow> bool" where
  "windows_justified s log \<longleftrightarrow> (\<forall>d w. su_windows s d = Some w \<longrightarrow> (wi_opened w, d) \<in> set log)"

lemma confirm_windows:
  assumes "stepup_confirm order t s device code = (r, s')" and "su_windows s' x = Some w"
  shows "su_windows s x = Some w \<or> (x = device \<and> wi_opened w = t \<and> \<not> isl r)"
proof -
  obtain r1 s1 where tp: "take_pending_if order t s (Some device) (check_code (filter is_ascii_digit code)) = (r1, s1)"
    by fastforce
  then have "su_windows s1 = su_windows s"
    using take_pending_windows [of order t s "Some device" "check_code (filter is_ascii_digit code)"] by simp
  moreover have "k = device" if "r1 = Inr k" for k using take_pending_ok tp that by blast
  ultimately show ?thesis
    using assms open_window_windows [of order t s1 _ x w]
    by (cases r1) (auto simp: stepup_confirm_def tp case_prod_beta)
qed

lemma button_windows:
  assumes "stepup_button order t s = (r, s')" and "su_windows s' x = Some w"
  shows "su_windows s x = Some w
    \<or> (r \<and> wi_opened w = t \<and> fst (take_pending_if order t s None (\<lambda>p. (Inr (), p))) = Inr x)"
proof -
  obtain r1 s1 where tp: "take_pending_if order t s None (\<lambda>p. (Inr (), p)) = (r1, s1)" by fastforce
  then have "su_windows s1 = su_windows s"
    using take_pending_windows [of order t s None "\<lambda>p. (Inr (), p)"] by simp
  with assms show ?thesis
    using open_window_windows [of order t s1 _ x w] by (cases r1) (auto simp: stepup_button_def tp)
qed

lemma active_extend_end_windows:
  "su_windows (snd (stepup_active order t s d)) x = Some w \<Longrightarrow> su_windows s x = Some w"
  "su_windows (stepup_end order t s d) x = Some w \<Longrightarrow> su_windows s x = Some w"
  "su_windows (stepup_extend order t s d) x = Some w \<Longrightarrow> \<exists>v. su_windows s x = Some v \<and> wi_opened v = wi_opened w"
  by (auto simp: stepup_active_def stepup_end_def stepup_extend_def Let_def dest!: refresh_banner_windows
      split: if_splits option.splits)

lemma start_windows [simp]: "su_windows (snd (stepup_start random t s d)) = su_windows s"
  by (simp add: stepup_start_def Let_def)

lemma step_windows_justified:
  assumes "stepup_step t s c s'" and "windows_justified s log"
  shows "windows_justified s' (case c of None \<Rightarrow> log | Some d \<Rightarrow> (t, d) # log)"
  using assms
proof (cases rule: stepup_step.cases)
  case (confirm order device code d)
  with assms(2) confirm_windows [OF confirm(2)] show ?thesis by (fastforce simp: windows_justified_def)
next
  case (refuse order device code err)
  with assms(2) confirm_windows [OF refuse(2)] show ?thesis by (fastforce simp: windows_justified_def)
next
  case (press order device s1)
  with assms(2) button_windows [OF press(3)] show ?thesis by (fastforce simp: windows_justified_def)
next
  case (idle_press order)
  with assms(2) button_windows [OF idle_press(2)] show ?thesis by (fastforce simp: windows_justified_def)
next
  case (extend order device)
  with assms(2) show ?thesis by (fastforce simp: windows_justified_def dest: active_extend_end_windows(3))
qed (use assms(2) in \<open>auto simp: windows_justified_def dest: active_extend_end_windows(1,2)\<close>)

lemma history_windows_justified: "stepup_history s log \<Longrightarrow> windows_justified s log"
proof (induction rule: stepup_history.induct)
  case (begin_empty display)
  then show ?case by (simp add: windows_justified_def stepup_new_def)
next
  case (quiet s log t s')
  then show ?case using step_windows_justified by fastforce
next
  case (opened s log t device s')
  then show ?case using step_windows_justified by fastforce
qed

section \<open>Guesses\<close>

definition step_attempt :: "ustr \<Rightarrow> StepUp \<Rightarrow> hash_order \<times> instant \<times> ustr \<Rightarrow> bool \<times> StepUp" where
  "step_attempt device s g =
     (case g of (order, t, code) \<Rightarrow> let (r, s1) = stepup_confirm order t s device code in (\<not> isl r, s1))"

definition step_wrong :: "ustr \<Rightarrow> StepUp \<Rightarrow> nat option" where
  "step_wrong device s = map_option pe_wrong (su_pending s device)"

lemma refused_pending:
  assumes "stepup_confirm order t s device code = (Inl err, s')"
  shows "su_pending s' device = None \<or> (\<exists>p. su_pending s device = Some p
    \<and> su_pending s' device = Some (p\<lparr>pe_wrong := Suc (pe_wrong p)\<rparr>) \<and> Suc (pe_wrong p) < MAX_WRONG)"
  using assms unfolding stepup_confirm_def take_pending_if_def Let_def
  by (auto simp: check_code_def case_prod_beta Let_def retain_def split: option.split_asm if_split_asm sum.split_asm)

lemma no_pending_refused:
  assumes "su_pending s device = None"
  shows "\<exists>s'. stepup_confirm order t s device code = (Inl NoPending, s') \<and> su_pending s' device = None"
  using assms by (simp add: stepup_confirm_def take_pending_if_def retain_def)

interpretation stepcodes: attempt_limit "step_attempt device" "step_wrong device" MAX_WRONG for device
proof unfold_locales
  fix s and g :: "hash_order \<times> instant \<times> ustr"
  obtain order t code where g: "g = (order, t, code)" by (cases g)
  show "step_wrong device s = None \<Longrightarrow> \<not> fst (step_attempt device s g) \<and> step_wrong device (snd (step_attempt device s g)) = None"
    using no_pending_refused [of s device order t code] by (auto simp: g step_attempt_def step_wrong_def)
  fix n
  assume "step_wrong device s = Some n" and "\<not> fst (step_attempt device s g)"
  then show "step_wrong device (snd (step_attempt device s g)) = None
      \<or> step_wrong device (snd (step_attempt device s g)) = Some (Suc n) \<and> Suc n < MAX_WRONG"
    using refused_pending [of order t s device code]
    by (cases "stepup_confirm order t s device code"; cases "fst (stepup_confirm order t s device code)")
      (auto simp: g step_attempt_def step_wrong_def)
qed

section \<open>Properties\<close>

text \<open>C12: The terminal is open to a browser only shortly after someone who could see or touch the unit
  said so: in every history, if the gate lets a browser in, that browser's step-up was confirmed
  less than thirty minutes before, however much it was used in between.\<close>

theorem terminal_needs_recent_confirmation:
  assumes "stepup_history s log" and "fst (stepup_active order t s device)"
  shows "\<exists>t0. (t0, device) \<in> set log \<and> t < t0 + HARD_CAP"
proof -
  from assms(2) obtain w where w: "su_windows s device = Some w" "t < expires_at w"
    by (auto simp: stepup_active_def Let_def split: option.splits if_splits)
  with history_windows_justified [OF assms(1)] have "(wi_opened w, device) \<in> set log"
    by (simp add: windows_justified_def)
  with w(2) show ?thesis by (auto simp: expires_at_def)
qed

definition sample_order :: hash_order where
  "sample_order = \<lparr>pendings = (\<lambda>m. case m (lit ''d'') of Some p \<Rightarrow> [p] | None \<Rightarrow> []),
     windows = (\<lambda>m. case m (lit ''d'') of Some w \<Rightarrow> [w] | None \<Rightarrow> [])\<rparr>"

definition sample_started :: StepUp where
  "sample_started = snd (stepup_start (\<lambda>n. Inr (replicate n 0)) 0 (stepup_new None) (lit ''d''))"

lemma sample_started_eq:
  "sample_started = \<lparr>su_pending = (\<lambda>_. None)(lit ''d'' := Some \<lparr>pe_device_id = lit ''d'', pe_code = lit ''0000'',
     pe_started = 0, pe_wrong = 0\<rparr>), su_windows = (\<lambda>_. None), su_display = None\<rparr>"
proof -
  have "new_code (\<lambda>n. Inr (replicate n 0)) = lit ''0000''"
    by (simp add: new_code_def u32_of_le_bytes_def padded_decimal_def upt_rec)
  moreover have "retain (pending_live 0) (\<lambda>_ :: ustr. None) = (\<lambda>_. None)" by (simp add: retain_def)
  ultimately show ?thesis by (simp add: sample_started_def stepup_start_def stepup_new_def Let_def)
qed

theorem terminal_needs_recent_confirmation_witness:
  "\<exists>s log t0. stepup_history s log \<and> fst (stepup_active sample_order 5 s (lit ''d''))
    \<and> (t0, lit ''d'') \<in> set log \<and> 5 < t0 + HARD_CAP"
proof -
  obtain dur s where s: "stepup_confirm sample_order 1 sample_started (lit ''d'') (lit ''0000'') = (Inr dur, s)"
    and w: "su_windows s (lit ''d'') = Some \<lparr>wi_opened = 1, wi_last_used = 1\<rparr>"
    by (simp add: sample_started_eq stepup_confirm_def take_pending_if_def check_code_def open_window_def
        refresh_banner_def retain_def pending_live_def elapsed_def CODE_TTL_def from_secs_def is_ascii_digit_def Let_def)
  have "stepup_history sample_started []"
    unfolding sample_started_def by (rule stepup_history.quiet [OF stepup_history.begin_empty stepup_step.start])
  from stepup_history.opened [OF this stepup_step.confirm [OF s]]
  have h: "stepup_history s [(1, lit ''d'')]" .
  have a: "fst (stepup_active sample_order 5 s (lit ''d''))"
    using w by (simp add: stepup_active_def expires_at_def WINDOW_def HARD_CAP_def from_secs_def Let_def)
  from terminal_needs_recent_confirmation [OF h a] h a show ?thesis by blast
qed

text \<open>Three wrong codes end a step-up: after them every further code of that browser is refused, the
  right one included, until it starts again.\<close>

theorem step_up_guesses_limited:
  assumes "refused_all (step_attempt device) s guesses" and "MAX_WRONG \<le> length guesses"
  shows "fst (stepup_confirm order t (after_guesses (step_attempt device) s guesses) device code) = Inl NoPending"
proof -
  have "guesses \<noteq> []" using assms(2) by (auto simp: MAX_WRONG_def)
  from stepcodes.limit_closes [OF assms(1,2) this]
  have "su_pending (after_guesses (step_attempt device) s guesses) device = None" by (simp add: step_wrong_def)
  from no_pending_refused [OF this, of order t code] show ?thesis by auto
qed

theorem step_up_guesses_limited_witness:
  "fst (stepup_confirm sample_order 1 (after_guesses (step_attempt (lit ''d'')) sample_started
      (map (\<lambda>c. (sample_order, 1, [c])) [49, 50, 51])) (lit ''d'') (lit ''0000'')) = Inl NoPending"
proof -
  have "refused_all (step_attempt (lit ''d'')) sample_started (map (\<lambda>c. (sample_order, 1, [c])) [49, 50, 51])"
    by (simp add: sample_started_eq step_attempt_def stepup_confirm_def take_pending_if_def check_code_def retain_def
        pending_live_def elapsed_def CODE_TTL_def from_secs_def is_ascii_digit_def Let_def MAX_WRONG_def utf8_bytes_def
        utf8_char_def)
  from step_up_guesses_limited [OF this] show ?thesis by (simp add: MAX_WRONG_def)
qed

end
