(* ===== verification/DiagLog.thy ===== *)
theory DiagLog
  imports Floats
begin

unbundle bit_operations_syntax

text \<open>
  The log records inside diag messages (\<open>lib/src/diag/diaglog/\<close>, \<open>Message\<close> of \<open>lib/src/diag/mod.rs\<close>): their
  data, and the accessors that hide the versions of a layout. Reading the bytes is derived by the deku
  macro and not modelled. The physical-layer measurements, which no code modelled here looks into, and
  the payload of a response are abstract (\<open>'x\<close>, \<open>'r\<close>).
\<close>

section \<open>LTE RRC records (rrc.rs)\<close>

datatype LteRrcOtaPacket =
    OtaV0 (ota_rrc_rel_maj: u8) (ota_rrc_rel_min: u8) (ota_bearer_id: u8) (ota_phy_cell_id: u16)
      (ota_earfcn16: u16) (ota_sfn_subfn: u16) (ota_pdu_num: u8) (ota_len: u16) (ota_packet: bytes)
  | OtaV5 (ota_rrc_rel_maj: u8) (ota_rrc_rel_min: u8) (ota_bearer_id: u8) (ota_phy_cell_id: u16)
      (ota_earfcn16: u16) (ota_sfn_subfn: u16) (ota_pdu_num: u8) (ota_sib_mask: u32) (ota_len: u16)
      (ota_packet: bytes)
  | OtaV8 (ota_rrc_rel_maj: u8) (ota_rrc_rel_min: u8) (ota_bearer_id: u8) (ota_phy_cell_id: u16)
      (ota_earfcn32: u32) (ota_sfn_subfn: u16) (ota_pdu_num: u8) (ota_sib_mask: u32) (ota_len: u16)
      (ota_packet: bytes)
  | OtaV25 (ota_rrc_rel_maj: u8) (ota_rrc_rel_min: u8) (ota_nr_rrc_rel_maj: u8) (ota_nr_rrc_rel_min: u8)
      (ota_bearer_id: u8) (ota_phy_cell_id: u16) (ota_earfcn32: u32) (ota_sfn_subfn: u16) (ota_pdu_num: u8)
      (ota_sib_mask: u32) (ota_len: u16) (ota_packet: bytes)

definition get_sfn_subfn :: "LteRrcOtaPacket \<Rightarrow> u16" where
  "get_sfn_subfn p = ota_sfn_subfn p"

definition get_sfn :: "LteRrcOtaPacket \<Rightarrow> u32" where
  "get_sfn p = drop_bit 4 (ucast (get_sfn_subfn p))"

definition get_subfn :: "LteRrcOtaPacket \<Rightarrow> u8" where
  "get_subfn p = ucast (get_sfn_subfn p AND 0xf)"

definition get_pdu_num :: "LteRrcOtaPacket \<Rightarrow> u8" where
  "get_pdu_num p = ota_pdu_num p"

definition get_earfcn :: "LteRrcOtaPacket \<Rightarrow> u32" where
  "get_earfcn p =
     (case p of
        OtaV0 _ _ _ _ earfcn _ _ _ _ \<Rightarrow> ucast earfcn
      | OtaV5 _ _ _ _ earfcn _ _ _ _ _ \<Rightarrow> ucast earfcn
      | OtaV8 _ _ _ _ earfcn _ _ _ _ _ \<Rightarrow> earfcn
      | OtaV25 _ _ _ _ _ _ earfcn _ _ _ _ _ \<Rightarrow> earfcn)"

definition take_payload :: "LteRrcOtaPacket \<Rightarrow> bytes" where
  "take_payload p = ota_packet p"

section \<open>LTE MAC records (mac.rs)\<close>

text \<open>Transport blocks. The fields in front of the header differ by version.\<close>

datatype DlBlock =
    DlV2 (dl_sfn_subfn: u16) (dl_rnti_type: u8) (dl_harq_id: u8) (dl_pmch_id: u16) (dl_tbs: u16)
      (dl_rlc_pdus: u8) (dl_padding: u16) (dl_header_len: u8) (dl_mac_header: bytes)
  | DlV4 (dl_sub_id: u8) (dl_cell_id: u8) (dl_sfn_subfn: u16) (dl_rnti_type: u8) (dl_harq_id: u8)
      (dl_pmch_id: u16) (dl_tbs: u16) (dl_rlc_pdus: u8) (dl_padding: u16) (dl_header_len: u8)
      (dl_mac_header: bytes)

datatype UlBlock =
    UlV1 (ul_harq_id: u8) (ul_rnti_type: u8) (ul_sfn_subfn: u16) (ul_grant: u16) (ul_rlc_pdus: u8)
      (ul_padding: u16) (ul_bsr_event: u8) (ul_bsr_trig: u8) (ul_header_len: u8) (ul_mac_header: bytes)
  | UlV2 (ul_sub_id: u8) (ul_cell_id: u8) (ul_harq_id: u8) (ul_rnti_type: u8) (ul_sfn_subfn: u16)
      (ul_grant: u16) (ul_rlc_pdus: u8) (ul_padding: u16) (ul_bsr_event: u8) (ul_bsr_trig: u8)
      (ul_header_len: u8) (ul_mac_header: bytes)

text \<open>Random access attempts. Which of the three messages mean anything is in the header's bit mask.\<close>

datatype AttemptHeader =
    AttemptV2 (at_num_attempt: u8) (at_rach_result: u8) (at_contention: u8) (at_msg_bitmask: u8)
  | AttemptV3 (at_sub_id: u8) (at_cell_id: u8) (at_num_attempt: u8) (at_rach_result: u8) (at_contention: u8)
      (at_msg_bitmask: u8)

definition get_bitmask :: "AttemptHeader \<Rightarrow> u8" where
  "get_bitmask h = at_msg_bitmask h"

definition has_msg1 :: "AttemptHeader \<Rightarrow> bool" where "has_msg1 h \<longleftrightarrow> get_bitmask h AND 0x01 > 0"
definition has_msg2 :: "AttemptHeader \<Rightarrow> bool" where "has_msg2 h \<longleftrightarrow> get_bitmask h AND 0x02 > 0"
definition has_msg3 :: "AttemptHeader \<Rightarrow> bool" where "has_msg3 h \<longleftrightarrow> get_bitmask h AND 0x04 > 0"

datatype Msg1 =
    Msg1V2 (m1_preamble_index: u8) (m1_preamble_index_mask: u8) (m1_preamble_power_offset: "16 word")
  | Msg1V3Or31 (m1_preamble_index: u8) (m1_preamble_index_mask: u8) (m1_preamble_power_offset: "16 word")
  | Msg1V32 (m1_preamble_index: u8) (m1_preamble_index_mask: u8) (m1_preamble_power_offset: "16 word")
      (m1_unk1: u16) (m1_group: u8)

definition get_preamble_index :: "Msg1 \<Rightarrow> u8" where
  "get_preamble_index m = m1_preamble_index m"

record Msg2 =
  m2_backoff :: u16
  m2_result :: u8
  m2_tc_rnti :: u16
  m2_ta :: u16

datatype Msg3Grant = GrantV1 (grant_value: u32) | GrantV32 (grant_value: u32)

record Msg3 =
  m3_grant :: Msg3Grant
  m3_unk_grant :: u16
  m3_harq_id :: u8
  m3_mac_pdu :: bytes

definition get_grant :: "Msg3 \<Rightarrow> u32" where
  "get_grant m = grant_value (m3_grant m)"

text \<open>Applied to a grant when it is read.\<close>

definition map_grant :: "u32 \<Rightarrow> u32" where
  "map_grant g = g AND 0xfffff"

record AdditionalInfo =
  ai_ul_earfcn :: u32
  ai_p_max :: u8
  ai_scell_id :: u8
  ai_unk1 :: u32
  ai_unk2 :: u32

record Attempt =
  ra_header :: AttemptHeader
  ra_msg1 :: Msg1
  ra_msg2 :: Msg2
  ra_msg3 :: Msg3
  ra_additional_info :: "AdditionalInfo option"

definition get_msg1 :: "Attempt \<Rightarrow> Msg1 option" where
  "get_msg1 a = (if has_msg1 (ra_header a) then Some (ra_msg1 a) else None)"

definition get_msg2 :: "Attempt \<Rightarrow> Msg2 option" where
  "get_msg2 a = (if has_msg2 (ra_header a) then Some (ra_msg2 a) else None)"

definition get_msg3 :: "Attempt \<Rightarrow> Msg3 option" where
  "get_msg3 a = (if has_msg3 (ra_header a) then Some (ra_msg3 a) else None)"

datatype SubpacketBody =
    RachAttempt Attempt
  | DlTransportBlock "DlBlock list"
  | UlTransportBlock "UlBlock list"
  | OtherSubpacket bytes

record Subpacket =
  sp_id :: u8
  sp_version :: u8
  sp_size :: u16
  sp_body :: SubpacketBody

record MacPacket =
  mp_version :: u8
  mp_num_subpackets :: u8
  mp_subpackets :: "Subpacket list"

section \<open>Log bodies and messages (diaglog/mod.rs, diag/mod.rs)\<close>

datatype Nas4GMessageDirection = NasDownlink | NasUplink

datatype 'x LogBody =
    WcdmaSignallingMessage u8 u8 u16 bytes
  | GsmRrSignallingMessage u8 u8 u8 bytes
  | GprsMacSignallingMessage u8 u8 u8 bytes
  | LteRrcOtaMessage u8 LteRrcOtaPacket
  | Nas4GMessage u16 Nas4GMessageDirection u8 u8 u8 u8 bytes
  | IpTraffic bytes
  | UmtsNasOtaMessage u8 u32 bytes
  | NrRrcOtaMessage bytes
  | LteMl1ServingCellMeasurementAndEvaluation 'x
  | LteMl1NeighborCellsMeasurements 'x
  | LteMacRachResponse MacPacket
  | LteMacDl MacPacket
  | LteMacUl MacPacket
  | LteLl1ServingCellTiming 'x

datatype ('x, 'r) Message =
    MessageLog (log_pending_msgs: u8) (log_outer_length: u16) (log_inner_length: u16) (log_log_type: u16)
      (log_timestamp: u64) (log_body: "'x LogBody")
  | MessageResponse 'r

section \<open>Timestamps\<close>

text \<open>\<open>Timestamp::to_datetime\<close>: 48 bits of 1.25 ms ticks and 16 bits of a finer count, added up in \<open>f64\<close>
  and truncated to whole milliseconds. A point in time is here a number of milliseconds since the
  epoch of 6 January 1980.\<close>

fun fl_as_i64 :: "fl \<Rightarrow> int" where
  "fl_as_i64 FNan = 0"
| "fl_as_i64 (FInf neg) = (if neg then - (2 ^ 63) else 2 ^ 63 - 1)"
| "fl_as_i64 (FFin q) = max (- (2 ^ 63)) (min (2 ^ 63 - 1) (if 0 \<le> q then \<lfloor>q\<rfloor> else \<lceil>q\<rceil>))"

definition to_datetime :: "u64 \<Rightarrow> int" where
  "to_datetime ts =
     (let upper = unat (drop_bit 16 ts); lower = unat (ts AND 0xffff);
          delta_seconds = fl_mul f64 (fl_of_nat f64 upper) (FFin (5 / 4));
          delta = fl_add f64 delta_seconds (fl_div f64 (fl_of_nat f64 lower) (FFin 40960)) in
      fl_as_i64 delta)"

end
