(* ===== verification/Gsmtap.thy ===== *)
theory Gsmtap
  imports RhPrelude
begin

unbundle bit_operations_syntax

text \<open>
  GSMTAP, the capture format every radio message passes through (\<open>lib/src/gsmtap/mod.rs\<close>): the packet
  types with their subtypes, the header and its sixteen bytes on the wire. The numeric subtypes are
  Rust enums with explicit values that \<open>num_enum\<close> converts from bytes; that conversion is the locale
  \<open>byte_enum\<close>, interpreted for each of them.
\<close>

section \<open>Subtypes\<close>

datatype LteNasSubtype =
    Nas_Plain | Nas_Secure

primrec nas_code :: "LteNasSubtype \<Rightarrow> u8" where
  "nas_code Nas_Plain = 0"
| "nas_code Nas_Secure = 1"

definition nas_all :: "LteNasSubtype list" where
  "nas_all =
    [Nas_Plain, Nas_Secure]"

datatype UmSubtype =
    Um_Unknown | Um_Bcch | Um_Ccch | Um_Rach | Um_Agch | Um_Pch | Um_Sdcch | Um_Sdcch4 |
    Um_Sdcch8 | Um_TchF | Um_TchH | Um_Pacch | Um_Cbch52 | Um_Pdch | Um_Ptcch | Um_Cbch51

primrec um_code :: "UmSubtype \<Rightarrow> u8" where
  "um_code Um_Unknown = 0"
| "um_code Um_Bcch = 1"
| "um_code Um_Ccch = 2"
| "um_code Um_Rach = 3"
| "um_code Um_Agch = 4"
| "um_code Um_Pch = 5"
| "um_code Um_Sdcch = 6"
| "um_code Um_Sdcch4 = 7"
| "um_code Um_Sdcch8 = 8"
| "um_code Um_TchF = 9"
| "um_code Um_TchH = 10"
| "um_code Um_Pacch = 11"
| "um_code Um_Cbch52 = 12"
| "um_code Um_Pdch = 13"
| "um_code Um_Ptcch = 14"
| "um_code Um_Cbch51 = 15"

definition um_all :: "UmSubtype list" where
  "um_all =
    [Um_Unknown, Um_Bcch, Um_Ccch, Um_Rach, Um_Agch, Um_Pch, Um_Sdcch, Um_Sdcch4, Um_Sdcch8,
     Um_TchF, Um_TchH, Um_Pacch, Um_Cbch52, Um_Pdch, Um_Ptcch, Um_Cbch51]"

datatype UmtsRrcSubtype =
    Umts_DlDcch | Umts_UlDcch | Umts_DlCcch | Umts_UlCcch | Umts_Pcch | Umts_DlShcch |
    Umts_UlShcch | Umts_BcchFach | Umts_BcchBch | Umts_Mcch | Umts_Msch |
    Umts_HandoverToUTRANCommand | Umts_InterRATHandoverInfo | Umts_SystemInformationBCH |
    Umts_SystemInformationContainer | Umts_UERadioAccessCapabilityInfo |
    Umts_MasterInformationBlock | Umts_SysInfoType1 | Umts_SysInfoType2 | Umts_SysInfoType3 |
    Umts_SysInfoType4 | Umts_SysInfoType5 | Umts_SysInfoType5bis | Umts_SysInfoType6 |
    Umts_SysInfoType7 | Umts_SysInfoType8 | Umts_SysInfoType9 | Umts_SysInfoType10 |
    Umts_SysInfoType11 | Umts_SysInfoType11bis | Umts_SysInfoType12 | Umts_SysInfoType13 |
    Umts_SysInfoType13_1 | Umts_SysInfoType13_2 | Umts_SysInfoType13_3 | Umts_SysInfoType13_4 |
    Umts_SysInfoType14 | Umts_SysInfoType15 | Umts_SysInfoType15bis | Umts_SysInfoType15_1 |
    Umts_SysInfoType15_1bis | Umts_SysInfoType15_2 | Umts_SysInfoType15_2bis |
    Umts_SysInfoType15_2ter | Umts_SysInfoType15_3 | Umts_SysInfoType15_3bis |
    Umts_SysInfoType15_4 | Umts_SysInfoType15_5 | Umts_SysInfoType15_6 | Umts_SysInfoType15_7 |
    Umts_SysInfoType15_8 | Umts_SysInfoType16 | Umts_SysInfoType17 | Umts_SysInfoType18 |
    Umts_SysInfoType19 | Umts_SysInfoType20 | Umts_SysInfoType21 | Umts_SysInfoType22 |
    Umts_SysInfoTypeSB1 | Umts_SysInfoTypeSB2 | Umts_ToTargetRNCContainer |
    Umts_TargetRNCToSourceRNCContainer

primrec umts_code :: "UmtsRrcSubtype \<Rightarrow> u8" where
  "umts_code Umts_DlDcch = 0"
| "umts_code Umts_UlDcch = 1"
| "umts_code Umts_DlCcch = 2"
| "umts_code Umts_UlCcch = 3"
| "umts_code Umts_Pcch = 4"
| "umts_code Umts_DlShcch = 5"
| "umts_code Umts_UlShcch = 6"
| "umts_code Umts_BcchFach = 7"
| "umts_code Umts_BcchBch = 8"
| "umts_code Umts_Mcch = 9"
| "umts_code Umts_Msch = 10"
| "umts_code Umts_HandoverToUTRANCommand = 11"
| "umts_code Umts_InterRATHandoverInfo = 12"
| "umts_code Umts_SystemInformationBCH = 13"
| "umts_code Umts_SystemInformationContainer = 14"
| "umts_code Umts_UERadioAccessCapabilityInfo = 15"
| "umts_code Umts_MasterInformationBlock = 16"
| "umts_code Umts_SysInfoType1 = 17"
| "umts_code Umts_SysInfoType2 = 18"
| "umts_code Umts_SysInfoType3 = 19"
| "umts_code Umts_SysInfoType4 = 20"
| "umts_code Umts_SysInfoType5 = 21"
| "umts_code Umts_SysInfoType5bis = 22"
| "umts_code Umts_SysInfoType6 = 23"
| "umts_code Umts_SysInfoType7 = 24"
| "umts_code Umts_SysInfoType8 = 25"
| "umts_code Umts_SysInfoType9 = 26"
| "umts_code Umts_SysInfoType10 = 27"
| "umts_code Umts_SysInfoType11 = 28"
| "umts_code Umts_SysInfoType11bis = 29"
| "umts_code Umts_SysInfoType12 = 30"
| "umts_code Umts_SysInfoType13 = 31"
| "umts_code Umts_SysInfoType13_1 = 32"
| "umts_code Umts_SysInfoType13_2 = 33"
| "umts_code Umts_SysInfoType13_3 = 34"
| "umts_code Umts_SysInfoType13_4 = 35"
| "umts_code Umts_SysInfoType14 = 36"
| "umts_code Umts_SysInfoType15 = 37"
| "umts_code Umts_SysInfoType15bis = 38"
| "umts_code Umts_SysInfoType15_1 = 39"
| "umts_code Umts_SysInfoType15_1bis = 40"
| "umts_code Umts_SysInfoType15_2 = 41"
| "umts_code Umts_SysInfoType15_2bis = 42"
| "umts_code Umts_SysInfoType15_2ter = 43"
| "umts_code Umts_SysInfoType15_3 = 44"
| "umts_code Umts_SysInfoType15_3bis = 45"
| "umts_code Umts_SysInfoType15_4 = 46"
| "umts_code Umts_SysInfoType15_5 = 47"
| "umts_code Umts_SysInfoType15_6 = 48"
| "umts_code Umts_SysInfoType15_7 = 49"
| "umts_code Umts_SysInfoType15_8 = 50"
| "umts_code Umts_SysInfoType16 = 51"
| "umts_code Umts_SysInfoType17 = 52"
| "umts_code Umts_SysInfoType18 = 53"
| "umts_code Umts_SysInfoType19 = 54"
| "umts_code Umts_SysInfoType20 = 55"
| "umts_code Umts_SysInfoType21 = 56"
| "umts_code Umts_SysInfoType22 = 57"
| "umts_code Umts_SysInfoTypeSB1 = 58"
| "umts_code Umts_SysInfoTypeSB2 = 59"
| "umts_code Umts_ToTargetRNCContainer = 60"
| "umts_code Umts_TargetRNCToSourceRNCContainer = 61"

definition umts_all :: "UmtsRrcSubtype list" where
  "umts_all =
    [Umts_DlDcch, Umts_UlDcch, Umts_DlCcch, Umts_UlCcch, Umts_Pcch, Umts_DlShcch, Umts_UlShcch,
     Umts_BcchFach, Umts_BcchBch, Umts_Mcch, Umts_Msch, Umts_HandoverToUTRANCommand,
     Umts_InterRATHandoverInfo, Umts_SystemInformationBCH, Umts_SystemInformationContainer,
     Umts_UERadioAccessCapabilityInfo, Umts_MasterInformationBlock, Umts_SysInfoType1,
     Umts_SysInfoType2, Umts_SysInfoType3, Umts_SysInfoType4, Umts_SysInfoType5,
     Umts_SysInfoType5bis, Umts_SysInfoType6, Umts_SysInfoType7, Umts_SysInfoType8,
     Umts_SysInfoType9, Umts_SysInfoType10, Umts_SysInfoType11, Umts_SysInfoType11bis,
     Umts_SysInfoType12, Umts_SysInfoType13, Umts_SysInfoType13_1, Umts_SysInfoType13_2,
     Umts_SysInfoType13_3, Umts_SysInfoType13_4, Umts_SysInfoType14, Umts_SysInfoType15,
     Umts_SysInfoType15bis, Umts_SysInfoType15_1, Umts_SysInfoType15_1bis, Umts_SysInfoType15_2,
     Umts_SysInfoType15_2bis, Umts_SysInfoType15_2ter, Umts_SysInfoType15_3,
     Umts_SysInfoType15_3bis, Umts_SysInfoType15_4, Umts_SysInfoType15_5, Umts_SysInfoType15_6,
     Umts_SysInfoType15_7, Umts_SysInfoType15_8, Umts_SysInfoType16, Umts_SysInfoType17,
     Umts_SysInfoType18, Umts_SysInfoType19, Umts_SysInfoType20, Umts_SysInfoType21,
     Umts_SysInfoType22, Umts_SysInfoTypeSB1, Umts_SysInfoTypeSB2, Umts_ToTargetRNCContainer,
     Umts_TargetRNCToSourceRNCContainer]"

datatype LteRrcSubtype =
    Rrc_DlCcch | Rrc_DlDcch | Rrc_UlCcch | Rrc_UlDcch | Rrc_BcchBch | Rrc_BcchDlSch | Rrc_PCCH |
    Rrc_MCCH | Rrc_BcchBchMbms | Rrc_BcchDlSchBr | Rrc_BcchDlSchMbms | Rrc_ScMcch |
    Rrc_SbcchSlBch | Rrc_SbcchSlBchV2x | Rrc_DlCcchNb | Rrc_DlDcchNb | Rrc_UlCcchNb |
    Rrc_UlDcchNb | Rrc_BcchBchNb | Rrc_BcchBchTddNb | Rrc_BcchDlSchNb | Rrc_PcchNb | Rrc_ScMcchNb

primrec rrc_code :: "LteRrcSubtype \<Rightarrow> u8" where
  "rrc_code Rrc_DlCcch = 0"
| "rrc_code Rrc_DlDcch = 1"
| "rrc_code Rrc_UlCcch = 2"
| "rrc_code Rrc_UlDcch = 3"
| "rrc_code Rrc_BcchBch = 4"
| "rrc_code Rrc_BcchDlSch = 5"
| "rrc_code Rrc_PCCH = 6"
| "rrc_code Rrc_MCCH = 7"
| "rrc_code Rrc_BcchBchMbms = 8"
| "rrc_code Rrc_BcchDlSchBr = 9"
| "rrc_code Rrc_BcchDlSchMbms = 10"
| "rrc_code Rrc_ScMcch = 11"
| "rrc_code Rrc_SbcchSlBch = 12"
| "rrc_code Rrc_SbcchSlBchV2x = 13"
| "rrc_code Rrc_DlCcchNb = 14"
| "rrc_code Rrc_DlDcchNb = 15"
| "rrc_code Rrc_UlCcchNb = 16"
| "rrc_code Rrc_UlDcchNb = 17"
| "rrc_code Rrc_BcchBchNb = 18"
| "rrc_code Rrc_BcchBchTddNb = 19"
| "rrc_code Rrc_BcchDlSchNb = 20"
| "rrc_code Rrc_PcchNb = 21"
| "rrc_code Rrc_ScMcchNb = 22"

definition rrc_all :: "LteRrcSubtype list" where
  "rrc_all =
    [Rrc_DlCcch, Rrc_DlDcch, Rrc_UlCcch, Rrc_UlDcch, Rrc_BcchBch, Rrc_BcchDlSch, Rrc_PCCH,
     Rrc_MCCH, Rrc_BcchBchMbms, Rrc_BcchDlSchBr, Rrc_BcchDlSchMbms, Rrc_ScMcch, Rrc_SbcchSlBch,
     Rrc_SbcchSlBchV2x, Rrc_DlCcchNb, Rrc_DlDcchNb, Rrc_UlCcchNb, Rrc_UlDcchNb, Rrc_BcchBchNb,
     Rrc_BcchBchTddNb, Rrc_BcchDlSchNb, Rrc_PcchNb, Rrc_ScMcchNb]"

text \<open>\<open>TryFromPrimitive\<close>: the variant with that value, if there is one.\<close>

definition try_from_code :: "('s \<Rightarrow> u8) \<Rightarrow> 's list \<Rightarrow> u8 \<Rightarrow> 's option" where
  "try_from_code code variants b = List.find (\<lambda>s. code s = b) variants"

locale byte_enum =
  fixes code :: "'s \<Rightarrow> u8" and variants :: "'s list"
  assumes complete: "\<And>s. s \<in> set variants"
    and values_differ: "distinct (map code variants)"
begin

lemma try_from_value: "try_from_code code variants (code s) = Some s"
proof -
  from complete obtain xs ys where v: "variants = xs @ s # ys" by (meson split_list)
  with values_differ have "\<forall>x \<in> set xs. code x \<noteq> code s" by (simp add: image_iff) metis
  then have "List.find (\<lambda>x. code x = code s) xs = None" by (simp add: find_None_iff)
  then show ?thesis
    unfolding try_from_code_def v by (induction xs) (auto split: if_splits)
qed

lemma try_from_only: "try_from_code code variants b = Some s \<Longrightarrow> code s = b"
  by (auto simp: try_from_code_def find_Some_iff)

end

interpretation nas: byte_enum nas_code nas_all
proof
  show "s \<in> set nas_all" for s by (cases s) (simp_all add: nas_all_def)
  show "distinct (map nas_code nas_all)" by (simp add: nas_all_def)
qed

interpretation um: byte_enum um_code um_all
proof
  show "s \<in> set um_all" for s by (cases s) (simp_all add: um_all_def)
  show "distinct (map um_code um_all)" by (simp add: um_all_def)
qed

interpretation umts: byte_enum umts_code umts_all
proof
  show "s \<in> set umts_all" for s by (cases s) (simp_all add: umts_all_def)
  show "distinct (map umts_code umts_all)" by (simp add: umts_all_def)
qed

interpretation rrc: byte_enum rrc_code rrc_all
proof
  show "s \<in> set rrc_all" for s by (cases s) (simp_all add: rrc_all_def)
  show "distinct (map rrc_code rrc_all)" by (simp add: rrc_all_def)
qed

section \<open>Packet types\<close>

datatype GsmtapType =
    GtUm UmSubtype | GtAbis | GtUmBurst | GtSIM | GtTetraI1 | GtTetraI1Burst | GtWmxBurst | GtGbLlc
  | GtGbSndcp | GtGmr1Um | GtUmtsRlcMac | GtUmtsRrc UmtsRrcSubtype | GtLteRrc LteRrcSubtype | GtLteMac
  | GtLteMacFramed | GtOsmocoreLog | GtQcDiag | GtLteNas LteNasSubtype | GtE1T1 | GtGsmRlp

datatype GsmtapTypeError = InvalidTypeSubtypeCombo u8 u8

definition gsmtap_type_new :: "u8 \<Rightarrow> u8 \<Rightarrow> GsmtapTypeError + GsmtapType" where
  "gsmtap_type_new t s =
     (let maybe_result =
        (if t = 0x01 then map_option GtUm (try_from_code um_code um_all s)
         else if t = 0x02 then Some GtAbis else if t = 0x03 then Some GtUmBurst
         else if t = 0x04 then Some GtSIM else if t = 0x05 then Some GtTetraI1
         else if t = 0x06 then Some GtTetraI1Burst else if t = 0x07 then Some GtWmxBurst
         else if t = 0x08 then Some GtGbLlc else if t = 0x09 then Some GtGbSndcp
         else if t = 0x0a then Some GtGmr1Um else if t = 0x0b then Some GtUmtsRlcMac
         else if t = 0x0c then map_option GtUmtsRrc (try_from_code umts_code umts_all s)
         else if t = 0x0d then map_option GtLteRrc (try_from_code rrc_code rrc_all s)
         else if t = 0x0e then Some GtLteMac else if t = 0x0f then Some GtLteMacFramed
         else if t = 0x10 then Some GtOsmocoreLog else if t = 0x11 then Some GtQcDiag
         else if t = 0x12 then map_option GtLteNas (try_from_code nas_code nas_all s)
         else if t = 0x13 then Some GtE1T1 else if t = 0x14 then Some GtGsmRlp else None) in
      case maybe_result of Some r \<Rightarrow> Inr r | None \<Rightarrow> Inl (InvalidTypeSubtypeCombo t s))"

primrec get_type :: "GsmtapType \<Rightarrow> u8" where
  "get_type (GtUm _) = 0x01"
| "get_type GtAbis = 0x02"
| "get_type GtUmBurst = 0x03"
| "get_type GtSIM = 0x04"
| "get_type GtTetraI1 = 0x05"
| "get_type GtTetraI1Burst = 0x06"
| "get_type GtWmxBurst = 0x07"
| "get_type GtGbLlc = 0x08"
| "get_type GtGbSndcp = 0x09"
| "get_type GtGmr1Um = 0x0a"
| "get_type GtUmtsRlcMac = 0x0b"
| "get_type (GtUmtsRrc _) = 0x0c"
| "get_type (GtLteRrc _) = 0x0d"
| "get_type GtLteMac = 0x0e"
| "get_type GtLteMacFramed = 0x0f"
| "get_type GtOsmocoreLog = 0x10"
| "get_type GtQcDiag = 0x11"
| "get_type (GtLteNas _) = 0x12"
| "get_type GtE1T1 = 0x13"
| "get_type GtGsmRlp = 0x14"

definition get_subtype :: "GsmtapType \<Rightarrow> u8" where
  "get_subtype t =
     (case t of
        GtUm s \<Rightarrow> um_code s | GtUmtsRrc s \<Rightarrow> umts_code s | GtLteRrc s \<Rightarrow> rrc_code s
      | GtLteNas s \<Rightarrow> nas_code s | _ \<Rightarrow> 0)"

section \<open>The header\<close>

record GsmtapHeader =
  gh_type :: GsmtapType
  gh_version :: u8
  gh_header_len :: u8
  gh_packet_type :: u8
  gh_timeslot :: u8
  gh_pcs_band_indicator :: bool
  gh_uplink :: bool
  gh_arfcn :: u16
  gh_signal_dbm :: u8
  gh_signal_noise_ratio_db :: u8
  gh_frame_number :: u32
  gh_subtype :: u8
  gh_antenna_number :: u8
  gh_subslot :: u8
  gh_reserved :: u8

definition gsmtap_header_new :: "GsmtapType \<Rightarrow> GsmtapHeader" where
  "gsmtap_header_new t =
     \<lparr>gh_type = t, gh_version = 2, gh_header_len = 4, gh_packet_type = get_type t, gh_timeslot = 0,
      gh_pcs_band_indicator = False, gh_uplink = False, gh_arfcn = 0, gh_signal_dbm = 0,
      gh_signal_noise_ratio_db = 0, gh_frame_number = 0, gh_subtype = get_subtype t,
      gh_antenna_number = 0, gh_subslot = 0, gh_reserved = 0\<rparr>"

record GsmtapMessage =
  gm_header :: GsmtapHeader
  gm_payload :: bytes

text \<open>The derived writer, field by field in network order; \<open>arfcn\<close> shares its two bytes with the two
  flags, and a value that does not fit its fourteen bits is an error, as is a failed assertion. \<open>i8\<close>
  is its byte.\<close>

datatype DekuError = BitSizeExceeded | AssertionFailed

definition u16_to_be_bytes :: "u16 \<Rightarrow> bytes" where
  "u16_to_be_bytes w = [ucast (drop_bit 8 w), ucast w]"

definition u32_to_be_bytes :: "u32 \<Rightarrow> bytes" where
  "u32_to_be_bytes w = [ucast (drop_bit 24 w), ucast (drop_bit 16 w), ucast (drop_bit 8 w), ucast w]"

definition header_to_bytes :: "GsmtapHeader \<Rightarrow> DekuError + bytes" where
  "header_to_bytes h =
     (if gh_version h \<noteq> 2 \<or> gh_header_len h \<noteq> 4 \<or> gh_reserved h \<noteq> 0 then Inl AssertionFailed
      else if gh_arfcn h \<ge> 0x4000 then Inl BitSizeExceeded
      else Inr ([gh_version h, gh_header_len h, gh_packet_type h, gh_timeslot h]
        @ u16_to_be_bytes ((if gh_pcs_band_indicator h then 0x8000 else 0) OR
                           (if gh_uplink h then 0x4000 else 0) OR gh_arfcn h)
        @ [gh_signal_dbm h, gh_signal_noise_ratio_db h] @ u32_to_be_bytes (gh_frame_number h)
        @ [gh_subtype h, gh_antenna_number h, gh_subslot h, gh_reserved h]))"

definition message_to_bytes :: "GsmtapMessage \<Rightarrow> DekuError + bytes" where
  "message_to_bytes m = and_then (header_to_bytes (gm_header m)) (\<lambda>h. Inr (h @ gm_payload m))"

section \<open>Facts\<close>

lemma gsmtap_type_new_of_type: "gsmtap_type_new (get_type t) (get_subtype t) = Inr t"
  by (cases t) (simp_all add: gsmtap_type_new_def get_subtype_def um.try_from_value umts.try_from_value
      rrc.try_from_value nas.try_from_value)

text \<open>A header as the code makes them: a fresh one whose remaining fields were then set.\<close>

definition header_wf :: "GsmtapHeader \<Rightarrow> bool" where
  "header_wf h \<longleftrightarrow> gh_version h = 2 \<and> gh_header_len h = 4 \<and> gh_reserved h = 0
     \<and> gh_packet_type h = get_type (gh_type h) \<and> gh_subtype h = get_subtype (gh_type h) \<and> gh_arfcn h < 0x4000"

lemma header_new_wf [simp]: "header_wf (gsmtap_header_new t)"
  by (simp add: header_wf_def gsmtap_header_new_def)

text \<open>A well-formed header takes sixteen bytes, and the type and subtype bytes the offline reader picks
  out of them name exactly the type the message was given.\<close>

lemma header_type_round_trip:
  assumes "header_wf h"
  shows "\<exists>bs. header_to_bytes h = Inr bs \<and> length bs = 16
    \<and> gsmtap_type_new (bs ! 2) (bs ! 12) = Inr (gh_type h)"
  using assms gsmtap_type_new_of_type [of "gh_type h"]
  by (auto simp: header_to_bytes_def header_wf_def u16_to_be_bytes_def u32_to_be_bytes_def)

end
