(* ===== verification/GsmtapParser.thy ===== *)
theory GsmtapParser
  imports Gsmtap DiagLog
begin

unbundle bit_operations_syntax

text \<open>
  From diag log records to GSMTAP messages: the MAC-LTE frames (\<open>lib/src/gsmtap/mac.rs\<close>), the conversion
  of a record (\<open>lib/src/gsmtap/parser.rs\<close>) and the channel numbers it uses (\<open>lib/src/log_codes.rs\<close>). Also
  \<open>parse_mac_rar\<close> of \<open>lib/src/analysis/information_element.rs\<close>, which reads the random access response
  back out of the frame built here. The derived writers give one byte per enum value and pack bit
  fields from the top; a value too large for its field is an error.
\<close>

section \<open>MAC-LTE frames (mac.rs)\<close>

datatype RadioType = Fdd | Tdd
datatype MacDirection = MacUplink | MacDownlink
datatype RntiType = RntiNo | RntiP | RntiRa | RntiC | RntiSi | RntiSps | RntiM | RntiSl | RntiSc | RntiG

record MacHeader =
  mh_radio_type :: RadioType
  mh_direction :: MacDirection
  mh_rnti_type :: RntiType

fun radio_byte :: "RadioType \<Rightarrow> u8" where
  "radio_byte Fdd = 1" | "radio_byte Tdd = 2"

fun direction_byte :: "MacDirection \<Rightarrow> u8" where
  "direction_byte MacUplink = 0" | "direction_byte MacDownlink = 1"

fun rnti_byte :: "RntiType \<Rightarrow> u8" where
  "rnti_byte RntiNo = 0" | "rnti_byte RntiP = 1" | "rnti_byte RntiRa = 2" | "rnti_byte RntiC = 3"
| "rnti_byte RntiSi = 4" | "rnti_byte RntiSps = 5" | "rnti_byte RntiM = 6" | "rnti_byte RntiSl = 7"
| "rnti_byte RntiSc = 9" | "rnti_byte RntiG = 10"

definition mac_header_bytes :: "MacHeader \<Rightarrow> bytes" where
  "mac_header_bytes h = [radio_byte (mh_radio_type h), direction_byte (mh_direction h), rnti_byte (mh_rnti_type h)]"

record ETRAPIDSubheader =
  et_extended :: bool
  et_type_field :: bool
  et_rapid :: u8

definition etrapid_bytes :: "ETRAPIDSubheader \<Rightarrow> DekuError + bytes" where
  "etrapid_bytes h =
     (if et_rapid h \<ge> 0x40 then Inl BitSizeExceeded
      else Inr [(if et_extended h then 0x80 else 0) OR (if et_type_field h then 0x40 else 0) OR et_rapid h])"

record RACHResponse =
  rr_tac :: u16
  rr_ul_grant :: u32
  rr_tc_rnti :: u16

definition rach_response_bytes :: "RACHResponse \<Rightarrow> DekuError + bytes" where
  "rach_response_bytes r =
     (if rr_tac r \<ge> 0x800 \<or> rr_ul_grant r \<ge> 0x100000 then Inl BitSizeExceeded
      else Inr (u32_to_be_bytes (push_bit 20 (ucast (rr_tac r)) OR rr_ul_grant r) @ u16_to_be_bytes (rr_tc_rnti r)))"

definition MAC_LTE_PAYLOAD_TAG :: u8 where "MAC_LTE_PAYLOAD_TAG = 0x01"
definition MAC_LTE_FRAME_SUBFRAME_TAG :: u8 where "MAC_LTE_FRAME_SUBFRAME_TAG = 0x04"

definition wireshark_rnti_type :: "u8 \<Rightarrow> RntiType" where
  "wireshark_rnti_type q =
     (if q = 0 \<or> q = 4 then RntiC else if q = 2 then RntiP else if q = 3 then RntiRa
      else if q = 5 then RntiSi else RntiNo)"

definition transport_block_gsmtap :: "bool \<Rightarrow> u8 \<Rightarrow> u16 \<Rightarrow> bytes \<Rightarrow> GsmtapMessage" where
  "transport_block_gsmtap downlink rnti_type sfn_subfn mac_header =
     \<lparr>gm_header = gsmtap_header_new GtLteMacFramed,
      gm_payload = mac_header_bytes \<lparr>mh_radio_type = Fdd,
          mh_direction = (if downlink then MacDownlink else MacUplink),
          mh_rnti_type = wireshark_rnti_type rnti_type\<rparr>
        @ [MAC_LTE_FRAME_SUBFRAME_TAG] @ u16_to_be_bytes sfn_subfn @ [MAC_LTE_PAYLOAD_TAG] @ mac_header\<rparr>"

definition mac_transport_to_gsmtap :: "SubpacketBody \<Rightarrow> GsmtapMessage list" where
  "mac_transport_to_gsmtap body =
     (case body of
        DlTransportBlock samples \<Rightarrow>
          map (\<lambda>b. transport_block_gsmtap True (dl_rnti_type b) (dl_sfn_subfn b) (dl_mac_header b)) samples
      | UlTransportBlock samples \<Rightarrow>
          map (\<lambda>b. transport_block_gsmtap False (ul_rnti_type b) (ul_sfn_subfn b) (ul_mac_header b)) samples
      | _ \<Rightarrow> [])"

definition mac_subpacket_to_gsmtap :: "SubpacketBody \<Rightarrow> DekuError + GsmtapMessage option" where
  "mac_subpacket_to_gsmtap body =
     (case body of
        RachAttempt attempt \<Rightarrow>
          (case (get_msg1 attempt, get_msg2 attempt, get_msg3 attempt) of
             (Some msg1, Some msg2, Some msg3) \<Rightarrow>
               and_then (etrapid_bytes \<lparr>et_extended = False, et_type_field = True,
                           et_rapid = get_preamble_index msg1 AND 0x3f\<rparr>) (\<lambda>sub.
               and_then (rach_response_bytes \<lparr>rr_tac = m2_ta msg2 AND 0x7ff, rr_ul_grant = get_grant msg3,
                           rr_tc_rnti = m2_tc_rnti msg2\<rparr>) (\<lambda>resp.
               Inr (Some \<lparr>gm_header = gsmtap_header_new GtLteMacFramed,
                 gm_payload = mac_header_bytes \<lparr>mh_radio_type = Fdd, mh_direction = MacDownlink,
                     mh_rnti_type = RntiRa\<rparr> @ [0x01] @ sub @ resp\<rparr>)))
           | _ \<Rightarrow> Inr None)
      | _ \<Rightarrow> Inr None)"

section \<open>Reading a random access response back (information\_element.rs)\<close>

record MacRandomAccessResponse =
  rar_timing_advance :: u16
  rar_tc_rnti :: u16
  rar_preamble :: u8

definition parse_mac_rar :: "bytes \<Rightarrow> MacRandomAccessResponse option" where
  "parse_mac_rar payload =
     (if length payload < 5 + 6 then None
      else if payload ! 3 \<noteq> 0x01 \<or> payload ! 2 \<noteq> 2 then None
      else (let body = take 6 (drop 5 payload) in
        Some \<lparr>rar_timing_advance = push_bit 4 (ucast (body ! 0 AND 0x7f)) OR drop_bit 4 (ucast (body ! 1)),
              rar_tc_rnti = push_bit 8 (ucast (body ! 4)) OR ucast (body ! 5),
              rar_preamble = payload ! 4 AND 0x3f\<rparr>))"

section \<open>Channel numbers (log\_codes.rs)\<close>

definition DCCH :: u8 where "DCCH = 0x00"
definition BCCH :: u8 where "BCCH = 0x01"
definition L2_RACH :: u8 where "L2_RACH = 0x02"
definition CCCH :: u8 where "CCCH = 0x03"
definition SACCH :: u8 where "SACCH = 0x04"
definition SDCCH :: u8 where "SDCCH = 0x05"
definition FACCH_F :: u8 where "FACCH_F = 0x06"
definition FACCH_H :: u8 where "FACCH_H = 0x07"
definition L2_RACH_WITH_NO_DELAY :: u8 where "L2_RACH_WITH_NO_DELAY = 0x08"
definition PACCH_RRBP_CHANNEL :: u8 where "PACCH_RRBP_CHANNEL = 0x03"
definition UL_PACCH_CHANNEL :: u8 where "UL_PACCH_CHANNEL = 0x04"
definition DL_PACCH_CHANNEL :: u8 where "DL_PACCH_CHANNEL = 0x83"
definition PACKET_CHANNEL_REQUEST :: u8 where "PACKET_CHANNEL_REQUEST = 0x20"
definition RRCLOG_SIG_UL_CCCH :: u8 where "RRCLOG_SIG_UL_CCCH = 0"
definition RRCLOG_SIG_DL_DCCH :: u8 where "RRCLOG_SIG_DL_DCCH = 3"

lemmas channel_defs = DCCH_def BCCH_def L2_RACH_def CCCH_def SACCH_def SDCCH_def FACCH_F_def FACCH_H_def
  L2_RACH_WITH_NO_DELAY_def PACCH_RRBP_CHANNEL_def UL_PACCH_CHANNEL_def DL_PACCH_CHANNEL_def
  PACKET_CHANNEL_REQUEST_def RRCLOG_SIG_UL_CCCH_def RRCLOG_SIG_DL_DCCH_def

section \<open>Converting a record (parser.rs)\<close>

datatype GsmtapParserError =
    InvalidLteRrcOtaExtHeaderVersion u8
  | InvalidLteRrcOtaHeaderPduNum u8 u8
  | InvalidLteMacRachResponse "DekuError option"
  | InvalidLteMacTransportBlock DekuError

text \<open>The text of \<open>InvalidLteMacRachResponse\<close> is either that there was no subpacket (\<open>None\<close> here) or the
  serializer's error.\<close>

definition gsm_rr_subtype :: "u8 \<Rightarrow> UmSubtype option" where
  "gsm_rr_subtype c =
     (if c = DCCH then Some Um_Sdcch else if c = BCCH then Some Um_Bcch
      else if c = L2_RACH \<or> c = L2_RACH_WITH_NO_DELAY then Some Um_Rach else if c = CCCH then Some Um_Ccch
      else if c = SACCH then Some Um_Sdcch else if c = SDCCH then Some Um_Sdcch
      else if c = FACCH_F then Some Um_TchF else if c = FACCH_H then Some Um_TchH else None)"

text \<open>The channel a PDU number means depends on the version of the record's header.\<close>

definition pdu_table :: "u8 \<Rightarrow> (u8 \<times> LteRrcSubtype) list option" where
  "pdu_table v =
     (if v \<in> {0x2, 0x3, 0x4, 0x6, 0x7, 0x8, 0xd, 0x16} then Some
      [(1, Rrc_BcchBch), (2, Rrc_BcchDlSch), (3, Rrc_MCCH), (4, Rrc_PCCH), (5, Rrc_DlCcch),
       (6, Rrc_DlDcch), (7, Rrc_UlCcch), (8, Rrc_UlDcch)]
      else if v \<in> {0x9, 0xc} then Some
      [(8, Rrc_BcchBch), (9, Rrc_BcchDlSch), (10, Rrc_MCCH), (11, Rrc_PCCH), (12, Rrc_DlCcch),
       (13, Rrc_DlDcch), (14, Rrc_UlCcch), (15, Rrc_UlDcch)]
      else if v \<in> {0xe, 0xf, 0x10} then Some
      [(1, Rrc_BcchBch), (2, Rrc_BcchDlSch), (4, Rrc_MCCH), (5, Rrc_PCCH), (6, Rrc_DlCcch),
       (7, Rrc_DlDcch), (8, Rrc_UlCcch), (9, Rrc_UlDcch)]
      else if v \<in> {0x13, 0x1a, 0x1b} then Some
      [(1, Rrc_BcchBch), (3, Rrc_BcchDlSch), (6, Rrc_MCCH), (7, Rrc_PCCH), (8, Rrc_DlCcch),
       (9, Rrc_DlDcch), (10, Rrc_UlCcch), (11, Rrc_UlDcch), (45, Rrc_BcchBchNb),
       (46, Rrc_BcchDlSchNb), (47, Rrc_PcchNb), (48, Rrc_DlCcchNb), (49, Rrc_DlDcchNb),
       (50, Rrc_UlCcchNb), (52, Rrc_UlDcchNb)]
      else if v \<in> {0x14, 0x18, 0x19} then Some
      [(1, Rrc_BcchBch), (2, Rrc_BcchDlSch), (4, Rrc_MCCH), (5, Rrc_PCCH), (6, Rrc_DlCcch),
       (7, Rrc_DlDcch), (8, Rrc_UlCcch), (9, Rrc_UlDcch), (54, Rrc_BcchBchNb),
       (55, Rrc_BcchDlSchNb), (56, Rrc_PcchNb), (57, Rrc_DlCcchNb), (58, Rrc_DlDcchNb),
       (59, Rrc_UlCcchNb), (61, Rrc_UlDcchNb)]
      else None)"

definition rrc_ota_type :: "u8 \<Rightarrow> u8 \<Rightarrow> GsmtapParserError + LteRrcSubtype" where
  "rrc_ota_type v pdu =
     (case pdu_table v of
        None \<Rightarrow> Inl (InvalidLteRrcOtaExtHeaderVersion v)
      | Some table \<Rightarrow>
          (case map_of table pdu of
             None \<Rightarrow> Inl (InvalidLteRrcOtaHeaderPduNum v pdu)
           | Some c \<Rightarrow> Inr c))"

definition gprs_subtype :: "u8 \<Rightarrow> UmSubtype" where
  "gprs_subtype c =
     (if c = PACCH_RRBP_CHANNEL \<or> c = UL_PACCH_CHANNEL \<or> c = DL_PACCH_CHANNEL then Um_Pacch
      else if c = PACKET_CHANNEL_REQUEST then Um_Rach else Um_Pdch)"

definition log_to_gsmtap :: "'x LogBody \<Rightarrow> GsmtapParserError + GsmtapMessage option" where
  "log_to_gsmtap value =
     (case value of
        LteRrcOtaMessage v packet \<Rightarrow>
          and_then (rrc_ota_type v (get_pdu_num packet)) (\<lambda>c.
            Inr (Some \<lparr>gm_header = (gsmtap_header_new (GtLteRrc c))
                   \<lparr>gh_arfcn := ucast (get_earfcn packet) AND 0x3FFF, gh_frame_number := get_sfn packet,
                    gh_subslot := get_subfn packet\<rparr>,
                 gm_payload = take_payload packet\<rparr>))
      | Nas4GMessage _ direction _ _ _ _ msg \<Rightarrow>
          Inr (Some \<lparr>gm_header = (gsmtap_header_new (GtLteNas Nas_Plain))\<lparr>gh_uplink := (direction = NasUplink)\<rparr>,
                     gm_payload = msg\<rparr>)
      | LteMacRachResponse packet \<Rightarrow>
          (case mp_subpackets packet of
             [] \<Rightarrow> Inl (InvalidLteMacRachResponse None)
           | subpacket # _ \<Rightarrow>
               (case mac_subpacket_to_gsmtap (sp_body subpacket) of
                  Inl err \<Rightarrow> Inl (InvalidLteMacRachResponse (Some err))
                | Inr m \<Rightarrow> Inr m))
      | GsmRrSignallingMessage channel_type _ _ msg \<Rightarrow>
          (case gsm_rr_subtype channel_type of
             None \<Rightarrow> Inr None
           | Some subtype \<Rightarrow> Inr (Some \<lparr>gm_header = gsmtap_header_new (GtUm subtype), gm_payload = msg\<rparr>))
      | GprsMacSignallingMessage channel_type _ _ msg \<Rightarrow>
          Inr (Some \<lparr>gm_header = (gsmtap_header_new (GtUm (gprs_subtype channel_type)))
                 \<lparr>gh_uplink := (channel_type = UL_PACCH_CHANNEL \<or> channel_type = PACKET_CHANNEL_REQUEST)\<rparr>,
               gm_payload = msg\<rparr>)
      | WcdmaSignallingMessage channel_type _ _ msg \<Rightarrow>
          (case try_from_code umts_code umts_all channel_type of
             None \<Rightarrow> Inr None
           | Some subtype \<Rightarrow>
               Inr (Some \<lparr>gm_header = (gsmtap_header_new (GtUmtsRrc subtype))
                      \<lparr>gh_uplink := (subtype \<in> {Umts_UlDcch, Umts_UlCcch, Umts_UlShcch})\<rparr>,
                    gm_payload = msg\<rparr>))
      | UmtsNasOtaMessage is_uplink _ msg \<Rightarrow>
          Inr (Some \<lparr>gm_header = (gsmtap_header_new (GtUm Um_Sdcch))\<lparr>gh_uplink := (is_uplink \<noteq> 0)\<rparr>,
                     gm_payload = msg\<rparr>)
      | _ \<Rightarrow> Inr None)"

text \<open>The loop over subpackets of a transport block record; serializing a block cannot fail.\<close>

definition log_to_gsmtap_all :: "'x LogBody \<Rightarrow> GsmtapParserError + GsmtapMessage list" where
  "log_to_gsmtap_all value =
     (let frames = (\<lambda>packet. Inr (concat (map (\<lambda>sp. mac_transport_to_gsmtap (sp_body sp)) (mp_subpackets packet)))) in
      case value of
        LteMacDl packet \<Rightarrow> frames packet
      | LteMacUl packet \<Rightarrow> frames packet
      | _ \<Rightarrow> and_then (log_to_gsmtap value) (\<lambda>m. Inr (case m of Some x \<Rightarrow> [x] | None \<Rightarrow> [])))"

definition gsmtap_parse :: "('x, 'r) Message \<Rightarrow> GsmtapParserError + (u64 \<times> GsmtapMessage) option" where
  "gsmtap_parse msg =
     (case msg of
        MessageLog _ _ _ _ timestamp body \<Rightarrow>
          and_then (log_to_gsmtap body) (\<lambda>m. Inr (map_option (\<lambda>x. (timestamp, x)) m))
      | MessageResponse _ \<Rightarrow> Inr None)"

definition gsmtap_parse_all :: "('x, 'r) Message \<Rightarrow> GsmtapParserError + (u64 \<times> GsmtapMessage) list" where
  "gsmtap_parse_all msg =
     (case msg of
        MessageLog _ _ _ _ timestamp body \<Rightarrow>
          and_then (log_to_gsmtap_all body) (\<lambda>ms. Inr (map (\<lambda>x. (timestamp, x)) ms))
      | MessageResponse _ \<Rightarrow> Inr [])"

section \<open>Facts\<close>

lemma mask_below:
  fixes w :: "'a :: len word"
  shows "w AND mask n \<le> mask n"
  by (rule word_and_le1)

lemma ta_masked: "(ta :: u16) AND 0x7ff < 0x800"
  using mask_below [of ta 11] by (simp add: mask_eq_exp_minus_1 order_le_less_trans)

lemma preamble_masked: "(b :: u8) AND 0x3f < 0x40"
  using mask_below [of b 6] by (simp add: mask_eq_exp_minus_1 order_le_less_trans)

lemma arfcn_masked: "(a :: u16) AND 0x3FFF < 0x4000"
  using mask_below [of a 14] by (simp add: mask_eq_exp_minus_1 order_le_less_trans)

lemma bit_small:
  fixes w :: "'a :: len word"
  assumes "w < 2 ^ k" and "k < LENGTH('a)" and "k \<le> n"
  shows "\<not> bit w n"
proof -
  have "unat (2 ^ k :: 'a word) = 2 ^ k"
    using assms(2) by (simp add: unat_eq_nat_uint uint_2p word_gt_0 nat_power_eq)
  with assms(1) have "unat w < 2 ^ k" by (simp add: word_less_nat_alt)
  also have "(2 :: nat) ^ k \<le> 2 ^ n" using assms(3) by simp
  finally have "unat (drop_bit n w) = 0" by (subst unat_drop_bit_eq, subst drop_bit_eq_div) simp
  then have "drop_bit n w = 0" by (simp only: unat_eq_0)
  then have "\<not> bit (drop_bit n w) 0" by simp
  then show ?thesis by (simp add: bit_drop_bit_eq)
qed

text \<open>The fields of the packed response, read back.\<close>

lemma rar_tac_back:
  fixes tac :: u16 and grant :: u32 and w :: u32
  assumes "tac < 0x800" and "grant < 0x100000" and w: "w = push_bit 20 (ucast tac) OR grant"
  shows "push_bit 4 (ucast ((ucast (drop_bit 24 w) :: u8) AND 0x7f)) OR drop_bit 4 (ucast (ucast (drop_bit 16 w) :: u8)) = tac"
    (is "?l = _")
proof (rule bit_word_eqI)
  fix n assume n: "n < LENGTH(16)"
  have t: "\<not> bit tac k" if "11 \<le> k" for k using bit_small [of tac 11 k] assms(1) that by simp
  have g: "\<not> bit grant k" if "20 \<le> k" for k using bit_small [of grant 20 k] assms(2) that by simp
  have m: "bit (0x7f :: int) k \<longleftrightarrow> k < 7" for k
    using bit_mask_iff [of 7 k, where 'a = int] by (simp add: mask_eq_exp_minus_1)
  have "bit ?l n \<longleftrightarrow> 4 \<le> n \<and> n < 11 \<and> bit w (n + 20) \<or> n < 4 \<and> bit w (n + 20)"
    using n by (auto simp: bit_simps m add.commute)
  also have "\<dots> \<longleftrightarrow> bit tac n"
    using n g t [of n] by (cases "n < 11") (auto simp: w bit_simps)
  finally show "bit ?l n = bit tac n" .
qed

lemma be16_back: "push_bit 8 (ucast (ucast (drop_bit 8 w) :: u8)) OR ucast (ucast w :: u8) = (w :: u16)"
  by (rule bit_word_eqI) (auto simp: bit_simps)

section \<open>What the conversion promises\<close>

text \<open>The timing advance a device was told survives the trip to the detector that watches it: reading
  back the frame built from a random access attempt gives the attempt's timing advance (its eleven
  bits), temporary identity and preamble, unchanged.\<close>

theorem rar_round_trip:
  assumes "mac_subpacket_to_gsmtap (RachAttempt a) = Inr (Some m)"
  shows "parse_mac_rar (gm_payload m) = Some
    \<lparr>rar_timing_advance = m2_ta (ra_msg2 a) AND 0x7ff, rar_tc_rnti = m2_tc_rnti (ra_msg2 a),
     rar_preamble = get_preamble_index (ra_msg1 a) AND 0x3f\<rparr>"
proof -
  let ?tac = "m2_ta (ra_msg2 a) AND 0x7ff" and ?grant = "get_grant (ra_msg3 a)"
  let ?w = "push_bit 20 (ucast ?tac) OR ?grant :: u32"
  from assms have grant: "?grant < 0x100000"
    and payload: "gm_payload m = [1, 1, 2, 1, 0x40 OR (get_preamble_index (ra_msg1 a) AND 0x3f)]
      @ u32_to_be_bytes ?w @ u16_to_be_bytes (m2_tc_rnti (ra_msg2 a))"
    using preamble_masked [of "get_preamble_index (ra_msg1 a)"] ta_masked [of "m2_ta (ra_msg2 a)"]
    by (auto simp: mac_subpacket_to_gsmtap_def etrapid_bytes_def rach_response_bytes_def result_simps
        get_msg1_def get_msg2_def get_msg3_def mac_header_bytes_def not_le split: option.splits if_splits)
  have "(0x40 OR (b AND 0x3f)) AND 0x3f = (b AND 0x3f :: u8)" for b
    by (simp add: bit.conj_disj_distrib2 and.assoc)
  with rar_tac_back [OF ta_masked grant refl, of "m2_ta (ra_msg2 a)"] be16_back [of "m2_tc_rnti (ra_msg2 a)"]
  show ?thesis by (simp add: parse_mac_rar_def payload u32_to_be_bytes_def u16_to_be_bytes_def)
qed

definition sample_attempt :: Attempt where
  "sample_attempt = \<lparr>ra_header = AttemptV2 1 0 1 7, ra_msg1 = Msg1V2 27 0 0,
     ra_msg2 = \<lparr>m2_backoff = 0, m2_result = 0, m2_tc_rnti = 0x1a23, m2_ta = 0x7ff\<rparr>,
     ra_msg3 = \<lparr>m3_grant = GrantV1 0x11c18, m3_unk_grant = 0, m3_harq_id = 0, m3_mac_pdu = []\<rparr>,
     ra_additional_info = None\<rparr>"

theorem rar_round_trip_witness:
  "\<exists>m. mac_subpacket_to_gsmtap (RachAttempt sample_attempt) = Inr (Some m)
    \<and> parse_mac_rar (gm_payload m) = Some \<lparr>rar_timing_advance = 0x7ff, rar_tc_rnti = 0x1a23, rar_preamble = 27\<rparr>"
proof -
  obtain m where m: "mac_subpacket_to_gsmtap (RachAttempt sample_attempt) = Inr (Some m)"
    by (simp add: mac_subpacket_to_gsmtap_def sample_attempt_def get_msg1_def get_msg2_def get_msg3_def
        has_msg1_def has_msg2_def has_msg3_def get_bitmask_def etrapid_bytes_def rach_response_bytes_def
        get_preamble_index_def get_grant_def)
  from rar_round_trip [OF m] m show ?thesis
    by (simp add: sample_attempt_def get_preamble_index_def)
qed

lemma log_to_gsmtap_wf:
  assumes "log_to_gsmtap body = Inr (Some m)"
  shows "header_wf (gm_header m)"
  using assms arfcn_masked
  by (auto simp: log_to_gsmtap_def result_simps mac_subpacket_to_gsmtap_def header_wf_def gsmtap_header_new_def
      split: LogBody.splits option.splits list.splits sum.splits SubpacketBody.splits)

lemma mac_transport_wf: "m \<in> set (mac_transport_to_gsmtap body) \<Longrightarrow> header_wf (gm_header m)"
  by (auto simp: mac_transport_to_gsmtap_def transport_block_gsmtap_def split: SubpacketBody.splits)

lemma log_to_gsmtap_all_wf:
  assumes "log_to_gsmtap_all body = Inr ms" and "m \<in> set ms"
  shows "header_wf (gm_header m)"
  using assms log_to_gsmtap_wf mac_transport_wf
  by (auto simp: log_to_gsmtap_all_def Let_def result_simps split: LogBody.splits option.splits)

text \<open>Everything the conversion puts into a capture can be written and read back: each frame it makes
  serialises, to sixteen header bytes followed by the payload, and the header bytes name the frame's
  type.\<close>

theorem log_frames_serialise:
  assumes "log_to_gsmtap_all body = Inr ms" and "m \<in> set ms"
  shows "\<exists>bs. message_to_bytes m = Inr (bs @ gm_payload m) \<and> length bs = 16
    \<and> gsmtap_type_new (bs ! 2) (bs ! 12) = Inr (gh_type (gm_header m))"
  using header_type_round_trip [OF log_to_gsmtap_all_wf [OF assms]] by (auto simp: message_to_bytes_def)

definition sample_ota :: LteRrcOtaPacket where
  "sample_ota = OtaV8 0 0 0 0 54540 0x123 2 0 1 [7]"

theorem log_frames_serialise_witness:
  "\<exists>m bs. log_to_gsmtap_all (LteRrcOtaMessage 8 sample_ota :: unit LogBody) = Inr [m]
    \<and> message_to_bytes m = Inr (bs @ [7]) \<and> gsmtap_type_new (bs ! 2) (bs ! 12) = Inr (GtLteRrc Rrc_BcchDlSch)"
proof -
  obtain m where m: "log_to_gsmtap_all (LteRrcOtaMessage 8 sample_ota :: unit LogBody) = Inr [m]"
    and "gm_payload m = [7]" "gh_type (gm_header m) = GtLteRrc Rrc_BcchDlSch"
    by (simp add: log_to_gsmtap_all_def log_to_gsmtap_def rrc_ota_type_def pdu_table_def sample_ota_def
        get_pdu_num_def take_payload_def gsmtap_header_new_def)
  with log_frames_serialise [OF m, of m] show ?thesis by auto
qed

text \<open>A transport block is never mistaken for a random access response, whatever its header bytes: no
  made-up distance reaches the timing advance detector.\<close>

theorem transport_block_is_no_rar:
  assumes "m \<in> set (mac_transport_to_gsmtap body)"
  shows "parse_mac_rar (gm_payload m) = None"
  using assms
  by (auto simp: mac_transport_to_gsmtap_def transport_block_gsmtap_def parse_mac_rar_def mac_header_bytes_def
      MAC_LTE_FRAME_SUBFRAME_TAG_def split: SubpacketBody.splits)

theorem transport_block_is_no_rar_witness:
  "parse_mac_rar (gm_payload (transport_block_gsmtap True 3 0x13a5 [0x23, 0x81, 0x83, 0x1f])) = None"
proof -
  have "transport_block_gsmtap True 3 0x13a5 [0x23, 0x81, 0x83, 0x1f]
      \<in> set (mac_transport_to_gsmtap (DlTransportBlock [DlV2 0x13a5 3 0 0 0 0 0 4 [0x23, 0x81, 0x83, 0x1f]]))"
    by (simp add: mac_transport_to_gsmtap_def)
  from transport_block_is_no_rar [OF this] show ?thesis .
qed

text \<open>Within one header version no two PDU numbers are read as the same channel, so the table that
  names the channel of an RRC message never folds two channels into one.\<close>

theorem rrc_channels_distinct:
  assumes "rrc_ota_type v p = Inr c" and "rrc_ota_type v q = Inr c"
  shows "p = q"
proof -
  have inj: "distinct (map snd table)" if "pdu_table v = Some table" for table
    using that by (auto simp: pdu_table_def split: if_splits)
  from assms obtain table where t: "pdu_table v = Some table" "map_of table p = Some c" "map_of table q = Some c"
    by (auto simp: rrc_ota_type_def split: option.splits)
  then have "(p, c) \<in> set table" "(q, c) \<in> set table" by (auto dest: map_of_SomeD)
  with inj [OF t(1)] show ?thesis by (auto simp: in_set_conv_nth distinct_conv_nth) (metis length_map nth_map snd_conv fst_conv)
qed

theorem rrc_channels_distinct_witness:
  "rrc_ota_type 0x14 61 = Inr Rrc_UlDcchNb \<and> rrc_ota_type 0x14 60 \<noteq> Inr Rrc_UlDcchNb"
proof -
  have c: "rrc_ota_type 0x14 61 = Inr Rrc_UlDcchNb" by (simp add: rrc_ota_type_def pdu_table_def)
  have "(61 :: u8) \<noteq> 60" by simp
  with rrc_channels_distinct [OF c] c show ?thesis by blast
qed

text \<open>The channel numbers of WCDMA records are not GSMTAP's: a message logged on the uplink common channel
  is labelled as one on the downlink dedicated channel, and the other way round, with the direction
  wrong in both.\<close>

lemma wcdma_channel_mislabelled:
  "\<exists>m. log_to_gsmtap (WcdmaSignallingMessage RRCLOG_SIG_UL_CCCH b l msg) = Inr (Some m)
     \<and> gh_type (gm_header m) = GtUmtsRrc Umts_DlDcch \<and> \<not> gh_uplink (gm_header m)"
  "\<exists>m. log_to_gsmtap (WcdmaSignallingMessage RRCLOG_SIG_DL_DCCH b l msg) = Inr (Some m)
     \<and> gh_type (gm_header m) = GtUmtsRrc Umts_UlCcch \<and> gh_uplink (gm_header m)"
  using umts.try_from_value [of Umts_DlDcch] umts.try_from_value [of Umts_UlCcch]
  by (auto simp: log_to_gsmtap_def channel_defs gsmtap_header_new_def)

end
