(* ===== verification/Events.thy ===== *)
theory Events
  imports GsmtapParser
begin

unbundle bit_operations_syntax

text \<open>
  What the detectors see and say: the information elements (\<open>lib/src/analysis/information_element.rs\<close>),
  the events and rows (\<open>lib/src/analysis/analyzer.rs\<close>) and the PLMN text (\<open>lib/src/plmn.rs\<close>).

  The parsed trees of RRC and NAS messages come from a code generator (\<open>telcom-parser\<close>) and from the crate
  \<open>pycrate_rs\<close>. The types below have the shape of those trees cut down to the alternatives and fields the
  detectors read; everything else is one constructor \<open>...Other\<close>. A value that is only printed with
  \<open>{:?}\<close> is its printed text. The decoders are a parameter (\<open>decoders\<close>).
\<close>

section \<open>NAS messages\<close>

text \<open>EMM causes: the ones the detectors name, any other by the name the derived \<open>Debug\<close> prints.\<close>

datatype EMMCause =
    IllegalUE | IllegalME | EPSServicesNotAllowed | EPSServicesAndNonEPSServicesNotAllowed | PLMNNotAllowed
  | TrackingAreaNotAllowed | RoamingNotAllowedInThisTrackingArea | EPSServicesNotAllowedInThisPLMN
  | NoSuitableCellsInTrackingArea | RequestedServiceOptionNotAuthorizedInThisPLMN
  | UEIdentityCannotBeDerivedByTheNetwork | MACFailure | SynchFailure | NonEPSAuthenticationUnacceptable
  | OtherCause ustr

datatype IDTypeV = IMSI | OtherIDType ustr
datatype EPSDetachTypeMTType = IMSIDetach | OtherDetach ustr
datatype NASSecAlgoCiphAlgo = EPSEncryptionAlgorithmEEA0Null | OtherCiphAlgo
datatype GenericContType = LPPMessageContainer | OtherContainer

datatype EMMMessage =
    EMMAttachRequest "bytes option" ustr
  | EMMExtServiceRequest
  | EMMCPServiceRequest
  | EMMIdentityRequest IDTypeV
  | EMMAttachComplete
  | EMMAttachAccept
  | EMMAuthenticationResponse
  | EMMAuthenticationFailure EMMCause
  | EMMSecurityModeCommand NASSecAlgoCiphAlgo
  | EMMServiceReject EMMCause
  | EMMServiceAccept
  | EMMDetachRequestMO
  | EMMDetachRequestMT EPSDetachTypeMTType ustr ustr
  | EMMTrackingAreaUpdateRequest
  | EMMTrackingAreaUpdateAccept
  | EMMTrackingAreaUpdateReject EMMCause
  | EMMAttachReject EMMCause
  | EMMDLGenericNASTransport GenericContType bytes
  | EMMULGenericNASTransport GenericContType bytes
  | EMMOther

text \<open>\<open>EMMAttachRequest\<close> carries the PLMN bytes of the old tracking area, if it was sent, and the printed
  identity; \<open>EMMDetachRequestMT\<close> its type, the printed type field and the printed cause.\<close>

datatype NASMessage = NasEMM EMMMessage | NASOther

section \<open>RRC messages\<close>

text \<open>\<open>MCC\<close> has exactly three digits and \<open>MNC\<close> two or three, a PLMN list at least one entry, a cell identity
  twenty-eight bits and a tracking area code sixteen: the sizes the RRC specification gives, which the
  decoder enforces.\<close>

datatype MNC = MNC2 u8 u8 | MNC3 u8 u8 u8

record PLMN_Identity =
  plmn_mcc :: "(u8 \<times> u8 \<times> u8) option"
  plmn_mnc :: MNC

record SIB1 =
  sib1_first_plmn :: PLMN_Identity
  sib1_more_plmns :: "PLMN_Identity list"
  sib1_cell_identity :: "28 word"
  sib1_tracking_area_code :: "16 word"
  sib1_scheduling_infos :: nat

definition sib1_plmns :: "SIB1 \<Rightarrow> PLMN_Identity list" where
  "sib1_plmns s = sib1_first_plmn s # sib1_more_plmns s"

text \<open>The blocks of a system information message; a priority is absent where the field is optional.\<close>

datatype SibEntry =
    Sib3 u8
  | Sib5 "u8 option list"
  | Sib6 "u8 option list option" "u8 option list option"
  | Sib7 "u8 option list option"
  | SibOther

datatype BCCH_DL_SCH_Message =
    SystemInformation_r8 "SibEntry list"
  | SystemInformationBlockType1 SIB1
  | BcchDlSchOther

datatype CipheringAlgorithm_r12 = EEA0 | OtherCipher

text \<open>The handover part of a reconfiguration: an algorithm that may be absent within LTE and is there
  between radio technologies; the same for the release 15 fields.\<close>

datatype SecurityConfigHO = IntraLTE "CipheringAlgorithm_r12 option" | InterRAT CipheringAlgorithm_r12

datatype SecurityConfigHO_v1530 =
    Intra5GC "CipheringAlgorithm_r12 option"
  | Fivegc_ToEPC CipheringAlgorithm_r12
  | Epc_To5GC CipheringAlgorithm_r12

record MobilityControlInfoSCG = mci_ciphering_algorithm_scg :: "CipheringAlgorithm_r12 option"
record SCG_ConfigPartSCG = scg_mobility_control_info :: "MobilityControlInfoSCG option"
datatype SCG_Configuration_r12 = ScgSetup "SCG_ConfigPartSCG option" | ScgRelease

text \<open>The chain of extensions, each level possibly absent.\<close>

record Reconf_v1530 = v1530_security_config_ho :: "SecurityConfigHO_v1530 option"
record Reconf_v1510 = v1510_next :: "Reconf_v1530 option"
record Reconf_v1430 = v1430_next :: "Reconf_v1510 option"
record Reconf_v1310 = v1310_next :: "Reconf_v1430 option"

record Reconf_v1250 =
  v1250_scg_configuration :: "SCG_Configuration_r12 option"
  v1250_next :: "Reconf_v1310 option"

record Reconf_v1130 = v1130_next :: "Reconf_v1250 option"
record Reconf_v1020 = v1020_next :: "Reconf_v1130 option"
record Reconf_v920 = v920_next :: "Reconf_v1020 option"
record Reconf_v890 = v890_next :: "Reconf_v920 option"

record Reconf_r8 =
  r8_security_config_ho :: "SecurityConfigHO option"
  r8_next :: "Reconf_v890 option"

datatype RedirectedCarrierInfo = Geran | OtherCarrier ustr

datatype DL_DCCH_Message =
    RrcConnectionReconfiguration_r8 Reconf_r8
  | SecurityModeCommand_r8 CipheringAlgorithm_r12
  | RrcConnectionRelease_r8 "RedirectedCarrierInfo option"
  | DlDcchOther

text \<open>\<open>DlDcchOther\<close> also stands for the three messages above in a future critical extension, which no
  detector reads.\<close>

datatype UL_CCCH_Message = RrcConnectionRequest | RrcConnectionReestablishmentRequest | UlCcchOther

section \<open>Information elements\<close>

datatype LteInformationElement =
    DlCcch | DlDcch DL_DCCH_Message | UlCcch UL_CCCH_Message | UlDcch | BcchBch | BcchDlSch BCCH_DL_SCH_Message
  | PCCH | MCCH | ScMcch | BcchBchMbms | BcchDlSchBr | BcchDlSchMbms | SbcchSlBch | SbcchSlBchV2x
  | NAS NASMessage
  | MacRar MacRandomAccessResponse

record GsmInformationElement =
  gie_channel :: UmSubtype
  gie_bytes :: bytes

datatype InformationElement = GSM GsmInformationElement | UMTS | LTE LteInformationElement | FiveG

datatype ('rrc, 'nas) InformationElementError =
    RRCDecodingError 'rrc
  | NASDecodingError 'nas
  | UnsupportedGsmtapType GsmtapType

text \<open>The decoders of other code: one per RRC channel, and the NAS parser.\<close>

record ('rrc, 'nas) decoders =
  dec_unread :: "LteRrcSubtype \<Rightarrow> bytes \<Rightarrow> 'rrc + unit"
  dec_dl_dcch :: "bytes \<Rightarrow> 'rrc + DL_DCCH_Message"
  dec_ul_ccch :: "bytes \<Rightarrow> 'rrc + UL_CCCH_Message"
  dec_bcch_dl_sch :: "bytes \<Rightarrow> 'rrc + BCCH_DL_SCH_Message"
  dec_nas :: "bytes \<Rightarrow> 'nas + NASMessage"

definition decode_as :: "('a \<Rightarrow> LteInformationElement) \<Rightarrow> 'rrc + 'a
    \<Rightarrow> ('rrc, 'nas) InformationElementError + InformationElement" where
  "decode_as f r = (case r of Inl e \<Rightarrow> Inl (RRCDecodingError e) | Inr x \<Rightarrow> Inr (LTE (f x)))"

definition rrc_element :: "('rrc, 'nas) decoders \<Rightarrow> LteRrcSubtype \<Rightarrow> bytes
    \<Rightarrow> ('rrc, 'nas) InformationElementError + InformationElement" where
  "rrc_element d c payload =
     (let plain = (\<lambda>f. decode_as (\<lambda>_. f) (dec_unread d c payload)) in
      case c of
        Rrc_DlCcch \<Rightarrow> plain DlCcch
      | Rrc_DlDcch \<Rightarrow> decode_as DlDcch (dec_dl_dcch d payload)
      | Rrc_UlCcch \<Rightarrow> decode_as UlCcch (dec_ul_ccch d payload)
      | Rrc_UlDcch \<Rightarrow> plain UlDcch
      | Rrc_BcchBch \<Rightarrow> plain BcchBch
      | Rrc_BcchDlSch \<Rightarrow> decode_as BcchDlSch (dec_bcch_dl_sch d payload)
      | Rrc_PCCH \<Rightarrow> plain PCCH
      | Rrc_MCCH \<Rightarrow> plain MCCH
      | Rrc_ScMcch \<Rightarrow> plain ScMcch
      | Rrc_BcchBchMbms \<Rightarrow> plain BcchBchMbms
      | Rrc_BcchDlSchBr \<Rightarrow> plain BcchDlSchBr
      | Rrc_BcchDlSchMbms \<Rightarrow> plain BcchDlSchMbms
      | Rrc_SbcchSlBch \<Rightarrow> plain SbcchSlBch
      | Rrc_SbcchSlBchV2x \<Rightarrow> plain SbcchSlBchV2x
      | _ \<Rightarrow> Inl (UnsupportedGsmtapType (GtLteRrc c)))"

definition ie_try_from :: "('rrc, 'nas) decoders \<Rightarrow> GsmtapMessage
    \<Rightarrow> ('rrc, 'nas) InformationElementError + InformationElement" where
  "ie_try_from d msg =
     (let ty = gh_type (gm_header msg); payload = gm_payload msg;
          mac = (case parse_mac_rar payload of
                   None \<Rightarrow> Inl (UnsupportedGsmtapType ty) | Some rar \<Rightarrow> Inr (LTE (MacRar rar))) in
      case ty of
        GtLteRrc c \<Rightarrow> rrc_element d c payload
      | GtLteNas Nas_Plain \<Rightarrow>
          (case dec_nas d payload of Inl e \<Rightarrow> Inl (NASDecodingError e) | Inr m \<Rightarrow> Inr (LTE (NAS m)))
      | GtLteMacFramed \<Rightarrow> mac
      | GtLteMac \<Rightarrow> mac
      | GtUm channel \<Rightarrow> Inr (GSM \<lparr>gie_channel = channel, gie_bytes = payload\<rparr>)
      | _ \<Rightarrow> Inl (UnsupportedGsmtapType ty))"

text \<open>The broadcast that names a cell.\<close>

definition is_sib1 :: "InformationElement \<Rightarrow> bool" where
  "is_sib1 ie \<longleftrightarrow> (case ie of LTE (BcchDlSch (SystemInformationBlockType1 _)) \<Rightarrow> True | _ \<Rightarrow> False)"

text \<open>\<open>load_be::<u32>\<close> of a bit string: its bits from the most significant down, as a number.\<close>

definition load_be :: "'a::len word \<Rightarrow> u32" where
  "load_be bits = ucast bits"

section \<open>Events\<close>

datatype EventType = Informational | LowSeverity | MediumSeverity | HighSeverity

fun event_rank :: "EventType \<Rightarrow> nat" where
  "event_rank Informational = 0" | "event_rank LowSeverity = 1"
| "event_rank MediumSeverity = 2" | "event_rank HighSeverity = 3"

lemma event_rank_inject [simp]: "event_rank a = event_rank b \<longleftrightarrow> a = b"
  by (cases a; cases b) simp_all

instantiation EventType :: linorder
begin

definition less_eq_EventType :: "EventType \<Rightarrow> EventType \<Rightarrow> bool" where
  "less_eq_EventType a b \<longleftrightarrow> event_rank a \<le> event_rank b"

definition less_EventType :: "EventType \<Rightarrow> EventType \<Rightarrow> bool" where
  "less_EventType a b \<longleftrightarrow> event_rank a < event_rank b"

instance
  by standard (auto simp: less_eq_EventType_def less_EventType_def)

end

record Event =
  event_type :: EventType
  event_message :: ustr

definition event :: "EventType \<Rightarrow> ustr \<Rightarrow> Event" where
  "event t m = \<lparr>event_type = t, event_message = m\<rparr>"

lemma event_sel [simp]: "event_type (event t m) = t" "event_message (event t m) = m"
  by (simp_all add: event_def)

text \<open>\<open>{}\<close> of an unsigned number, and \<open>join(", ")\<close>.\<close>

fun decimal :: "nat \<Rightarrow> ustr" where
  "decimal n = (if n < 10 then [48 + n] else decimal (n div 10) @ [48 + n mod 10])"

declare decimal.simps [simp del]

fun join_comma :: "ustr list \<Rightarrow> ustr" where
  "join_comma [] = []"
| "join_comma [x] = x"
| "join_comma (x # y # xs) = x @ lit '', '' @ join_comma (y # xs)"

section \<open>PLMN text (plmn.rs)\<close>

definition PACKED_BCD_LEN :: nat where "PACKED_BCD_LEN = 3"

definition digit_char :: "u8 \<Rightarrow> uchar" where
  "digit_char d = unat (0x30 + d)"

definition decode_packed_bcd :: "bytes \<Rightarrow> ustr option" where
  "decode_packed_bcd bs =
     (case bs of
        [b0, b1, b2] \<Rightarrow>
          if b0 = 0xFF \<and> b1 = 0xFF \<and> b2 = 0xFF then None
          else
            (let mcc = [b0 AND 0x0F, drop_bit 4 b0 AND 0x0F, b1 AND 0x0F];
                 mnc3 = drop_bit 4 b1 AND 0x0F;
                 mnc12 = [b2 AND 0x0F, drop_bit 4 b2 AND 0x0F] in
             if list_ex (\<lambda>d. d > 9) mcc \<or> list_ex (\<lambda>d. d > 9) mnc12 then None
             else
               (let out = map digit_char mcc @ lit ''-'' @ map digit_char mnc12 in
                if mnc3 = 0xF then Some out
                else if mnc3 \<le> 9 then Some (out @ [digit_char mnc3]) else None))
      | _ \<Rightarrow> None)"

section \<open>PLMN codes\<close>

lemma low_nibble_mask: "b AND 0x0F = lo_nibble b"
  by (simp add: lo_nibble_def take_bit_eq_mask mask_eq_exp_minus_1)

lemma high_nibble_low: "lo_nibble (drop_bit 4 b) = hi_nibble b"
  using is_nibble_halves(1) [of b] by (simp add: is_nibble_def lo_nibble_def hi_nibble_def)

text \<open>A PLMN the way the network sends it: the digits in nibbles, low nibble first, with the filler 15
  in place of a third network digit that is not there.\<close>

definition packed :: "u8 \<Rightarrow> u8 \<Rightarrow> u8" where
  "packed lo hi = or lo (push_bit 4 hi)"

fun encode_plmn :: "u8 \<times> u8 \<times> u8 \<Rightarrow> MNC \<Rightarrow> bytes" where
  "encode_plmn (c1, c2, c3) (MNC2 n1 n2) = [packed c1 c2, packed c3 0xF, packed n1 n2]"
| "encode_plmn (c1, c2, c3) (MNC3 n1 n2 n3) = [packed c1 c2, packed c3 n3, packed n1 n2]"

fun mnc_digits :: "MNC \<Rightarrow> u8 list" where
  "mnc_digits (MNC2 n1 n2) = [n1, n2]"
| "mnc_digits (MNC3 n1 n2 n3) = [n1, n2, n3]"

lemma packed_nibbles:
  assumes "is_nibble lo" and "is_nibble hi"
  shows "lo_nibble (packed lo hi) = lo" and "hi_nibble (packed lo hi) = hi"
proof -
  have "hi_nibble lo = 0" using assms(1) by (simp add: word_unat_eq_iff unat_hi_nibble is_nibble_iff)
  then show "hi_nibble (packed lo hi) = hi" using nibble_or_high(1) [OF assms(2), of lo] by (simp add: packed_def)
  show "lo_nibble (packed lo hi) = lo"
    using nibble_or_high(2) [OF assms(2), of lo] assms(1) by (simp add: packed_def lo_nibble_def is_nibble_def)
qed

lemma digit_nibble: "d \<le> 9 \<Longrightarrow> is_nibble d"
  by (simp add: is_nibble_iff word_le_nat_alt)

text \<open>The network a phone came from is read correctly: unpacking a PLMN gives its country digits, a
  dash and its two or three network digits, so two- and three-digit network codes are never confused.\<close>

theorem plmn_round_trip:
  assumes "c1 \<le> 9" "c2 \<le> 9" "c3 \<le> 9" and "\<forall>d \<in> set (mnc_digits mnc). d \<le> 9"
  shows "decode_packed_bcd (encode_plmn (c1, c2, c3) mnc)
    = Some (map digit_char [c1, c2, c3] @ lit ''-'' @ map digit_char (mnc_digits mnc))"
proof -
  have f: "is_nibble (0xF :: u8)" by (simp add: is_nibble_iff)
  have nf: "d \<le> 9 \<Longrightarrow> d \<noteq> 0xF" for d :: u8 by auto
  have no_ff: "packed a b \<noteq> 0xFF" if "a \<le> 9" "is_nibble b" for a b
  proof
    assume "packed a b = 0xFF"
    with packed_nibbles(1) [OF digit_nibble [OF that(1)] that(2)] have "a = lo_nibble 0xFF" by simp
    with that(1) show False by (simp add: lo_nibble_def)
  qed
  note n = packed_nibbles [OF digit_nibble digit_nibble] packed_nibbles [OF digit_nibble f]
  show ?thesis
  proof (cases mnc)
    case (MNC2 n1 n2)
    with assms n no_ff [OF assms(1) digit_nibble [OF assms(2)]] show ?thesis
      by (simp add: decode_packed_bcd_def low_nibble_mask high_nibble_low Let_def not_less)
  next
    case (MNC3 n1 n2 n3)
    with assms n nf no_ff [OF assms(1) digit_nibble [OF assms(2)]] show ?thesis
      by (simp add: decode_packed_bcd_def low_nibble_mask high_nibble_low Let_def not_less)
  qed
qed

theorem plmn_round_trip_witness: "decode_packed_bcd [0x13, 0x00, 0x62] = Some (lit ''310-260'')"
proof -
  have "encode_plmn (3, 1, 0) (MNC3 2 6 0) = [0x13, 0x00, 0x62]" by (simp add: packed_def)
  with plmn_round_trip [of 3 1 0 "MNC3 2 6 0"] show ?thesis by (simp add: digit_char_def)
qed

end
