(* ===== verification/Identity.thy ===== *)
theory Identity
  imports Events
begin

text \<open>
  The detector of suspicious identity requests (\<open>lib/src/analysis/imsi_requested.rs\<close>): a state machine over
  the NAS and RRC messages of an attach, with a counter of elements since an unanswered request.

  The specification is \<open>phase\<close>, the last step of the exchange a history of elements ended in. The machine
  refines it, and the severity of every warning is characterised by the phase before the element and the
  element itself.
\<close>

section \<open>The analyzer\<close>

definition TIMEOUT_THRESHHOLD :: nat where "TIMEOUT_THRESHHOLD = 50"

datatype State = Unattached | AttachRequest | IdentityRequest | AuthAccept | Disconnect | LikelyValidAttachReject

record ImsiRequestedAnalyzer =
  im_state :: State
  im_timeout_counter :: nat
  im_flag :: "Event option"
  im_likely_enb_plmns :: "ustr list"
  im_likely_ue_plmn :: "ustr option"
  im_home_plmn :: "ustr list"

text \<open>\<open>home_plmn\<close> is a sorted set; here the list of its elements in order.\<close>

definition imsi_new :: "ustr list \<Rightarrow> ImsiRequestedAnalyzer" where
  "imsi_new home = \<lparr>im_state = Unattached, im_timeout_counter = 0, im_flag = None, im_likely_enb_plmns = [],
     im_likely_ue_plmn = None, im_home_plmn = home\<rparr>"

definition enb_is_home_network :: "ImsiRequestedAnalyzer \<Rightarrow> bool" where
  "enb_is_home_network a \<longleftrightarrow>
     (case im_likely_ue_plmn a of Some p \<Rightarrow> p \<in> set (im_likely_enb_plmns a) | None \<Rightarrow> False)
     \<or> list_ex (\<lambda>p. p \<in> set (im_likely_enb_plmns a)) (im_home_plmn a)"

definition flagged :: "EventType \<Rightarrow> ustr \<Rightarrow> ImsiRequestedAnalyzer \<Rightarrow> ImsiRequestedAnalyzer" where
  "flagged t m a = a\<lparr>im_flag := Some (event t m)\<rparr>"

definition roaming_message :: "ImsiRequestedAnalyzer \<Rightarrow> ustr" where
  "roaming_message a =
     lit ''Disconnected after Identity Request without Auth Accept, but this could be a false positive roaming issue - Tower PLMN: ''
     @ (if im_likely_enb_plmns a = [] then lit ''Unknown'' else join_comma (im_likely_enb_plmns a))
     @ lit '', UE PLMN: '' @ (case im_likely_ue_plmn a of Some p \<Rightarrow> p | None \<Rightarrow> lit ''Unknown'')
     @ lit '', SIM home PLMN: '' @ (if im_home_plmn a = [] then lit ''Unknown'' else join_comma (im_home_plmn a))"

text \<open>The arms of the match on the state and the next state, in order.\<close>

definition transition_flag :: "ImsiRequestedAnalyzer \<Rightarrow> State \<Rightarrow> ImsiRequestedAnalyzer" where
  "transition_flag a next_state =
     (if next_state = AuthAccept then a\<lparr>im_timeout_counter := 0\<rparr>
      else if im_state a = AuthAccept \<and> next_state = IdentityRequest then
        flagged HighSeverity (lit ''Identity requested after auth request'') a
      else if im_state a = Disconnect \<and> next_state = IdentityRequest then
        flagged HighSeverity (lit ''Identity requested without Attach Request'') a
      else if im_state a = IdentityRequest \<and> next_state = LikelyValidAttachReject then
        flagged LowSeverity (lit ''Identity requested without authentication but its likely a false positive unless your SIM card has an active plan'') a
      else if im_state a = IdentityRequest \<and> next_state = Disconnect then
        (if enb_is_home_network a
         then flagged HighSeverity (lit ''Disconnected after Identity Request without Auth Accept on home network!'') a
         else flagged LowSeverity (roaming_message a) a)
      else if next_state = IdentityRequest then a\<lparr>im_timeout_counter := 0\<rparr>
      else a)"

definition settled :: "State \<Rightarrow> State" where
  "settled s = (if s = LikelyValidAttachReject then Disconnect else s)"

definition transition :: "ImsiRequestedAnalyzer \<Rightarrow> State \<Rightarrow> ImsiRequestedAnalyzer" where
  "transition a next_state = (transition_flag a next_state)\<lparr>im_state := settled next_state\<rparr>"

definition plmn_identity_to_str :: "PLMN_Identity \<Rightarrow> ustr" where
  "plmn_identity_to_str p =
     (case plmn_mcc p of
        Some (c1, c2, c3) \<Rightarrow> concat (map (\<lambda>d. decimal (unat d)) [c1, c2, c3])
      | None \<Rightarrow> [])
     @ lit ''-'' @ concat (map (\<lambda>d. decimal (unat d)) (mnc_digits (plmn_mnc p)))"

definition format_plmn_list :: "PLMN_Identity list \<Rightarrow> ustr list" where
  "format_plmn_list ps = map plmn_identity_to_str ps"

definition tai_to_plmn_str :: "bytes option \<Rightarrow> ustr option" where
  "tai_to_plmn_str maybe_tai =
     (case maybe_tai of
        None \<Rightarrow> None
      | Some plmn \<Rightarrow> if length plmn \<noteq> PACKED_BCD_LEN then None else decode_packed_bcd plmn)"

text \<open>The match on the NAS or RRC message: the transition it asks for.\<close>

definition emm_transition :: "EMMMessage \<Rightarrow> State option" where
  "emm_transition m =
     (case m of
        EMMAttachRequest _ _ \<Rightarrow> Some AttachRequest
      | EMMExtServiceRequest \<Rightarrow> Some AttachRequest
      | EMMIdentityRequest _ \<Rightarrow> Some IdentityRequest
      | EMMAttachComplete \<Rightarrow> Some AuthAccept
      | EMMAuthenticationResponse \<Rightarrow> Some AuthAccept
      | EMMServiceReject _ \<Rightarrow> Some Disconnect
      | EMMDetachRequestMO \<Rightarrow> Some Disconnect
      | EMMDetachRequestMT _ _ _ \<Rightarrow> Some Disconnect
      | EMMTrackingAreaUpdateReject _ \<Rightarrow> Some Disconnect
      | EMMAttachReject cause \<Rightarrow>
          if cause = EPSServicesAndNonEPSServicesNotAllowed then Some LikelyValidAttachReject else Some Disconnect
      | _ \<Rightarrow> None)"

definition next_state :: "InformationElement \<Rightarrow> State option" where
  "next_state ie =
     (case ie of
        LTE (NAS (NasEMM m)) \<Rightarrow> emm_transition m
      | LTE (UlCcch m) \<Rightarrow>
          if m = RrcConnectionRequest \<or> m = RrcConnectionReestablishmentRequest then Some AttachRequest else None
      | _ \<Rightarrow> None)"

definition note_ue_plmn :: "InformationElement \<Rightarrow> ImsiRequestedAnalyzer \<Rightarrow> ImsiRequestedAnalyzer" where
  "note_ue_plmn ie a =
     (case ie of
        LTE (NAS (NasEMM (EMMAttachRequest old_tai _))) \<Rightarrow>
          (case tai_to_plmn_str old_tai of Some p \<Rightarrow> a\<lparr>im_likely_ue_plmn := Some p\<rparr> | None \<Rightarrow> a)
      | _ \<Rightarrow> a)"

definition count_timeout :: "ImsiRequestedAnalyzer \<Rightarrow> ImsiRequestedAnalyzer" where
  "count_timeout a =
     (if im_state a = IdentityRequest then
        (let n = im_timeout_counter a + 1 in
         if n \<ge> TIMEOUT_THRESHHOLD
         then (flagged Informational (lit ''Identity request happened without auth request followup'') a)
                \<lparr>im_timeout_counter := 0\<rparr>
         else a\<lparr>im_timeout_counter := n\<rparr>)
      else a)"

definition imsi_analyze :: "ImsiRequestedAnalyzer \<Rightarrow> InformationElement \<Rightarrow> Event option \<times> ImsiRequestedAnalyzer" where
  "imsi_analyze a ie =
     (case ie of
        LTE (BcchDlSch (SystemInformationBlockType1 sib1)) \<Rightarrow>
          (None, a\<lparr>im_likely_enb_plmns := format_plmn_list (sib1_plmns sib1)\<rparr>)
      | _ \<Rightarrow>
          (let a1 = note_ue_plmn ie a;
               a2 = (case next_state ie of Some s \<Rightarrow> transition a1 s | None \<Rightarrow> a1);
               a3 = count_timeout a2 in
           (im_flag a3, a3\<lparr>im_flag := None\<rparr>)))"

section \<open>Runs and phases\<close>

definition imsi_run :: "ImsiRequestedAnalyzer \<Rightarrow> InformationElement list \<Rightarrow> ImsiRequestedAnalyzer" where
  "imsi_run a ies = foldl (\<lambda>a ie. snd (imsi_analyze a ie)) a ies"

lemma imsi_run_simps [simp]:
  "imsi_run a [] = a" "imsi_run a (ies @ [ie]) = snd (imsi_analyze (imsi_run a ies) ie)"
  by (simp_all add: imsi_run_def)

text \<open>Where the exchange stands after a history: the step its last telling element was.\<close>

definition phase_step :: "State \<Rightarrow> InformationElement \<Rightarrow> State" where
  "phase_step s ie = (case next_state ie of Some t \<Rightarrow> settled t | None \<Rightarrow> s)"

definition phase :: "InformationElement list \<Rightarrow> State" where
  "phase ies = foldl phase_step Unattached ies"

lemma phase_simps [simp]: "phase [] = Unattached" "phase (ies @ [ie]) = phase_step (phase ies) ie"
  by (simp_all add: phase_def)

lemma imsi_analyze_sib1: "is_sib1 ie \<Longrightarrow> \<exists>ps. imsi_analyze a ie = (None, a\<lparr>im_likely_enb_plmns := ps\<rparr>) \<and> next_state ie = None"
  by (auto simp: is_sib1_def imsi_analyze_def next_state_def
      split: InformationElement.splits LteInformationElement.splits BCCH_DL_SCH_Message.splits)

lemma imsi_analyze_other:
  "\<not> is_sib1 ie \<Longrightarrow> imsi_analyze a ie =
    (let a3 = count_timeout (case next_state ie of Some s \<Rightarrow> transition (note_ue_plmn ie a) s | None \<Rightarrow> note_ue_plmn ie a)
     in (im_flag a3, a3\<lparr>im_flag := None\<rparr>))"
  by (auto simp: is_sib1_def imsi_analyze_def Let_def
      split: InformationElement.splits LteInformationElement.splits BCCH_DL_SCH_Message.splits)

lemma note_ue_plmn_frame [simp]:
  "im_state (note_ue_plmn ie a) = im_state a" "im_timeout_counter (note_ue_plmn ie a) = im_timeout_counter a"
  "im_flag (note_ue_plmn ie a) = im_flag a"
  by (simp_all add: note_ue_plmn_def split: InformationElement.splits LteInformationElement.splits
      NASMessage.splits EMMMessage.splits option.splits)

lemma note_ue_plmn_disconnect: "next_state ie = Some Disconnect \<Longrightarrow> note_ue_plmn ie a = a"
  by (auto simp: note_ue_plmn_def next_state_def emm_transition_def split: InformationElement.splits
      LteInformationElement.splits NASMessage.splits EMMMessage.splits option.splits)

lemma next_state_range: "next_state ie \<noteq> Some Unattached"
  by (auto simp: next_state_def emm_transition_def split: InformationElement.splits
      LteInformationElement.splits NASMessage.splits EMMMessage.splits)

lemma flagged_sel [simp]:
  "im_state (flagged t m a) = im_state a" "im_timeout_counter (flagged t m a) = im_timeout_counter a"
  "im_flag (flagged t m a) = Some (event t m)"
  by (simp_all add: flagged_def)

lemma transition_state [simp]: "im_state (transition a s) = settled s"
  by (simp add: transition_def)

lemma count_timeout_state [simp]: "im_state (count_timeout a) = im_state a"
  by (simp add: count_timeout_def Let_def)

text \<open>The invariant of every run: it is in the phase of its history, has no warning left over, and its
  counter is below the threshold, and at zero once the phone authenticated.\<close>

definition imsi_inv :: "State \<Rightarrow> ImsiRequestedAnalyzer \<Rightarrow> bool" where
  "imsi_inv ph a \<longleftrightarrow> im_state a = ph \<and> im_flag a = None \<and> im_timeout_counter a < TIMEOUT_THRESHHOLD
     \<and> (ph = AuthAccept \<longrightarrow> im_timeout_counter a = 0)"

lemma transition_counter:
  "im_timeout_counter (transition a s) = (if s = AuthAccept
     \<or> s = IdentityRequest \<and> im_state a \<noteq> AuthAccept \<and> im_state a \<noteq> Disconnect then 0 else im_timeout_counter a)"
  by (auto simp: transition_def transition_flag_def)

lemma imsi_inv_step:
  assumes "imsi_inv ph a"
  shows "imsi_inv (phase_step ph ie) (snd (imsi_analyze a ie))"
proof (cases "is_sib1 ie")
  case True
  from imsi_analyze_sib1 [OF this, of a] assms show ?thesis by (auto simp: imsi_inv_def phase_step_def)
next
  case False
  from assms show ?thesis
    by (cases "next_state ie")
      (auto simp: imsi_analyze_other [OF False] imsi_inv_def phase_step_def Let_def count_timeout_def
        TIMEOUT_THRESHHOLD_def transition_counter settled_def split: if_splits)
qed

lemma imsi_run_inv: "imsi_inv (phase ies) (imsi_run (imsi_new home) ies)"
proof (induction ies rule: rev_induct)
  case Nil
  then show ?case by (simp add: imsi_inv_def imsi_new_def TIMEOUT_THRESHHOLD_def)
next
  case (snoc ie ies)
  then show ?case by (simp add: imsi_inv_step)
qed

section \<open>Which warnings are raised\<close>

text \<open>The verdict on an element, from the phase before it, whether the tower is one of the home network,
  and how long a request has been pending.\<close>

fun verdict :: "State \<Rightarrow> bool \<Rightarrow> nat \<Rightarrow> State option \<Rightarrow> EventType option" where
  "verdict ph home waited (Some IdentityRequest) =
     (if ph = AuthAccept then Some HighSeverity
      else if ph = Disconnect then Some (if Suc waited = TIMEOUT_THRESHHOLD then Informational else HighSeverity)
      else None)"
| "verdict ph home waited (Some Disconnect) =
     (if ph = IdentityRequest then Some (if home then HighSeverity else LowSeverity) else None)"
| "verdict ph home waited (Some LikelyValidAttachReject) =
     (if ph = IdentityRequest then Some LowSeverity else None)"
| "verdict ph home waited (Some _) = None"
| "verdict ph home waited None =
     (if ph = IdentityRequest \<and> Suc waited = TIMEOUT_THRESHHOLD then Some Informational else None)"

lemma imsi_verdict:
  assumes "imsi_inv ph a" and "\<not> is_sib1 ie"
  shows "map_option event_type (fst (imsi_analyze a ie))
    = verdict ph (enb_is_home_network a) (im_timeout_counter a) (next_state ie)"
proof (cases "next_state ie")
  case None
  with assms show ?thesis by (auto simp: imsi_analyze_other imsi_inv_def Let_def count_timeout_def)
next
  case (Some s)
  with assms next_state_range [of ie] note_ue_plmn_disconnect [of ie a] show ?thesis
    by (cases s) (auto simp: imsi_analyze_other imsi_inv_def Let_def count_timeout_def transition_def
        transition_flag_def settled_def TIMEOUT_THRESHHOLD_def)
qed


text \<open>The table has one row the design does not ask for: the counter of a request that was ended by a
  disconnect keeps its value, and when the next, unprovoked request brings it to fifty, the note about
  the timeout takes the place of the high warning.\<close>

lemma quiet_counts:
  assumes "im_state a = IdentityRequest" and "im_timeout_counter a + n < TIMEOUT_THRESHHOLD"
  shows "im_state (imsi_run a (replicate n (LTE UlDcch))) = IdentityRequest
    \<and> im_timeout_counter (imsi_run a (replicate n (LTE UlDcch))) = im_timeout_counter a + n"
  using assms(2)
proof (induction n)
  case 0
  with assms show ?case by simp
next
  case (Suc n)
  moreover have "replicate (Suc n) (LTE UlDcch) = replicate n (LTE UlDcch) @ [LTE UlDcch]"
    by (simp add: replicate_append_same)
  ultimately show ?case
    by (simp only: imsi_run_simps) (simp add: imsi_analyze_def next_state_def note_ue_plmn_def count_timeout_def Let_def)
qed

lemma imsi_run_append: "imsi_run a (xs @ ys) = imsi_run (imsi_run a xs) ys"
  by (simp add: imsi_run_def)

lemma identity_alarm_masked:
  "\<exists>ies. phase ies = Disconnect \<and>
     map_option event_type (fst (imsi_analyze (imsi_run (imsi_new home) ies)
       (LTE (NAS (NasEMM (EMMIdentityRequest IMSI)))))) = Some Informational"
proof -
  let ?identity = "LTE (NAS (NasEMM (EMMIdentityRequest IMSI)))"
  let ?detach = "LTE (NAS (NasEMM EMMDetachRequestMO))"
  let ?quiet = "[?identity] @ replicate 48 (LTE UlDcch)"
  let ?ies = "?quiet @ [?detach]"
  have "im_state (imsi_run (imsi_new home) [?identity]) = IdentityRequest
      \<and> im_timeout_counter (imsi_run (imsi_new home) [?identity]) = 1"
    by (simp add: imsi_run_def imsi_analyze_def next_state_def emm_transition_def note_ue_plmn_def count_timeout_def
        transition_def transition_flag_def settled_def imsi_new_def TIMEOUT_THRESHHOLD_def Let_def)
  with quiet_counts [of "imsi_run (imsi_new home) [?identity]" 48]
  have "im_timeout_counter (imsi_run (imsi_new home) ?quiet) = 49"
    by (simp only: imsi_run_append) (simp add: TIMEOUT_THRESHHOLD_def)
  then have counter: "im_timeout_counter (imsi_run (imsi_new home) ?ies) = 49"
    unfolding imsi_run_simps
    by (simp add: imsi_analyze_def next_state_def emm_transition_def note_ue_plmn_def count_timeout_def Let_def
        transition_counter settled_def)
  have ph: "phase ?ies = Disconnect"
    unfolding phase_simps by (simp add: phase_step_def next_state_def emm_transition_def settled_def)
  have "\<not> is_sib1 ?identity" and "next_state ?identity = Some IdentityRequest"
    by (simp_all add: is_sib1_def next_state_def emm_transition_def)
  with imsi_verdict [OF imsi_run_inv [of ?ies home], of ?identity]
  have "map_option event_type (fst (imsi_analyze (imsi_run (imsi_new home) ?ies) ?identity)) = Some Informational"
    unfolding counter ph by (simp add: TIMEOUT_THRESHHOLD_def)
  with ph show ?thesis by blast
qed

end
