(* ===== verification/FlashCatch.thy ===== *)
theory FlashCatch
  imports Events
begin

text \<open>
  The FlashCatch detector (\<open>lib/src/analysis/flash_catch.rs\<close>): a tower that asks for the IMSI and then fails
  its own authentication so that the phone leaves it. The analyzer keeps packet numbers; the harness
  hands them out in increasing order.

  The specification looks at the history alone: \<open>since_reset\<close> is what happened since the exchange last
  ended or began, and every warning is explained by it.
\<close>

section \<open>The analyzer\<close>

definition FC_WINDOW :: nat where "FC_WINDOW = 200"
definition FORGED_CHALLENGES_TO_WARN :: nat where "FORGED_CHALLENGES_TO_WARN = 2"
definition SYNCH_FAILURES_TO_WARN :: nat where "SYNCH_FAILURES_TO_WARN = 3"

record FlashCatchAnalyzer =
  fc_imsi_requested_at :: "nat option"
  fc_checked_in_at :: "nat option"
  fc_forged_challenges :: "nat list"
  fc_synch_failures :: "nat list"
  fc_reported :: bool

definition fc_new :: FlashCatchAnalyzer where
  "fc_new = \<lparr>fc_imsi_requested_at = None, fc_checked_in_at = None, fc_forged_challenges = [],
     fc_synch_failures = [], fc_reported = False\<rparr>"

definition fc_reset :: "FlashCatchAnalyzer \<Rightarrow> FlashCatchAnalyzer" where
  "fc_reset a = a\<lparr>fc_imsi_requested_at := None, fc_checked_in_at := None, fc_forged_challenges := [],
     fc_synch_failures := [], fc_reported := False\<rparr>"

text \<open>\<open>saturating_sub\<close> of the packet numbers is subtraction of naturals.\<close>

definition near :: "nat \<Rightarrow> nat \<Rightarrow> bool" where
  "near now p \<longleftrightarrow> now - p \<le> FC_WINDOW"

definition fc_prune :: "FlashCatchAnalyzer \<Rightarrow> nat \<Rightarrow> FlashCatchAnalyzer" where
  "fc_prune a now =
     (let forged = filter (near now) (fc_forged_challenges a); synch = filter (near now) (fc_synch_failures a) in
      a\<lparr>fc_forged_challenges := forged, fc_synch_failures := synch,
        fc_reported := (if forged = [] \<and> synch = [] then False else fc_reported a)\<rparr>)"

definition packet_list :: "nat list \<Rightarrow> ustr" where
  "packet_list ps = join_comma (map decimal ps)"

definition on_check_in :: "FlashCatchAnalyzer \<Rightarrow> nat \<Rightarrow> FlashCatchAnalyzer" where
  "on_check_in a n = (fc_reset a)\<lparr>fc_checked_in_at := Some n\<rparr>"

definition filter_near :: "nat \<Rightarrow> nat option \<Rightarrow> nat option" where
  "filter_near now o' = (case o' of Some p \<Rightarrow> if near now p then Some p else None | None \<Rightarrow> None)"

definition flashcatch_message :: "nat \<Rightarrow> nat \<Rightarrow> ustr \<Rightarrow> ustr" where
  "flashcatch_message requested_at n packets =
     lit ''The tower asked for the phone's permanent identity (IMSI) at packet '' @ decimal requested_at
     @ lit '', then failed its own authentication '' @ decimal n @ lit '' times in a row (packets '' @ packets
     @ lit ''): the phone rejected each challenge as forged. This is the FlashCatch pattern. A fake tower takes the identity and then fails authentication on purpose; after the third rejection the phone bars the tower for five minutes and goes back to the real network with no visible interruption, keeping the temporary identity the tower can now tie to the IMSI.''"

definition forged_message :: "nat \<Rightarrow> ustr \<Rightarrow> ustr" where
  "forged_message n packets =
     lit ''The phone rejected the tower's authentication challenge as forged '' @ decimal n
     @ lit '' times in a row (packets '' @ packets
     @ lit ''). A real network knows the SIM's key and passes this check; a tower that keeps failing it does not know the key. This is the second half of the FlashCatch pattern, seen without the identity request that usually comes first.''"

definition synch_message :: "nat \<Rightarrow> ustr \<Rightarrow> ustr" where
  "synch_message n packets =
     lit ''The phone reported the tower's authentication sequence number out of step '' @ decimal n
     @ lit '' times in a row (packets '' @ packets
     @ lit ''). Once is normal housekeeping; a run of them suggests a tower replaying old authentication data it captured earlier.''"

definition check_in_message :: "nat \<Rightarrow> ustr" where
  "check_in_message p =
     lit ''The tower asked for the permanent identity (IMSI) as soon as the phone checked in (tracking area update or service request at packet ''
     @ decimal p
     @ lit ''). Real networks do this when they have lost the phone's record; a fake tower does it to every phone. Noted only. This detector warns if forged authentication follows.''"

definition on_forged_challenge :: "FlashCatchAnalyzer \<Rightarrow> nat \<Rightarrow> Event option \<times> FlashCatchAnalyzer" where
  "on_forged_challenge a n =
     (let a1 = fc_prune a n; forged = fc_forged_challenges a1 @ [n]; a2 = a1\<lparr>fc_forged_challenges := forged\<rparr> in
      if fc_reported a2 \<or> length forged < FORGED_CHALLENGES_TO_WARN then (None, a2)
      else
        (let a3 = a2\<lparr>fc_reported := True\<rparr>; packets = packet_list forged in
         case filter_near n (fc_imsi_requested_at a3) of
           Some requested_at \<Rightarrow> (Some (event HighSeverity (flashcatch_message requested_at (length forged) packets)), a3)
         | None \<Rightarrow> (Some (event MediumSeverity (forged_message (length forged) packets)), a3)))"

definition on_synch_failure :: "FlashCatchAnalyzer \<Rightarrow> nat \<Rightarrow> Event option \<times> FlashCatchAnalyzer" where
  "on_synch_failure a n =
     (let a1 = fc_prune a n; synch = fc_synch_failures a1 @ [n]; a2 = a1\<lparr>fc_synch_failures := synch\<rparr> in
      if fc_reported a2 \<or> length synch < SYNCH_FAILURES_TO_WARN then (None, a2)
      else (Some (event MediumSeverity (synch_message (length synch) (packet_list synch))), a2\<lparr>fc_reported := True\<rparr>))"

definition on_imsi_request :: "FlashCatchAnalyzer \<Rightarrow> nat \<Rightarrow> Event option \<times> FlashCatchAnalyzer" where
  "on_imsi_request a n =
     (map_option (\<lambda>p. event Informational (check_in_message p)) (filter_near n (fc_checked_in_at a)),
      a\<lparr>fc_imsi_requested_at := Some n\<rparr>)"

definition flash_emm :: "FlashCatchAnalyzer \<Rightarrow> EMMMessage \<Rightarrow> nat \<Rightarrow> Event option \<times> FlashCatchAnalyzer" where
  "flash_emm a emm n =
     (case emm of
        EMMTrackingAreaUpdateRequest \<Rightarrow> (None, on_check_in a n)
      | EMMExtServiceRequest \<Rightarrow> (None, on_check_in a n)
      | EMMCPServiceRequest \<Rightarrow> (None, on_check_in a n)
      | EMMAttachRequest _ _ \<Rightarrow> (None, fc_reset a)
      | EMMIdentityRequest t \<Rightarrow> if t = IMSI then on_imsi_request a n else (None, a)
      | EMMAuthenticationFailure cause \<Rightarrow>
          if cause = MACFailure \<or> cause = NonEPSAuthenticationUnacceptable then on_forged_challenge a n
          else if cause = SynchFailure then on_synch_failure a n else (None, a)
      | EMMAuthenticationResponse \<Rightarrow> (None, fc_reset a)
      | EMMSecurityModeCommand _ \<Rightarrow> (None, fc_reset a)
      | EMMAttachAccept \<Rightarrow> (None, fc_reset a)
      | EMMTrackingAreaUpdateAccept \<Rightarrow> (None, fc_reset a)
      | EMMServiceAccept \<Rightarrow> (None, fc_reset a)
      | _ \<Rightarrow> (None, a))"

definition flash_analyze ::
    "FlashCatchAnalyzer \<Rightarrow> InformationElement \<Rightarrow> nat \<Rightarrow> Event option \<times> FlashCatchAnalyzer" where
  "flash_analyze a ie n = (case ie of LTE (NAS (NasEMM emm)) \<Rightarrow> flash_emm a emm n | _ \<Rightarrow> (None, a))"

section \<open>What an element means to the detector\<close>

datatype fc_kind = FcCheckIn | FcReset | FcAsk | FcForged | FcSynch | FcQuiet

definition emm_kind :: "EMMMessage \<Rightarrow> fc_kind" where
  "emm_kind emm =
     (case emm of
        EMMTrackingAreaUpdateRequest \<Rightarrow> FcCheckIn | EMMExtServiceRequest \<Rightarrow> FcCheckIn | EMMCPServiceRequest \<Rightarrow> FcCheckIn
      | EMMAttachRequest _ _ \<Rightarrow> FcReset | EMMAuthenticationResponse \<Rightarrow> FcReset | EMMSecurityModeCommand _ \<Rightarrow> FcReset
      | EMMAttachAccept \<Rightarrow> FcReset | EMMTrackingAreaUpdateAccept \<Rightarrow> FcReset | EMMServiceAccept \<Rightarrow> FcReset
      | EMMIdentityRequest t \<Rightarrow> if t = IMSI then FcAsk else FcQuiet
      | EMMAuthenticationFailure cause \<Rightarrow>
          if cause = MACFailure \<or> cause = NonEPSAuthenticationUnacceptable then FcForged
          else if cause = SynchFailure then FcSynch else FcQuiet
      | _ \<Rightarrow> FcQuiet)"

definition kind_of :: "InformationElement \<Rightarrow> fc_kind" where
  "kind_of ie = (case ie of LTE (NAS (NasEMM emm)) \<Rightarrow> emm_kind emm | _ \<Rightarrow> FcQuiet)"

lemma flash_analyze_kind:
  "flash_analyze a ie n =
     (case kind_of ie of
        FcCheckIn \<Rightarrow> (None, on_check_in a n) | FcReset \<Rightarrow> (None, fc_reset a) | FcAsk \<Rightarrow> on_imsi_request a n
      | FcForged \<Rightarrow> on_forged_challenge a n | FcSynch \<Rightarrow> on_synch_failure a n | FcQuiet \<Rightarrow> (None, a))"
  by (auto simp: flash_analyze_def kind_of_def flash_emm_def emm_kind_def
      split: InformationElement.split LteInformationElement.split NASMessage.split EMMMessage.split)

type_synonym numbered = "nat \<times> InformationElement"

definition flash_run :: "FlashCatchAnalyzer \<Rightarrow> numbered list \<Rightarrow> FlashCatchAnalyzer" where
  "flash_run a hs = foldl (\<lambda>a (n, ie). snd (flash_analyze a ie n)) a hs"

lemma flash_run_simps [simp]:
  "flash_run a [] = a" "flash_run a (h # hs) = flash_run (snd (flash_analyze a (snd h) (fst h))) hs"
  "flash_run a (hs @ gs) = flash_run (flash_run a hs) gs"
  by (simp_all add: flash_run_def case_prod_beta)

text \<open>The history since the exchange last ended or a new one began, newest first.\<close>

definition since_reset :: "numbered list \<Rightarrow> numbered list" where
  "since_reset hs = takeWhile (\<lambda>h. kind_of (snd h) \<notin> {FcCheckIn, FcReset}) (rev hs)"

lemma since_reset_snoc:
  "since_reset (hs @ [h]) = (if kind_of (snd h) \<in> {FcCheckIn, FcReset} then [] else h # since_reset hs)"
  by (simp add: since_reset_def)

definition packets_of :: "fc_kind \<Rightarrow> numbered list \<Rightarrow> nat set" where
  "packets_of k hs = {n. \<exists>ie. (n, ie) \<in> set hs \<and> kind_of ie = k}"

text \<open>Everything the analyzer remembers happened since the last reset, and what it has forgotten is out of
  the window for good; the failures it remembers are distinct and the request it remembers is the
  newest, as long as the packet numbers increase.\<close>

definition flash_inv :: "numbered list \<Rightarrow> FlashCatchAnalyzer \<Rightarrow> bool" where
  "flash_inv hs a \<longleftrightarrow>
     set (fc_forged_challenges a) \<subseteq> packets_of FcForged (since_reset hs) \<and> distinct (fc_forged_challenges a)
     \<and> set (fc_synch_failures a) \<subseteq> packets_of FcSynch (since_reset hs) \<and> distinct (fc_synch_failures a)
     \<and> (\<forall>p. fc_imsi_requested_at a = Some p \<longrightarrow> p \<in> packets_of FcAsk (since_reset hs))
     \<and> (\<forall>p \<in> packets_of FcForged (since_reset hs). p \<in> set (fc_forged_challenges a) \<or> (\<exists>m \<in> fst ` set hs. \<not> near m p))
     \<and> (\<forall>p \<in> packets_of FcSynch (since_reset hs). p \<in> set (fc_synch_failures a) \<or> (\<exists>m \<in> fst ` set hs. \<not> near m p))
     \<and> (\<forall>p \<in> packets_of FcAsk (since_reset hs). \<exists>q. fc_imsi_requested_at a = Some q \<and> p \<le> q)"

lemma packets_of_Cons:
  "packets_of k ((n, ie) # hs) = (if kind_of ie = k then insert n (packets_of k hs) else packets_of k hs)"
  by (auto simp: packets_of_def)

lemma packets_of_Nil [simp]: "packets_of k [] = {}"
  by (simp add: packets_of_def)

lemma packets_of_below: "p \<in> packets_of k (since_reset hs) \<Longrightarrow> p \<in> fst ` set hs"
  by (force simp: packets_of_def since_reset_def dest: set_takeWhileD)

lemma fc_reset_sel [simp]:
  "fc_imsi_requested_at (fc_reset a) = None" "fc_checked_in_at (fc_reset a) = None"
  "fc_forged_challenges (fc_reset a) = []" "fc_synch_failures (fc_reset a) = []" "fc_reported (fc_reset a) = False"
  by (simp_all add: fc_reset_def)

lemma fc_prune_sel [simp]:
  "fc_forged_challenges (fc_prune a n) = filter (near n) (fc_forged_challenges a)"
  "fc_synch_failures (fc_prune a n) = filter (near n) (fc_synch_failures a)"
  "fc_imsi_requested_at (fc_prune a n) = fc_imsi_requested_at a"
  by (simp_all add: fc_prune_def Let_def)

lemma on_forged_sel:
  "fc_forged_challenges (snd (on_forged_challenge a n)) = filter (near n) (fc_forged_challenges a) @ [n]"
  "fc_synch_failures (snd (on_forged_challenge a n)) = filter (near n) (fc_synch_failures a)"
  "fc_imsi_requested_at (snd (on_forged_challenge a n)) = fc_imsi_requested_at a"
  by (simp_all add: on_forged_challenge_def Let_def split: option.split)

lemma on_synch_sel:
  "fc_forged_challenges (snd (on_synch_failure a n)) = filter (near n) (fc_forged_challenges a)"
  "fc_synch_failures (snd (on_synch_failure a n)) = filter (near n) (fc_synch_failures a) @ [n]"
  "fc_imsi_requested_at (snd (on_synch_failure a n)) = fc_imsi_requested_at a"
  by (simp_all add: on_synch_failure_def Let_def)

lemma flash_inv_step:
  assumes "flash_inv hs a" and "\<forall>m \<in> fst ` set hs. m < n"
  shows "flash_inv (hs @ [(n, ie)]) (snd (flash_analyze a ie n))"
proof -
  have fresh: "n \<notin> packets_of k (since_reset hs)" for k using packets_of_below [of n k hs] assms(2) by blast
  have newest: "\<forall>p \<in> packets_of k (since_reset hs). p \<le> n" for k
    using packets_of_below [of _ k hs] assms(2) by (meson less_imp_le)
  show ?thesis
  proof (cases "kind_of ie")
    case FcAsk
    with assms(1) newest [of FcAsk] show ?thesis
      by (auto simp: flash_analyze_kind flash_inv_def since_reset_snoc packets_of_Cons on_imsi_request_def subset_iff)
  next
    case FcForged
    with assms(1) fresh [of FcForged] show ?thesis
      by (auto simp: flash_analyze_kind flash_inv_def since_reset_snoc packets_of_Cons on_forged_sel subset_iff)
  next
    case FcSynch
    with assms(1) fresh [of FcSynch] show ?thesis
      by (auto simp: flash_analyze_kind flash_inv_def since_reset_snoc packets_of_Cons on_synch_sel subset_iff)
  next
    case FcQuiet
    with assms(1) show ?thesis
      by (auto simp: flash_analyze_kind flash_inv_def since_reset_snoc packets_of_Cons subset_iff)
  qed (use assms(1) in \<open>auto simp: flash_analyze_kind flash_inv_def since_reset_snoc on_check_in_def\<close>)
qed

lemma flash_run_inv:
  "sorted_wrt (<) (map fst hs) \<Longrightarrow> flash_inv hs (flash_run fc_new hs)"
proof (induction hs rule: rev_induct)
  case Nil
  then show ?case by (simp add: flash_inv_def fc_new_def since_reset_def)
next
  case (snoc h hs)
  then have "flash_inv hs (flash_run fc_new hs)" and "\<forall>m \<in> fst ` set hs. m < fst h"
    by (auto simp: sorted_wrt_append)
  from flash_inv_step [OF this, of "snd h"] show ?case by simp
qed

section \<open>Which warnings are raised\<close>

lemma near_mono: "near n p \<Longrightarrow> m \<le> n \<Longrightarrow> near m p" "near n p \<Longrightarrow> p \<le> q \<Longrightarrow> near n q"
  by (auto simp: near_def)

lemma remembered_near:
  assumes "flash_inv hs a" and "\<forall>m \<in> fst ` set hs. m < n"
  shows "set (filter (near n) (fc_forged_challenges a)) = {p \<in> packets_of FcForged (since_reset hs). near n p}"
    and "set (filter (near n) (fc_synch_failures a)) = {p \<in> packets_of FcSynch (since_reset hs). near n p}"
    and "filter_near n (fc_imsi_requested_at a) \<noteq> None \<longleftrightarrow> (\<exists>p \<in> packets_of FcAsk (since_reset hs). near n p)"
proof -
  have old: "\<not> near n p" if "\<exists>m \<in> fst ` set hs. \<not> near m p" for p
    using that assms(2) near_mono(1) [of n p] by (meson less_imp_le)
  show "set (filter (near n) (fc_forged_challenges a)) = {p \<in> packets_of FcForged (since_reset hs). near n p}"
    using assms(1) old unfolding flash_inv_def set_filter by blast
  show "set (filter (near n) (fc_synch_failures a)) = {p \<in> packets_of FcSynch (since_reset hs). near n p}"
    using assms(1) old unfolding flash_inv_def set_filter by blast
  show "filter_near n (fc_imsi_requested_at a) \<noteq> None \<longleftrightarrow> (\<exists>p \<in> packets_of FcAsk (since_reset hs). near n p)"
  proof (cases "fc_imsi_requested_at a")
    case None
    with assms(1) have "packets_of FcAsk (since_reset hs) = {}" by (auto simp: flash_inv_def)
    with None show ?thesis by (simp add: filter_near_def)
  next
    case (Some q)
    with assms(1) have "q \<in> packets_of FcAsk (since_reset hs)" "\<forall>p \<in> packets_of FcAsk (since_reset hs). p \<le> q"
      by (auto simp: flash_inv_def)
    then have "near n q \<longleftrightarrow> (\<exists>p \<in> packets_of FcAsk (since_reset hs). near n p)" using near_mono(2) [of n] by blast
    with Some show ?thesis by (simp add: filter_near_def)
  qed
qed

text \<open>The verdict on a rejected challenge, from the history alone but for whether the run was reported.\<close>

lemma forged_verdict:
  assumes "flash_inv hs a" and "\<forall>m \<in> fst ` set hs. m < n" and "kind_of ie = FcForged"
  shows "map_option event_type (fst (flash_analyze a ie n)) =
    (if fc_reported (fc_prune a n) \<or> \<not> (\<exists>q \<in> packets_of FcForged (since_reset hs). near n q) then None
     else Some (if \<exists>p \<in> packets_of FcAsk (since_reset hs). near n p then HighSeverity else MediumSeverity))"
proof -
  note r = remembered_near [OF assms(1,2)]
  have "filter (near n) (fc_forged_challenges a) = [] \<longleftrightarrow> \<not> (\<exists>q \<in> packets_of FcForged (since_reset hs). near n q)"
    using r(1) by (auto simp: filter_empty_conv)
  with r(3) show ?thesis
    by (auto simp: flash_analyze_kind assms(3) on_forged_challenge_def Let_def FORGED_CHALLENGES_TO_WARN_def
        length_greater_0_conv [symmetric] simp del: length_greater_0_conv split: option.splits)
qed

lemma synch_verdict:
  assumes "flash_inv hs a" and "\<forall>m \<in> fst ` set hs. m < n" and "kind_of ie = FcSynch"
  shows "map_option event_type (fst (flash_analyze a ie n)) =
    (if fc_reported (fc_prune a n) \<or> card {p \<in> packets_of FcSynch (since_reset hs). near n p} < 2 then None
     else Some MediumSeverity)"
proof -
  have "distinct (filter (near n) (fc_synch_failures a))" using assms(1) by (simp add: flash_inv_def)
  then have "length (filter (near n) (fc_synch_failures a)) = card {p \<in> packets_of FcSynch (since_reset hs). near n p}"
    using remembered_near(2) [OF assms(1,2)] by (metis distinct_card)
  then show ?thesis
    by (simp add: flash_analyze_kind assms(3) on_synch_failure_def Let_def SYNCH_FAILURES_TO_WARN_def)
qed

lemma other_verdict:
  assumes "kind_of ie \<noteq> FcForged" and "kind_of ie \<noteq> FcSynch" and "fst (flash_analyze a ie n) = Some ev"
  shows "event_type ev = Informational"
  using assms by (auto simp: flash_analyze_kind on_imsi_request_def split: fc_kind.splits)

text \<open>C7: A FlashCatch warning always has its grounds in the history, within two hundred packets and since the
  exchange last ended or began: another rejected challenge besides the present one, high exactly when
  the tower had asked for the IMSI; or, at medium, at least two earlier sequence-number failures.\<close>

theorem flash_warning_justified:
  assumes "sorted_wrt (<) (map fst hs @ [n])" and "fst (flash_analyze (flash_run fc_new hs) ie n) = Some ev"
    and "event_type ev \<noteq> Informational"
  shows "kind_of ie = FcForged \<and> (\<exists>q \<in> packets_of FcForged (since_reset hs). n - q \<le> FC_WINDOW)
      \<and> (event_type ev = HighSeverity \<longleftrightarrow> (\<exists>p \<in> packets_of FcAsk (since_reset hs). n - p \<le> FC_WINDOW))
    \<or> kind_of ie = FcSynch \<and> event_type ev = MediumSeverity
      \<and> 2 \<le> card {p \<in> packets_of FcSynch (since_reset hs). n - p \<le> FC_WINDOW}"
proof -
  have sorted: "sorted_wrt (<) (map fst hs)" and below: "\<forall>m \<in> fst ` set hs. m < n"
    using assms(1) by (auto simp: sorted_wrt_append)
  note inv = flash_run_inv [OF sorted]
  consider "kind_of ie = FcForged" | "kind_of ie = FcSynch"
    using other_verdict [OF _ _ assms(2)] assms(3) by blast
  then show ?thesis
  proof cases
    case 1
    from forged_verdict [OF inv below this] assms(2) 1 show ?thesis by (auto simp: near_def split: if_splits)
  next
    case 2
    from synch_verdict [OF inv below this] assms(2) 2 show ?thesis by (auto simp: near_def split: if_splits)
  qed
qed

definition nas_element :: "EMMMessage \<Rightarrow> InformationElement" where
  "nas_element m = LTE (NAS (NasEMM m))"

definition sample_attack :: "numbered list" where
  "sample_attack = [(1, nas_element EMMTrackingAreaUpdateRequest), (2, nas_element (EMMIdentityRequest IMSI)),
     (3, nas_element (EMMAuthenticationFailure MACFailure))]"

lemmas sample_eval = sample_attack_def nas_element_def kind_of_def emm_kind_def flash_analyze_kind on_check_in_def
  on_imsi_request_def on_forged_challenge_def fc_prune_def fc_reset_def filter_near_def near_def FC_WINDOW_def
  FORGED_CHALLENGES_TO_WARN_def fc_new_def Let_def

theorem flash_warning_justified_witness:
  "\<exists>ev. fst (flash_analyze (flash_run fc_new sample_attack) (nas_element (EMMAuthenticationFailure MACFailure)) 4) = Some ev
    \<and> event_type ev = HighSeverity \<and> (\<exists>p \<in> packets_of FcAsk (since_reset sample_attack). 4 - p \<le> FC_WINDOW)"
proof -
  obtain ev where ev: "fst (flash_analyze (flash_run fc_new sample_attack) (nas_element (EMMAuthenticationFailure MACFailure)) 4) = Some ev"
    "event_type ev = HighSeverity" by (simp add: sample_eval)
  have "sorted_wrt (<) (map fst sample_attack @ [4])" by (simp add: sample_attack_def)
  from flash_warning_justified [OF this ev(1)] ev show ?thesis by auto
qed

section \<open>The attack is caught\<close>

lemma calm_step:
  assumes "kind_of ie \<in> {FcQuiet, FcAsk}"
  shows "fc_reported (snd (flash_analyze a ie n)) = fc_reported a"
    "fc_forged_challenges (snd (flash_analyze a ie n)) = fc_forged_challenges a"
    "fc_synch_failures (snd (flash_analyze a ie n)) = fc_synch_failures a"
  using assms by (auto simp: flash_analyze_kind on_imsi_request_def)

lemma calm_run:
  assumes "\<forall>h \<in> set hs. kind_of (snd h) \<in> {FcQuiet, FcAsk}"
  shows "fc_reported (flash_run a hs) = fc_reported a
    \<and> fc_forged_challenges (flash_run a hs) = fc_forged_challenges a
    \<and> fc_synch_failures (flash_run a hs) = fc_synch_failures a"
  using assms by (induction hs arbitrary: a) (simp_all add: calm_step)

lemma since_reset_append:
  "\<forall>h \<in> set ms. kind_of (snd h) \<notin> {FcCheckIn, FcReset} \<Longrightarrow> since_reset (hs @ ms) = rev ms @ since_reset hs"
  unfolding since_reset_def rev_append by (rule takeWhile_append2) auto

lemma packets_ofI: "(n, ie) \<in> set hs \<Longrightarrow> kind_of ie = k \<Longrightarrow> n \<in> packets_of k hs"
  by (auto simp: packets_of_def)



end
