(* ===== verification/CellSignalling.thy ===== *)
theory CellSignalling
  imports Events
begin

text \<open>
  The detectors that judge single cell messages, in \<open>lib/src/analysis/\<close>: a release that redirects to 2G
  (\<open>connection_redirect_downgrade.rs\<close>), a null cipher in RRC (\<open>null_cipher.rs\<close>) or NAS
  (\<open>nas_null_cipher.rs\<close>), a short SIB1 (\<open>incomplete_sib.rs\<close>), the diagnostic listing (\<open>diagnostic.rs\<close>), the
  test detector (\<open>test_analyzer.rs\<close>); and the one that keeps the reselection priorities of the current cell
  (\<open>priority_2g_downgrade.rs\<close>).

  The cipher detector is shown to find a null cipher wherever a message carries one, and the priority
  detector to compare the highest priorities broadcast since the last SIB1.
\<close>

section \<open>Redirect to 2G\<close>

definition redirect_analyze :: "InformationElement \<Rightarrow> Event option" where
  "redirect_analyze ie =
     (case ie of
        LTE (DlDcch (RrcConnectionRelease_r8 (Some Geran))) \<Rightarrow> Some (event HighSeverity (lit ''Detected 2G downgrade''))
      | LTE (DlDcch (RrcConnectionRelease_r8 (Some (OtherCarrier shown)))) \<Rightarrow>
          Some (event Informational (lit ''RRCConnectionRelease CarrierInfo: '' @ shown))
      | _ \<Rightarrow> None)"

section \<open>Null ciphers\<close>

definition handover_security_config :: "SecurityConfigHO \<Rightarrow> CipheringAlgorithm_r12 option" where
  "handover_security_config h = (case h of IntraLTE lte \<Rightarrow> lte | InterRAT rat \<Rightarrow> Some rat)"

definition handover_v1530_algorithm :: "SecurityConfigHO_v1530 \<Rightarrow> CipheringAlgorithm_r12 option" where
  "handover_v1530_algorithm h = (case h of Intra5GC c \<Rightarrow> c | Fivegc_ToEPC c \<Rightarrow> Some c | Epc_To5GC c \<Rightarrow> Some c)"

definition scg_cipher :: "SCG_Configuration_r12 option \<Rightarrow> CipheringAlgorithm_r12 option" where
  "scg_cipher scg =
     (case scg of
        Some (ScgSetup part) \<Rightarrow>
          Option.bind (Option.bind part scg_mobility_control_info) mci_ciphering_algorithm_scg
      | _ \<Rightarrow> None)"

definition reconf_v1250 :: "Reconf_r8 \<Rightarrow> Reconf_v1250 option" where
  "reconf_v1250 c1 =
     Option.bind (Option.bind (Option.bind (Option.bind (r8_next c1) v890_next) v920_next) v1020_next) v1130_next"

definition reconf_v1530_security_config :: "Reconf_v1250 \<Rightarrow> SecurityConfigHO_v1530 option" where
  "reconf_v1530_security_config v1250 =
     Option.bind (Option.bind (Option.bind (Option.bind (v1250_next v1250) v1310_next) v1430_next) v1510_next)
       v1530_security_config_ho"

definition check_rrc_connection_reconfiguration_cipher :: "Reconf_r8 \<Rightarrow> bool" where
  "check_rrc_connection_reconfiguration_cipher c1 =
     (if (case r8_security_config_ho c1 of
            None \<Rightarrow> False | Some handover \<Rightarrow> handover_security_config handover = Some EEA0)
      then True
      else
        (case reconf_v1250 c1 of
           None \<Rightarrow> False
         | Some v1250 \<Rightarrow>
             if scg_cipher (v1250_scg_configuration v1250) = Some EEA0 then True
             else
               (case reconf_v1530_security_config v1250 of
                  None \<Rightarrow> False
                | Some cfg \<Rightarrow> handover_v1530_algorithm cfg = Some EEA0)))"

definition check_security_mode_command_cipher :: "CipheringAlgorithm_r12 \<Rightarrow> bool" where
  "check_security_mode_command_cipher cipher = (cipher = EEA0)"

definition null_cipher_analyze :: "InformationElement \<Rightarrow> Event option" where
  "null_cipher_analyze ie =
     (let found =
        (case ie of
           LTE (DlDcch (RrcConnectionReconfiguration_r8 r)) \<Rightarrow> check_rrc_connection_reconfiguration_cipher r
         | LTE (DlDcch (SecurityModeCommand_r8 c)) \<Rightarrow> check_security_mode_command_cipher c
         | _ \<Rightarrow> False) in
      if found then Some (event HighSeverity (lit ''Cell suggested use of null cipher'')) else None)"

definition nas_null_cipher_analyze :: "InformationElement \<Rightarrow> Event option" where
  "nas_null_cipher_analyze ie =
     (case ie of
        LTE (NAS (NasEMM (EMMSecurityModeCommand algo))) \<Rightarrow>
          if algo = EPSEncryptionAlgorithmEEA0Null
          then Some (event HighSeverity (lit ''NAS Security mode command requested null cipher'')) else None
      | _ \<Rightarrow> None)"

section \<open>Incomplete SIB\<close>

definition incomplete_sib_analyze :: "InformationElement \<Rightarrow> Event option" where
  "incomplete_sib_analyze ie =
     (case ie of
        LTE (BcchDlSch (SystemInformationBlockType1 sib1)) \<Rightarrow>
          if sib1_scheduling_infos sib1 < 2
          then Some (event Informational (lit ''SIB1 scheduling info list was malformed'')) else None
      | _ \<Rightarrow> None)"

section \<open>Diagnostic listing\<close>

definition is_imsi_exposing_nas :: "NASMessage \<Rightarrow> bool" where
  "is_imsi_exposing_nas nas =
     (case nas of
        NasEMM (EMMIdentityRequest _) \<Rightarrow> True
      | NasEMM (EMMTrackingAreaUpdateReject c) \<Rightarrow>
          c \<in> {IllegalUE, IllegalME, EPSServicesNotAllowed, EPSServicesAndNonEPSServicesNotAllowed,
               TrackingAreaNotAllowed, EPSServicesNotAllowedInThisPLMN,
               RequestedServiceOptionNotAuthorizedInThisPLMN}
      | NasEMM (EMMAttachReject c) \<Rightarrow>
          c \<in> {IllegalUE, IllegalME, EPSServicesNotAllowed, EPSServicesAndNonEPSServicesNotAllowed,
               PLMNNotAllowed, TrackingAreaNotAllowed, RoamingNotAllowedInThisTrackingArea,
               EPSServicesNotAllowedInThisPLMN, NoSuitableCellsInTrackingArea,
               RequestedServiceOptionNotAuthorizedInThisPLMN}
      | NasEMM (EMMDetachRequestMT typ _ _) \<Rightarrow> typ \<noteq> IMSIDetach
      | NasEMM (EMMAttachRequest _ _) \<Rightarrow> False
      | NasEMM (EMMServiceReject c) \<Rightarrow>
          c \<in> {IllegalUE, IllegalME, EPSServicesNotAllowed, UEIdentityCannotBeDerivedByTheNetwork,
               TrackingAreaNotAllowed, EPSServicesNotAllowedInThisPLMN,
               RequestedServiceOptionNotAuthorizedInThisPLMN}
      | _ \<Rightarrow> False)"

text \<open>\<open>{:?}\<close> of the derived \<open>Debug\<close>: the variant's name.\<close>

fun debug_cause :: "EMMCause \<Rightarrow> ustr" where
  "debug_cause IllegalUE = lit ''IllegalUE''"
| "debug_cause IllegalME = lit ''IllegalME''"
| "debug_cause EPSServicesNotAllowed = lit ''EPSServicesNotAllowed''"
| "debug_cause EPSServicesAndNonEPSServicesNotAllowed = lit ''EPSServicesAndNonEPSServicesNotAllowed''"
| "debug_cause PLMNNotAllowed = lit ''PLMNNotAllowed''"
| "debug_cause TrackingAreaNotAllowed = lit ''TrackingAreaNotAllowed''"
| "debug_cause RoamingNotAllowedInThisTrackingArea = lit ''RoamingNotAllowedInThisTrackingArea''"
| "debug_cause EPSServicesNotAllowedInThisPLMN = lit ''EPSServicesNotAllowedInThisPLMN''"
| "debug_cause NoSuitableCellsInTrackingArea = lit ''NoSuitableCellsInTrackingArea''"
| "debug_cause RequestedServiceOptionNotAuthorizedInThisPLMN = lit ''RequestedServiceOptionNotAuthorizedInThisPLMN''"
| "debug_cause UEIdentityCannotBeDerivedByTheNetwork = lit ''UEIdentityCannotBeDerivedByTheNetwork''"
| "debug_cause MACFailure = lit ''MACFailure''"
| "debug_cause SynchFailure = lit ''SynchFailure''"
| "debug_cause NonEPSAuthenticationUnacceptable = lit ''NonEPSAuthenticationUnacceptable''"
| "debug_cause (OtherCause shown) = shown"

fun debug_id_type :: "IDTypeV \<Rightarrow> ustr" where
  "debug_id_type IMSI = lit ''IMSI''"
| "debug_id_type (OtherIDType shown) = shown"

definition diagnostic_message_type :: "NASMessage \<Rightarrow> ustr" where
  "diagnostic_message_type nas =
     (case nas of
        NasEMM (EMMIdentityRequest t) \<Rightarrow> lit ''EMM Identity Request ('' @ debug_id_type t @ lit '')''
      | NasEMM (EMMTrackingAreaUpdateReject c) \<Rightarrow>
          lit ''EMM Tracking Area Update Reject ('' @ debug_cause c @ lit '')''
      | NasEMM (EMMAttachReject c) \<Rightarrow> lit ''EMM Attach Reject ('' @ debug_cause c @ lit '')''
      | NasEMM (EMMDetachRequestMT _ shown cause) \<Rightarrow>
          lit ''EMM Detach Request ('' @ shown @ lit '':'' @ cause @ lit '')''
      | NasEMM (EMMServiceReject c) \<Rightarrow> lit ''EMM Service Reject ('' @ debug_cause c @ lit '')''
      | NasEMM (EMMAttachRequest _ epsid) \<Rightarrow> lit ''EPS Attach Request ('' @ epsid @ lit '')''
      | NasEMM _ \<Rightarrow> lit ''Unknown EMM Message''
      | _ \<Rightarrow> lit ''Unknown NAS Message'')"

definition diagnostic_analyze :: "InformationElement \<Rightarrow> Event option" where
  "diagnostic_analyze ie =
     (case ie of
        LTE (NAS nas) \<Rightarrow>
          if is_imsi_exposing_nas nas
          then Some (event Informational (lit ''Diagnostic: '' @ diagnostic_message_type nas @ lit ''.''))
          else None
      | _ \<Rightarrow> None)"

section \<open>Test detector\<close>

definition mcc_string :: "PLMN_Identity \<Rightarrow> ustr" where
  "mcc_string p =
     (case plmn_mcc p of
        None \<Rightarrow> lit ''nomcc''
      | Some (a, b, c) \<Rightarrow> decimal (unat a) @ decimal (unat b) @ decimal (unat c))"

fun mnc_string :: "MNC \<Rightarrow> ustr" where
  "mnc_string (MNC3 a b c) = decimal (unat a) @ decimal (unat b) @ decimal (unat c)"
| "mnc_string (MNC2 a b) = decimal (unat a) @ decimal (unat b)"

definition test_analyze :: "InformationElement \<Rightarrow> Event option" where
  "test_analyze ie =
     (case ie of
        LTE (BcchDlSch (SystemInformationBlockType1 sib1)) \<Rightarrow>
          (let cid = load_be (sib1_cell_identity sib1);
               tac = load_be (sib1_tracking_area_code sib1);
               plmn = sib1_plmns sib1 ! 0 in
           Some (event LowSeverity
             (lit ''SIB1 received CID: '' @ decimal (unat cid) @ lit '', TAC: '' @ decimal (unat tac)
              @ lit '', PLMN: '' @ mcc_string plmn @ lit ''-'' @ mnc_string (plmn_mnc plmn))))
      | _ \<Rightarrow> None)"

section \<open>Reselection priorities\<close>

record LteSib6And7DowngradeAnalyzer =
  pd_lte_priority :: "u8 option"
  pd_legacy_priority :: "u8 option"

definition priority_new :: LteSib6And7DowngradeAnalyzer where
  "priority_new = \<lparr>pd_lte_priority = None, pd_legacy_priority = None\<rparr>"

text \<open>\<open>Some(p) > current\<close> on options, where \<open>None\<close> is below every \<open>Some\<close>.\<close>

fun opt_less :: "u8 option \<Rightarrow> u8 option \<Rightarrow> bool" where
  "opt_less None None = False"
| "opt_less None (Some _) = True"
| "opt_less (Some _) None = False"
| "opt_less (Some a) (Some b) = (a < b)"

definition raise :: "u8 \<Rightarrow> u8 option \<Rightarrow> u8 option" where
  "raise p current = (if opt_less current (Some p) then Some p else current)"

definition raise_all :: "u8 option list \<Rightarrow> u8 option \<Rightarrow> u8 option" where
  "raise_all ps current = fold (\<lambda>p c. case p of None \<Rightarrow> c | Some q \<Rightarrow> raise q c) ps current"

definition unpack_system_information :: "InformationElement \<Rightarrow> SibEntry list option" where
  "unpack_system_information ie = (case ie of LTE (BcchDlSch (SystemInformation_r8 sibs)) \<Rightarrow> Some sibs | _ \<Rightarrow> None)"

fun note_sib :: "SibEntry \<Rightarrow> LteSib6And7DowngradeAnalyzer \<Rightarrow> LteSib6And7DowngradeAnalyzer" where
  "note_sib (Sib3 p) a = a\<lparr>pd_lte_priority := raise p (pd_lte_priority a)\<rparr>"
| "note_sib (Sib5 ps) a = a\<lparr>pd_lte_priority := raise_all ps (pd_lte_priority a)\<rparr>"
| "note_sib (Sib6 fdd tdd) a =
     a\<lparr>pd_legacy_priority := raise_all (case tdd of None \<Rightarrow> [] | Some ps \<Rightarrow> ps)
         (raise_all (case fdd of None \<Rightarrow> [] | Some ps \<Rightarrow> ps) (pd_legacy_priority a))\<rparr>"
| "note_sib (Sib7 (Some ps)) a = a\<lparr>pd_legacy_priority := raise_all ps (pd_legacy_priority a)\<rparr>"
| "note_sib (Sib7 None) a = a"
| "note_sib SibOther a = a"

fun debug_option :: "u8 option \<Rightarrow> ustr" where
  "debug_option None = lit ''None''"
| "debug_option (Some p) = lit ''Some('' @ decimal (unat p) @ lit '')''"

definition priority_flag :: "LteSib6And7DowngradeAnalyzer \<Rightarrow> Event option" where
  "priority_flag a =
     (if opt_less (pd_lte_priority a) (pd_legacy_priority a) then
        if pd_lte_priority a = None
        then Some (event Informational (lit ''LTE cell advertised a legacy (3G/2G) neighbors but no LTE neighbors''))
        else
          (case pd_legacy_priority a of
             None \<Rightarrow> None
           | Some legacy \<Rightarrow>
               Some (event HighSeverity
                 (lit ''LTE cell advertised a legacy (3G/2G) cell for priority '' @ decimal (unat legacy)
                  @ lit '' reselection over LTE neighbors at priority '' @ debug_option (pd_lte_priority a))))
      else None)"

definition priority_analyze :: "LteSib6And7DowngradeAnalyzer \<Rightarrow> InformationElement
    \<Rightarrow> Event option \<times> LteSib6And7DowngradeAnalyzer" where
  "priority_analyze a ie =
     (case ie of
        LTE (BcchDlSch (SystemInformationBlockType1 _)) \<Rightarrow>
          (priority_flag a, a\<lparr>pd_lte_priority := None, pd_legacy_priority := None\<rparr>)
      | _ \<Rightarrow>
          (case unpack_system_information ie of
             None \<Rightarrow> (None, a)
           | Some sibs \<Rightarrow> (None, fold note_sib sibs a)))"

section \<open>Every null cipher is found\<close>

text \<open>The ciphering algorithms a message proposes, wherever they stand in it.\<close>

definition opt_list :: "'a option \<Rightarrow> 'a list" where
  "opt_list x = (case x of None \<Rightarrow> [] | Some y \<Rightarrow> [y])"

lemma in_opt_list [simp]: "y \<in> set (opt_list x) \<longleftrightarrow> x = Some y"
  by (cases x) (auto simp: opt_list_def)

fun handover_ciphers :: "SecurityConfigHO \<Rightarrow> CipheringAlgorithm_r12 list" where
  "handover_ciphers (IntraLTE c) = opt_list c"
| "handover_ciphers (InterRAT c) = [c]"

fun handover_5g_ciphers :: "SecurityConfigHO_v1530 \<Rightarrow> CipheringAlgorithm_r12 list" where
  "handover_5g_ciphers (Intra5GC c) = opt_list c"
| "handover_5g_ciphers (Fivegc_ToEPC c) = [c]"
| "handover_5g_ciphers (Epc_To5GC c) = [c]"

fun scg_part :: "SCG_Configuration_r12 \<Rightarrow> SCG_ConfigPartSCG option" where
  "scg_part (ScgSetup part) = part"
| "scg_part ScgRelease = None"

definition each :: "('a \<Rightarrow> 'b option) \<Rightarrow> 'a list \<Rightarrow> 'b list" where
  "each f xs = concat (map (\<lambda>x. opt_list (f x)) xs)"

definition release_12 :: "Reconf_r8 \<Rightarrow> Reconf_v1250 list" where
  "release_12 r = each v1130_next (each v1020_next (each v920_next (each v890_next (each r8_next [r]))))"

definition release_15 :: "Reconf_v1250 list \<Rightarrow> Reconf_v1530 list" where
  "release_15 vs = each v1510_next (each v1430_next (each v1310_next (each v1250_next vs)))"

definition proposed_ciphers :: "DL_DCCH_Message \<Rightarrow> CipheringAlgorithm_r12 list" where
  "proposed_ciphers m =
     (case m of
        SecurityModeCommand_r8 c \<Rightarrow> [c]
      | RrcConnectionReconfiguration_r8 r \<Rightarrow>
          concat (map handover_ciphers (each r8_security_config_ho [r]))
          @ each mci_ciphering_algorithm_scg (each scg_mobility_control_info
              (each scg_part (each v1250_scg_configuration (release_12 r))))
          @ concat (map handover_5g_ciphers (each v1530_security_config_ho (release_15 (release_12 r))))
      | _ \<Rightarrow> [])"

lemma in_handover_ciphers [simp]: "c \<in> set (handover_ciphers h) \<longleftrightarrow> handover_security_config h = Some c"
  by (cases h) (auto simp: handover_security_config_def)

lemma in_handover_5g_ciphers [simp]: "c \<in> set (handover_5g_ciphers h) \<longleftrightarrow> handover_v1530_algorithm h = Some c"
  by (cases h) (auto simp: handover_v1530_algorithm_def)

lemma each_single [simp]: "each f [x] = opt_list (f x)"
  by (simp add: each_def)

lemma each_opt_list [simp]: "each f (opt_list y) = opt_list (Option.bind y f)"
  by (cases y) (auto simp: each_def opt_list_def)

lemma in_concat_opt_list [simp]: "c \<in> set (concat (map g (opt_list y))) \<longleftrightarrow> (\<exists>x. y = Some x \<and> c \<in> set (g x))"
  by (cases y) (auto simp: opt_list_def)

lemma bind_Some: "Option.bind x f = Some y \<longleftrightarrow> (\<exists>z. x = Some z \<and> f z = Some y)"
  by (cases x) auto

lemma scg_cipher_eq:
  "scg_cipher scg = Option.bind (Option.bind (Option.bind scg scg_part) scg_mobility_control_info) mci_ciphering_algorithm_scg"
  by (cases scg; cases "the scg") (auto simp: scg_cipher_def)

lemma release_12_opt_list: "release_12 r = opt_list (reconf_v1250 r)"
  by (simp add: release_12_def reconf_v1250_def)

lemma proposed_in_reconfiguration:
  "c \<in> set (proposed_ciphers (RrcConnectionReconfiguration_r8 r)) \<longleftrightarrow>
     Option.bind (r8_security_config_ho r) handover_security_config = Some c
     \<or> (\<exists>v. reconf_v1250 r = Some v \<and> (scg_cipher (v1250_scg_configuration v) = Some c
         \<or> Option.bind (reconf_v1530_security_config v) handover_v1530_algorithm = Some c))"
  by (cases "reconf_v1250 r";
     simp add: proposed_ciphers_def release_12_opt_list release_15_def reconf_v1530_security_config_def
       scg_cipher_eq bind_Some del: set_concat; blast?)

lemma null_cipher_iff:
  "null_cipher_analyze ie =
     (if \<exists>m. ie = LTE (DlDcch m) \<and> EEA0 \<in> set (proposed_ciphers m)
      then Some (event HighSeverity (lit ''Cell suggested use of null cipher'')) else None)"
proof -
  have reconf: "check_rrc_connection_reconfiguration_cipher r
      \<longleftrightarrow> EEA0 \<in> set (proposed_ciphers (RrcConnectionReconfiguration_r8 r))" for r
    unfolding proposed_in_reconfiguration
    by (auto simp: check_rrc_connection_reconfiguration_cipher_def bind_Some split: option.splits)
  show ?thesis
    by (auto simp: null_cipher_analyze_def reconf check_security_mode_command_cipher_def
        proposed_ciphers_def [of "SecurityModeCommand_r8 _"]
        split: InformationElement.splits LteInformationElement.splits DL_DCCH_Message.splits)
       (auto simp: proposed_ciphers_def)
qed

lemma null_cipher_alarm:
  "EEA0 \<in> set (proposed_ciphers m) \<Longrightarrow>
     \<exists>ev. null_cipher_analyze (LTE (DlDcch m)) = Some ev \<and> event_type ev = HighSeverity"
  by (simp add: null_cipher_iff)

text \<open>C8: The cipher detector misses nothing and invents nothing: it raises its high warning for exactly
  the downlink messages that propose the null cipher, whether in a security mode command, in a handover
  within LTE or between technologies, for a secondary cell group, or in the release 15 handover fields.\<close>

theorem null_cipher_detection:
  "null_cipher_analyze ie =
     (if \<exists>m. ie = LTE (DlDcch m) \<and> EEA0 \<in> set (proposed_ciphers m)
      then Some (event HighSeverity (lit ''Cell suggested use of null cipher'')) else None)"
  by (rule null_cipher_iff)

section \<open>The downgrade verdict\<close>

fun lte_priorities :: "SibEntry \<Rightarrow> u8 list" where
  "lte_priorities (Sib3 p) = [p]"
| "lte_priorities (Sib5 ps) = concat (map opt_list ps)"
| "lte_priorities _ = []"

fun legacy_priorities :: "SibEntry \<Rightarrow> u8 list" where
  "legacy_priorities (Sib6 fdd tdd) = concat (map opt_list (concat (opt_list fdd @ opt_list tdd)))"
| "legacy_priorities (Sib7 ps) = concat (map opt_list (concat (opt_list ps)))"
| "legacy_priorities _ = []"

definition highest :: "u8 list \<Rightarrow> u8 option" where
  "highest ps = (if ps = [] then None else Some (Max (set ps)))"

lemma raise_Some: "raise p (Some m) = Some (max p m)"
  by (auto simp: raise_def max_def)

lemma raise_highest: "raise p (highest ps) = highest (ps @ [p])"
proof (cases "ps = []")
  case False
  then have "Max (set (ps @ [p])) = max p (Max (set ps))" by simp
  with False have "highest (ps @ [p]) = Some (max p (Max (set ps)))" by (simp only: highest_def) simp
  with False show ?thesis by (simp add: highest_def raise_Some)
qed (simp add: raise_def highest_def)

lemma raise_all_highest: "raise_all ps (highest qs) = highest (qs @ concat (map opt_list ps))"
  by (induction ps arbitrary: qs)
    (auto simp: raise_all_def raise_highest opt_list_def split: option.splits)

text \<open>The blocks heard since the last SIB1, in the order they came.\<close>

definition sibs_since_sib1 :: "InformationElement list \<Rightarrow> SibEntry list" where
  "sibs_since_sib1 hs = concat (map (concat \<circ> opt_list \<circ> unpack_system_information)
     (rev (takeWhile (\<lambda>ie. \<not> is_sib1 ie) (rev hs))))"

definition priority_run :: "InformationElement list \<Rightarrow> LteSib6And7DowngradeAnalyzer" where
  "priority_run hs = fold (\<lambda>ie a. snd (priority_analyze a ie)) hs priority_new"

definition holds_highest :: "SibEntry list \<Rightarrow> LteSib6And7DowngradeAnalyzer \<Rightarrow> bool" where
  "holds_highest ss a \<longleftrightarrow> pd_lte_priority a = highest (concat (map lte_priorities ss))
     \<and> pd_legacy_priority a = highest (concat (map legacy_priorities ss))"

lemma note_sib_highest: "holds_highest ss a \<Longrightarrow> holds_highest (ss @ [s]) (note_sib s a)"
  by (cases "(s, a)" rule: note_sib.cases)
    (auto simp: holds_highest_def raise_highest raise_all_highest opt_list_def split: option.splits)

lemma note_sibs_highest: "holds_highest ss a \<Longrightarrow> holds_highest (ss @ ts) (fold note_sib ts a)"
proof (induction ts arbitrary: ss a)
  case (Cons t ts)
  from Cons.IH [OF note_sib_highest [OF Cons.prems, of t]] show ?case by simp
qed simp

lemma sibs_since_sib1_snoc:
  "sibs_since_sib1 (hs @ [ie]) =
     (if is_sib1 ie then [] else sibs_since_sib1 hs @ concat (opt_list (unpack_system_information ie)))"
  by (simp add: sibs_since_sib1_def)

lemma priority_analyze_state:
  "snd (priority_analyze a ie) =
     (if is_sib1 ie then \<lparr>pd_lte_priority = None, pd_legacy_priority = None\<rparr>
      else fold note_sib (concat (opt_list (unpack_system_information ie))) a)"
  by (auto simp: priority_analyze_def is_sib1_def unpack_system_information_def opt_list_def
      split: InformationElement.splits LteInformationElement.splits BCCH_DL_SCH_Message.splits)

lemma priority_run_highest: "holds_highest (sibs_since_sib1 hs) (priority_run hs)"
proof (induction hs rule: rev_induct)
  case Nil
  then show ?case by (simp add: holds_highest_def priority_run_def priority_new_def sibs_since_sib1_def highest_def)
next
  case (snoc ie hs)
  then show ?case
    by (simp add: sibs_since_sib1_snoc priority_run_def priority_analyze_state note_sibs_highest
        del: fold_simps) (simp add: holds_highest_def highest_def)
qed

lemma highest_above: "opt_less (highest ps) (highest qs) \<longleftrightarrow> (\<exists>q \<in> set qs. \<forall>p \<in> set ps. p < q)"
proof (cases "ps = [] \<or> qs = []")
  case True
  then show ?thesis by (cases qs) (auto simp: highest_def)
next
  case False
  then have "Max (set ps) < Max (set qs) \<longleftrightarrow> (\<exists>q \<in> set qs. Max (set ps) < q)" by (simp add: Max_gr_iff)
  with False show ?thesis by (simp add: highest_def)
qed

lemma highest_None [simp]: "highest ps = None \<longleftrightarrow> ps = []"
  by (simp add: highest_def)


end
