(* ===== verification/Lpp.thy ===== *)
theory Lpp
  imports Events "HOL-Library.Monad_Syntax"
begin

unbundle bit_operations_syntax

text \<open>
  Location requests over the LTE positioning protocol, \<open>lib/src/analysis/lpp.rs\<close>: the bit reader, the decoder
  of the fixed prefix of a message, the decoder of location requests and responses, and the two detectors.

  The decoders are shown to undo the encoding of the standard (a specification of the bits of a message is
  given here), and each detector to warn once per transaction. The second detector turns out to keep a
  transaction that was aborted.
\<close>

section \<open>Bit reader\<close>

record BitReader =
  br_bytes :: bytes
  br_position :: nat

definition bit_reader_new :: "bytes \<Rightarrow> BitReader" where
  "bit_reader_new bs = \<lparr>br_bytes = bs, br_position = 0\<rparr>"

definition read_bit :: "BitReader \<Rightarrow> (bool \<times> BitReader) option" where
  "read_bit r =
     (let i = br_position r div 8 in
      if i < length (br_bytes r)
      then Some (drop_bit (7 - br_position r mod 8) (br_bytes r ! i) AND 1 = 1, r\<lparr>br_position := br_position r + 1\<rparr>)
      else None)"

fun read_bits_loop :: "nat \<Rightarrow> u32 \<Rightarrow> BitReader \<Rightarrow> (u32 \<times> BitReader) option" where
  "read_bits_loop 0 v r = Some (v, r)"
| "read_bits_loop (Suc n) v r = do { (b, r) \<leftarrow> read_bit r; read_bits_loop n (push_bit 1 v OR of_bool b) r }"

definition read_bits :: "nat \<Rightarrow> BitReader \<Rightarrow> (u32 \<times> BitReader) option" where
  "read_bits n r = read_bits_loop n 0 r"

section \<open>Prefix of a message\<close>

datatype Initiator = LocationServer | TargetDevice

datatype LppBody =
    RequestCapabilities | ProvideCapabilities | RequestAssistanceData | ProvideAssistanceData
  | RequestLocationInformation | ProvideLocationInformation | LppAbort | LppError | Reserved | Absent

type_synonym transaction = "Initiator \<times> u8"

record LppSummary =
  ls_transaction :: "transaction option"
  ls_end_transaction :: bool
  ls_body :: LppBody

definition read_transaction :: "bool \<Rightarrow> BitReader \<Rightarrow> (transaction option \<times> BitReader) option" where
  "read_transaction has_transaction_id r =
     (if has_transaction_id then
        do { (id_extended, r) \<leftarrow> read_bit r;
             (initiator_extended, r) \<leftarrow> read_bit r;
             if initiator_extended then None
             else do {
               (device, r) \<leftarrow> read_bit r;
               (number, r) \<leftarrow> read_bits 8 r;
               if id_extended then None
               else Some (Some (if device then TargetDevice else LocationServer, ucast number), r) } }
      else Some (None, r))"

definition skip_sequence_number :: "bool \<Rightarrow> BitReader \<Rightarrow> BitReader option" where
  "skip_sequence_number present r = (if present then do { (_, r) \<leftarrow> read_bits 8 r; Some r } else Some r)"

definition skip_acknowledgement :: "bool \<Rightarrow> BitReader \<Rightarrow> BitReader option" where
  "skip_acknowledgement present r =
     (if present then
        do { (has_indicator, r) \<leftarrow> read_bit r;
             (_, r) \<leftarrow> read_bit r;
             if has_indicator then do { (_, r) \<leftarrow> read_bits 8 r; Some r } else Some r }
      else Some r)"

definition body_of_index :: "u32 \<Rightarrow> LppBody" where
  "body_of_index i =
     (if i = 0 then RequestCapabilities else if i = 1 then ProvideCapabilities
      else if i = 2 then RequestAssistanceData else if i = 3 then ProvideAssistanceData
      else if i = 4 then RequestLocationInformation else if i = 5 then ProvideLocationInformation
      else if i = 6 then LppAbort else if i = 7 then LppError else Reserved)"

definition read_body :: "bool \<Rightarrow> BitReader \<Rightarrow> (LppBody \<times> BitReader) option" where
  "read_body has_body r =
     (if has_body then
        do { (class_extension, r) \<leftarrow> read_bit r;
             if class_extension then Some (Reserved, r)
             else do { (i, r) \<leftarrow> read_bits 4 r; Some (body_of_index i, r) } }
      else Some (Absent, r))"

definition read_lpp_prefix :: "BitReader \<Rightarrow> (LppSummary \<times> BitReader) option" where
  "read_lpp_prefix r =
     do { (has_transaction_id, r) \<leftarrow> read_bit r;
          (has_sequence_number, r) \<leftarrow> read_bit r;
          (has_acknowledgement, r) \<leftarrow> read_bit r;
          (has_body, r) \<leftarrow> read_bit r;
          (transaction, r) \<leftarrow> read_transaction has_transaction_id r;
          (end_transaction, r) \<leftarrow> read_bit r;
          r \<leftarrow> skip_sequence_number has_sequence_number r;
          r \<leftarrow> skip_acknowledgement has_acknowledgement r;
          (body, r) \<leftarrow> read_body has_body r;
          Some (\<lparr>ls_transaction = transaction, ls_end_transaction = end_transaction, ls_body = body\<rparr>, r) }"

definition decode_lpp_prefix :: "bytes \<Rightarrow> LppSummary option" where
  "decode_lpp_prefix bs = map_option fst (read_lpp_prefix (bit_reader_new bs))"

section \<open>Details\<close>

record Methods =
  m_gnss :: bool
  m_otdoa :: bool
  m_ecid :: bool
  m_epdu :: bool

definition methods_any :: "Methods \<Rightarrow> bool" where
  "methods_any m \<longleftrightarrow> m_gnss m \<or> m_otdoa m \<or> m_ecid m \<or> m_epdu m"

definition methods_describe :: "Methods \<Rightarrow> ustr" where
  "methods_describe m =
     (let parts = (if m_gnss m then [lit ''satellite (GNSS)''] else [])
                @ (if m_otdoa m then [lit ''tower timing (OTDOA)''] else [])
                @ (if m_ecid m then [lit ''cell ID (E-CID)''] else [])
                @ (if m_epdu m then [lit ''an external protocol''] else []) in
      if parts = [] then lit ''an unspecified method'' else join_comma parts)"

datatype LocInfoType = EstimateRequired | MeasurementsRequired | EstimatePreferred | MeasurementsPreferred | UnknownInfo

datatype LppDetailKind =
    LppRequest Methods bool LocInfoType
  | LppResponse Methods bool bool
  | LppOtherKind

text \<open>\<open>LppRequest methods periodic info_type\<close> and \<open>LppResponse methods provided_estimate declined\<close>.\<close>

record LppDetail =
  ld_summary :: LppSummary
  ld_kind :: LppDetailKind

definition enter_r9 :: "BitReader \<Rightarrow> (bool \<times> BitReader) option" where
  "enter_r9 r =
     do { (future, r) \<leftarrow> read_bit r;
          if future then Some (False, r)
          else do { (alternative, r) \<leftarrow> read_bits 2 r; Some (alternative = 0, r) } }"

definition read_methods :: "BitReader \<Rightarrow> (Methods \<times> BitReader) option" where
  "read_methods r =
     do { (gnss, r) \<leftarrow> read_bit r;
          (otdoa, r) \<leftarrow> read_bit r;
          (ecid, r) \<leftarrow> read_bit r;
          (epdu, r) \<leftarrow> read_bit r;
          Some (\<lparr>m_gnss = gnss, m_otdoa = otdoa, m_ecid = ecid, m_epdu = epdu\<rparr>, r) }"

definition info_type_of :: "bool \<Rightarrow> u32 \<Rightarrow> LocInfoType" where
  "info_type_of extended index =
     (if extended then UnknownInfo
      else if index = 0 then EstimateRequired else if index = 1 then MeasurementsRequired
      else if index = 2 then EstimatePreferred else if index = 3 then MeasurementsPreferred else UnknownInfo)"

definition read_request_common :: "BitReader \<Rightarrow> ((bool \<times> LocInfoType) \<times> BitReader) option" where
  "read_request_common r =
     do { (_, r) \<leftarrow> read_bit r;
          (_, r) \<leftarrow> read_bit r;
          (periodic, r) \<leftarrow> read_bit r;
          (_, r) \<leftarrow> read_bit r;
          (_, r) \<leftarrow> read_bit r;
          (_, r) \<leftarrow> read_bit r;
          (_, r) \<leftarrow> read_bit r;
          (_, r) \<leftarrow> read_bit r;
          (extended, r) \<leftarrow> read_bit r;
          (index, r) \<leftarrow> read_bits 2 r;
          Some ((periodic, info_type_of extended index), r) }"

definition read_request_detail :: "BitReader \<Rightarrow> LppDetailKind option" where
  "read_request_detail r =
     do { (r9, r) \<leftarrow> enter_r9 r;
          if \<not> r9 then Some LppOtherKind
          else do {
            (_, r) \<leftarrow> read_bit r;
            (common, r) \<leftarrow> read_bit r;
            (methods, r) \<leftarrow> read_methods r;
            if common
            then do { ((periodic, info_type), r) \<leftarrow> read_request_common r; Some (LppRequest methods periodic info_type) }
            else Some (LppRequest methods False UnknownInfo) } }"

definition read_response_detail :: "BitReader \<Rightarrow> LppDetailKind option" where
  "read_response_detail r =
     do { (r9, r) \<leftarrow> enter_r9 r;
          if \<not> r9 then Some LppOtherKind
          else do {
            (_, r) \<leftarrow> read_bit r;
            (common, r) \<leftarrow> read_bit r;
            (methods, r) \<leftarrow> read_methods r;
            if common
            then do { (_, r) \<leftarrow> read_bit r;
                      (provided_estimate, r) \<leftarrow> read_bit r;
                      (_, r) \<leftarrow> read_bit r;
                      (declined, r) \<leftarrow> read_bit r;
                      Some (LppResponse methods provided_estimate declined) }
            else Some (LppResponse methods False False) } }"

definition decode_lpp_detail :: "bytes \<Rightarrow> LppDetail option" where
  "decode_lpp_detail bs =
     do { (summary, r) \<leftarrow> read_lpp_prefix (bit_reader_new bs);
          kind \<leftarrow> (case ls_body summary of
                     RequestLocationInformation \<Rightarrow> read_request_detail r
                   | ProvideLocationInformation \<Rightarrow> read_response_detail r
                   | _ \<Rightarrow> Some LppOtherKind);
          Some \<lparr>ld_summary = summary, ld_kind = kind\<rparr> }"

section \<open>The request detector\<close>

datatype Direction = Downlink | Uplink

text \<open>The hash map with unit values is the set of its keys. \<open>insert\<close> says whether the key was there.\<close>

type_synonym warned = "transaction set"

definition transaction_note :: "transaction option \<Rightarrow> ustr" where
  "transaction_note t =
     (case t of
        Some (LocationServer, n) \<Rightarrow> lit '' (network transaction '' @ decimal (unat n) @ lit '')''
      | Some (TargetDevice, n) \<Rightarrow> lit '' (device transaction '' @ decimal (unat n) @ lit '')''
      | None \<Rightarrow> [])"

definition escalating_event :: "warned \<Rightarrow> transaction option \<Rightarrow> EventType \<Rightarrow> ustr \<Rightarrow> ustr \<Rightarrow> Event \<times> warned" where
  "escalating_event w transaction severity first_message repeat_message =
     (let (already_warned, w) =
        (case transaction of Some t \<Rightarrow> (t \<in> w, insert t w) | None \<Rightarrow> (False, w)) in
      (if already_warned then event Informational repeat_message else event severity first_message, w))"

definition location_event :: "warned \<Rightarrow> LppSummary \<Rightarrow> ustr \<Rightarrow> ustr \<Rightarrow> Event \<times> warned" where
  "location_event w summary first_message repeat_message =
     escalating_event w (ls_transaction summary) LowSeverity first_message repeat_message"

definition request_event :: "warned \<Rightarrow> LppSummary \<Rightarrow> Direction \<Rightarrow> Event \<times> warned" where
  "request_event w summary direction =
     (let note = transaction_note (ls_transaction summary);
          info = (\<lambda>text. (event Informational (text @ note), w)) in
      case ls_body summary of
        RequestLocationInformation \<Rightarrow>
          (case direction of
             Downlink \<Rightarrow> location_event w summary
               (lit ''Network requested this device's location over LPP'' @ note)
               (lit ''Network repeated its LPP location request'' @ note)
           | Uplink \<Rightarrow> (event LowSeverity
               (lit ''This device sent an LPP location request uplink, which is not a normal flow'' @ note), w))
      | ProvideLocationInformation \<Rightarrow>
          (case direction of
             Uplink \<Rightarrow> location_event w summary
               (lit ''This device reported its location to the network over LPP'' @ note)
               (lit ''This device sent another LPP location report'' @ note)
           | Downlink \<Rightarrow> info (lit ''Network sent an LPP location report downlink''))
      | RequestCapabilities \<Rightarrow> info (lit ''LPP positioning capability request'')
      | ProvideCapabilities \<Rightarrow> info (lit ''LPP positioning capability response'')
      | RequestAssistanceData \<Rightarrow> info (lit ''LPP assistance data request'')
      | ProvideAssistanceData \<Rightarrow> info (lit ''LPP assistance data (routine GPS help)'')
      | LppAbort \<Rightarrow> info (lit ''LPP transaction aborted'')
      | LppError \<Rightarrow> info (lit ''LPP error message'')
      | Reserved \<Rightarrow> info (lit ''LPP message with no readable body'')
      | Absent \<Rightarrow> info (lit ''LPP message with no readable body''))"

definition forget_finished :: "LppSummary \<Rightarrow> warned \<Rightarrow> warned" where
  "forget_finished summary w =
     (case ls_transaction summary of
        Some t \<Rightarrow> if ls_end_transaction summary \<or> ls_body summary = LppAbort then w - {t} else w
      | None \<Rightarrow> w)"

definition request_event_for :: "warned \<Rightarrow> LppSummary \<Rightarrow> Direction \<Rightarrow> Event \<times> warned" where
  "request_event_for w summary direction =
     (let (ev, w) = request_event w summary direction in (ev, forget_finished summary w))"

definition lpp_container :: "InformationElement \<Rightarrow> (bytes \<times> Direction) option" where
  "lpp_container ie =
     (case ie of
        LTE (NAS (NasEMM (EMMDLGenericNASTransport LPPMessageContainer buf))) \<Rightarrow> Some (buf, Downlink)
      | LTE (NAS (NasEMM (EMMULGenericNASTransport LPPMessageContainer buf))) \<Rightarrow> Some (buf, Uplink)
      | _ \<Rightarrow> None)"

definition lpp_request_analyze :: "warned \<Rightarrow> InformationElement \<Rightarrow> Event option \<times> warned" where
  "lpp_request_analyze w ie =
     (case lpp_container ie of
        None \<Rightarrow> (None, w)
      | Some (buf, direction) \<Rightarrow>
          (case decode_lpp_prefix buf of
             Some summary \<Rightarrow> (let (ev, w) = request_event_for w summary direction in (Some ev, w))
           | None \<Rightarrow> (Some (event Informational (lit ''LPP message seen, but its type could not be read'')), w)))"

section \<open>The tracking detector\<close>

definition tracking_event :: "warned \<Rightarrow> LppDetail \<Rightarrow> Direction \<Rightarrow> (Event \<times> warned) option" where
  "tracking_event w detail direction =
     (let t = ls_transaction (ld_summary detail); note = transaction_note t in
      case ld_kind detail of
        LppRequest methods periodic _ \<Rightarrow>
          (case direction of
             Downlink \<Rightarrow>
               if periodic then
                 Some (escalating_event w t MediumSeverity
                   (lit ''Network requested CONTINUOUS location tracking via '' @ methods_describe methods
                      @ lit '': reports repeat until stopped'' @ note)
                   (lit ''Network's continuous LPP tracking request repeated'' @ note))
               else
                 Some (escalating_event w t LowSeverity
                   (lit ''Network requested a one-off location fix via '' @ methods_describe methods @ note)
                   (lit ''Network repeated its one-off LPP location request'' @ note))
           | Uplink \<Rightarrow> Some (event LowSeverity
               (lit ''This device sent an LPP location request uplink ('' @ methods_describe methods
                @ lit ''), which is unusual'' @ note), w))
      | LppResponse methods provided_estimate declined \<Rightarrow>
          (case direction of
             Uplink \<Rightarrow>
               if declined \<and> \<not> provided_estimate \<and> \<not> methods_any methods then
                 Some (event Informational (lit ''This device declined the network's LPP location request'' @ note), w)
               else
                 (let how = (if methods_any methods then methods_describe methods else lit ''an estimate'') in
                  Some (escalating_event w t LowSeverity
                    (lit ''This device reported its position to the network via '' @ how @ note)
                    (lit ''This device sent another LPP location report'' @ note)))
           | Downlink \<Rightarrow> Some (event Informational
               (lit ''Network sent an LPP location report downlink, which is unusual'' @ note), w))
      | LppOtherKind \<Rightarrow> None)"

definition tracking_event_for :: "warned \<Rightarrow> LppDetail \<Rightarrow> Direction \<Rightarrow> Event option \<times> warned" where
  "tracking_event_for w detail direction =
     (case tracking_event w detail direction of
        None \<Rightarrow> (None, w)
      | Some (ev, w) \<Rightarrow> (Some ev, forget_finished (ld_summary detail) w))"

definition lpp_tracking_analyze :: "warned \<Rightarrow> InformationElement \<Rightarrow> Event option \<times> warned" where
  "lpp_tracking_analyze w ie =
     (case lpp_container ie of
        None \<Rightarrow> (None, w)
      | Some (buf, direction) \<Rightarrow>
          (case decode_lpp_detail buf of
             None \<Rightarrow> (None, w)
           | Some detail \<Rightarrow> tracking_event_for w detail direction))"

section \<open>The reader as a list of bits\<close>

definition msb_bits :: "nat \<Rightarrow> 'a::len word \<Rightarrow> bool list" where
  "msb_bits k w = map (bit w) (rev [0..<k])"

definition bits_of :: "bytes \<Rightarrow> bool list" where
  "bits_of bs = concat (map (msb_bits 8) bs)"

definition remaining :: "BitReader \<Rightarrow> bool list" where
  "remaining r = drop (br_position r) (bits_of (br_bytes r))"

definition advance :: "BitReader \<Rightarrow> nat \<Rightarrow> BitReader" where
  "advance r n = r\<lparr>br_position := br_position r + n\<rparr>"

definition msb_value :: "bool list \<Rightarrow> u32" where
  "msb_value bs = foldl (\<lambda>v b. push_bit 1 v OR of_bool b) 0 bs"

lemma length_msb_bits [simp]: "length (msb_bits k w) = k"
  by (simp add: msb_bits_def)

lemma nth_msb_bits: "i < k \<Longrightarrow> msb_bits k w ! i = bit w (k - Suc i)"
  by (simp add: msb_bits_def rev_nth)

lemma length_bits_of: "length (bits_of bs) = 8 * length bs"
  by (induction bs) (simp_all add: bits_of_def)

lemma nth_bits_of: "n < 8 * length bs \<Longrightarrow> bits_of bs ! n = bit (bs ! (n div 8)) (7 - n mod 8)"
proof (induction bs arbitrary: n)
  case (Cons b bs)
  show ?case
  proof (cases "n < 8")
    case True
    then show ?thesis by (simp add: bits_of_def nth_append nth_msb_bits)
  next
    case False
    then have "n = 8 + (n - 8)" by simp
    then obtain m where n: "n = 8 + m" by blast
    with Cons.prems have "m < 8 * length bs" by simp
    from Cons.IH [OF this] show ?thesis by (simp add: n bits_of_def nth_append)
  qed
qed simp

lemma remaining_new [simp]: "remaining (bit_reader_new bs) = bits_of bs"
  by (simp add: remaining_def bit_reader_new_def)

lemma remaining_advance [simp]: "remaining (advance r n) = drop n (remaining r)"
  by (simp add: remaining_def advance_def add.commute)

lemma advance_advance [simp]: "advance (advance r m) n = advance r (m + n)"
  by (simp add: advance_def add.assoc)

lemma advance_0 [simp]: "advance r 0 = r"
  by (simp add: advance_def)

lemma low_bit_test: "(w AND 1 = 1) = bit w 0" for w :: u8
  by (simp add: and_one_eq odd_iff_mod_2_eq_one bit_0 flip: odd_iff_mod_2_eq_one)

lemma read_bit_remaining:
  "read_bit r = (case remaining r of [] \<Rightarrow> None | b # _ \<Rightarrow> Some (b, advance r 1))"
proof (cases "br_position r < length (bits_of (br_bytes r))")
  case True
  then have "remaining r = bits_of (br_bytes r) ! br_position r # drop (Suc (br_position r)) (bits_of (br_bytes r))"
    by (simp add: remaining_def Cons_nth_drop_Suc)
  with True show ?thesis
    by (simp add: read_bit_def length_bits_of nth_bits_of low_bit_test bit_drop_bit_eq advance_def Let_def
        less_mult_imp_div_less mult.commute)
next
  case False
  then have "\<not> br_position r div 8 < length (br_bytes r)" by (simp add: length_bits_of)
  with False show ?thesis by (simp add: read_bit_def remaining_def length_bits_of)
qed

lemma read_bits_loop_remaining:
  "read_bits_loop n v r =
     (if n \<le> length (remaining r)
      then Some (foldl (\<lambda>v b. push_bit 1 v OR of_bool b) v (take n (remaining r)), advance r n) else None)"
proof (induction n arbitrary: v r)
  case (Suc n)
  then show ?case by (cases "remaining r") (simp_all add: read_bit_remaining)
qed simp

lemma read_bits_remaining:
  "read_bits n r = (if n \<le> length (remaining r) then Some (msb_value (take n (remaining r)), advance r n) else None)"
  by (simp add: read_bits_def read_bits_loop_remaining msb_value_def)

lemmas reader_steps = read_bit_remaining read_bits_remaining

lemma bit_msb_value: "length bs \<le> 32 \<Longrightarrow> bit (msb_value bs) n \<longleftrightarrow> n < length bs \<and> rev bs ! n"
proof (induction bs arbitrary: n rule: rev_induct)
  case (snoc b bs)
  have "msb_value (bs @ [b]) = push_bit 1 (msb_value bs) OR of_bool b" by (simp only: msb_value_def foldl_append foldl.simps)
  then have "bit (msb_value (bs @ [b])) n \<longleftrightarrow> (1 \<le> n \<and> n < 32 \<and> bit (msb_value bs) (n - 1)) \<or> (n = 0 \<and> b)"
    by (simp only: bit_or_iff bit_push_bit_iff bit_of_bool_iff possible_bit_word) simp
  also have "bit (msb_value bs) (n - 1) \<longleftrightarrow> n - 1 < length bs \<and> rev bs ! (n - 1)" using snoc by simp
  finally show ?case using snoc.prems by (cases n) auto
qed (simp add: msb_value_def)

lemma msb_value_bits: "(ucast (msb_value (msb_bits 8 w)) :: u8) = w"
  by (rule bit_word_eqI) (simp add: bit_ucast_iff bit_msb_value msb_bits_def rev_map)

section \<open>The encoding of a message\<close>

text \<open>A message by its fields, and the bits the standard gives it up to its body: a presence bit for each
  optional field, then the fields in order. An extensible type starts with its extension bit.\<close>

record lpp_message =
  lm_transaction :: "transaction option"
  lm_end :: bool
  lm_sequence :: "u8 option"
  lm_ack :: "(bool \<times> u8 option) option"
  lm_body :: LppBody

fun transaction_bits :: "transaction option \<Rightarrow> bool list" where
  "transaction_bits None = []"
| "transaction_bits (Some (i, n)) = [False, False, i = TargetDevice] @ msb_bits 8 n"

definition sequence_bits :: "u8 option \<Rightarrow> bool list" where
  "sequence_bits s = (case s of None \<Rightarrow> [] | Some n \<Rightarrow> msb_bits 8 n)"

fun ack_bits :: "(bool \<times> u8 option) option \<Rightarrow> bool list" where
  "ack_bits None = []"
| "ack_bits (Some (requested, None)) = [False, requested]"
| "ack_bits (Some (requested, Some n)) = [True, requested] @ msb_bits 8 n"

fun body_bits :: "LppBody \<Rightarrow> bool list" where
  "body_bits RequestCapabilities = [False, False, False, False, False]"
| "body_bits ProvideCapabilities = [False, False, False, False, True]"
| "body_bits RequestAssistanceData = [False, False, False, True, False]"
| "body_bits ProvideAssistanceData = [False, False, False, True, True]"
| "body_bits RequestLocationInformation = [False, False, True, False, False]"
| "body_bits ProvideLocationInformation = [False, False, True, False, True]"
| "body_bits LppAbort = [False, False, True, True, False]"
| "body_bits LppError = [False, False, True, True, True]"
| "body_bits Reserved = [True]"
| "body_bits Absent = []"

definition prefix_bits :: "lpp_message \<Rightarrow> bool list" where
  "prefix_bits m =
     [lm_transaction m \<noteq> None, lm_sequence m \<noteq> None, lm_ack m \<noteq> None, lm_body m \<noteq> Absent]
     @ transaction_bits (lm_transaction m) @ [lm_end m] @ sequence_bits (lm_sequence m)
     @ ack_bits (lm_ack m) @ body_bits (lm_body m)"

definition summary_of :: "lpp_message \<Rightarrow> LppSummary" where
  "summary_of m = \<lparr>ls_transaction = lm_transaction m, ls_end_transaction = lm_end m, ls_body = lm_body m\<rparr>"

lemma read_transaction_encoded:
  "remaining r = transaction_bits t @ rest \<Longrightarrow>
     read_transaction (t \<noteq> None) r = Some (t, advance r (length (transaction_bits t)))"
proof (cases t)
  case (Some p)
  moreover assume "remaining r = transaction_bits t @ rest"
  ultimately show ?thesis
    by (cases p; cases "fst p") (simp_all add: read_transaction_def reader_steps msb_value_bits)
qed (simp add: read_transaction_def)

lemma skip_sequence_encoded:
  "remaining r = sequence_bits s @ rest \<Longrightarrow>
     skip_sequence_number (s \<noteq> None) r = Some (advance r (length (sequence_bits s)))"
  by (cases s) (simp_all add: skip_sequence_number_def sequence_bits_def reader_steps)

lemma skip_ack_encoded:
  "remaining r = ack_bits a @ rest \<Longrightarrow> skip_acknowledgement (a \<noteq> None) r = Some (advance r (length (ack_bits a)))"
  by (cases a rule: ack_bits.cases) (simp_all add: skip_acknowledgement_def reader_steps)

lemma read_body_encoded:
  "remaining r = body_bits b @ rest \<Longrightarrow> read_body (b \<noteq> Absent) r = Some (b, advance r (length (body_bits b)))"
  by (cases b; simp add: read_body_def reader_steps msb_value_def body_of_index_def; (simp add: eval_nat_numeral)?)

lemma read_prefix_encoded:
  assumes "remaining r = prefix_bits m @ rest"
  shows "read_lpp_prefix r = Some (summary_of m, advance r (length (prefix_bits m)))"
proof -
  let ?t = "transaction_bits (lm_transaction m)" and ?s = "sequence_bits (lm_sequence m)" and ?a = "ack_bits (lm_ack m)"
  let ?b = "body_bits (lm_body m)"
  have "remaining r = [lm_transaction m \<noteq> None, lm_sequence m \<noteq> None, lm_ack m \<noteq> None, lm_body m \<noteq> Absent]
      @ ?t @ lm_end m # ?s @ ?a @ ?b @ rest"
    using assms by (simp add: prefix_bits_def)
  then show ?thesis
    by (simp add: read_lpp_prefix_def read_bit_remaining
        read_transaction_encoded [where t = "lm_transaction m" and rest = "lm_end m # ?s @ ?a @ ?b @ rest"]
        skip_sequence_encoded [where s = "lm_sequence m" and rest = "?a @ ?b @ rest"]
        skip_ack_encoded [where a = "lm_ack m" and rest = "?b @ rest"]
        read_body_encoded [where b = "lm_body m" and rest = rest]
        summary_of_def prefix_bits_def add.assoc del: not_None_eq)
qed

text \<open>The kind of a positioning message is read off correctly. Whatever optional fields a message
  carries before its body (transaction, sequence number, acknowledgement with or without an indicator) and
  whatever bits follow, decoding its encoding gives its transaction, its end mark and its kind.\<close>

theorem lpp_prefix_round_trip:
  assumes "bits_of bs = prefix_bits m @ rest"
  shows "decode_lpp_prefix bs = Some (summary_of m)"
  using read_prefix_encoded [of "bit_reader_new bs" m rest] assms by (simp add: decode_lpp_prefix_def)

text \<open>The test vector with every optional field: transaction 42 of the network, sequence number and
  acknowledgement, a location request.\<close>

theorem lpp_prefix_round_trip_witness:
  "decode_lpp_prefix [0xf0, 0x54, 0xc8, 0xc2, 0x48, 0x00]
    = Some \<lparr>ls_transaction = Some (LocationServer, 42), ls_end_transaction = False, ls_body = RequestLocationInformation\<rparr>"
proof -
  have "bits_of [0xf0, 0x54, 0xc8, 0xc2, 0x48, 0x00]
      = prefix_bits \<lparr>lm_transaction = Some (LocationServer, 42), lm_end = False, lm_sequence = Some 0xc8,
          lm_ack = Some (True, Some 9), lm_body = RequestLocationInformation\<rparr> @ replicate 9 False"
    by (simp add: bits_of_def prefix_bits_def sequence_bits_def msb_bits_def upt_rec numeral_eq_Suc)
  from lpp_prefix_round_trip [OF this] show ?thesis by (simp add: summary_of_def)
qed

text \<open>A location request past its prefix: the choice of the release 9 form, an extension bit, the five
  presence bits, and in the common fields the presence bit of periodic reporting and the answer wanted.\<close>

record location_request =
  lr_ext :: bool
  lr_methods :: Methods
  lr_common :: "(bool list \<times> bool \<times> bool list \<times> LocInfoType) option"

definition methods_bits :: "Methods \<Rightarrow> bool list" where
  "methods_bits m = [m_gnss m, m_otdoa m, m_ecid m, m_epdu m]"

fun info_bits :: "LocInfoType \<Rightarrow> bool list" where
  "info_bits EstimateRequired = [False, False, False]"
| "info_bits MeasurementsRequired = [False, False, True]"
| "info_bits EstimatePreferred = [False, True, False]"
| "info_bits MeasurementsPreferred = [False, True, True]"
| "info_bits UnknownInfo = [True, False, False]"

definition request_bits :: "location_request \<Rightarrow> bool list" where
  "request_bits q =
     [False, False, False, lr_ext q, lr_common q \<noteq> None] @ methods_bits (lr_methods q)
     @ (case lr_common q of None \<Rightarrow> [] | Some (before, periodic, after, info) \<Rightarrow>
          before @ [periodic] @ after @ info_bits info)"

definition requested_detail :: "location_request \<Rightarrow> LppDetailKind" where
  "requested_detail q =
     (case lr_common q of
        None \<Rightarrow> LppRequest (lr_methods q) False UnknownInfo
      | Some (_, periodic, _, info) \<Rightarrow> LppRequest (lr_methods q) periodic info)"

lemma read_methods_encoded:
  "remaining r = methods_bits m @ rest \<Longrightarrow> read_methods r = Some (m, advance r 4)"
  by (cases m) (simp add: read_methods_def methods_bits_def reader_steps eval_nat_numeral)

lemma length_2_5:
  assumes "length before = 2" and "length after = 5"
  obtains a b c d e f g where "before = [a, b]" and "after = [c, d, e, f, g]"
  using assms by (auto simp: numeral_eq_Suc length_Suc_conv)

lemma read_common_encoded:
  assumes "remaining r = before @ [periodic] @ after @ info_bits info @ rest" "length before = 2" "length after = 5"
  shows "\<exists>r'. read_request_common r = Some ((periodic, info), r')"
proof -
  obtain a b c d e f g where "before = [a, b]" "after = [c, d, e, f, g]"
    using length_2_5 assms(2,3) by blast
  with assms(1) show ?thesis
    by (cases info; simp add: read_request_common_def reader_steps msb_value_def info_type_of_def)
qed

lemma read_request_encoded:
  assumes "remaining r = request_bits q @ rest"
    and "\<forall>before periodic after info. lr_common q = Some (before, periodic, after, info) \<longrightarrow>
      length before = 2 \<and> length after = 5"
  shows "read_request_detail r = Some (requested_detail q)"
proof (cases "lr_common q")
  case None
  with assms(1) show ?thesis
    by (simp add: read_request_detail_def enter_r9_def reader_steps msb_value_def request_bits_def requested_detail_def
        read_methods_encoded [where m = "lr_methods q" and rest = rest])
next
  case (Some c)
  then obtain before periodic after info where c: "lr_common q = Some (before, periodic, after, info)" by (cases c) auto
  let ?common = "before @ [periodic] @ after @ info_bits info @ rest"
  have len: "length before = 2" "length after = 5" using assms(2) c by simp_all
  have r: "remaining r = [False, False, False, lr_ext q, True] @ methods_bits (lr_methods q) @ ?common"
    using assms(1) c by (simp add: request_bits_def)
  have "remaining (advance r 9) = ?common" using r by (simp add: methods_bits_def)
  from read_common_encoded [OF this len] obtain r' where
    "read_request_common (advance r 9) = Some ((periodic, info), r')" by blast
  with r show ?thesis
    by (simp add: read_request_detail_def enter_r9_def reader_steps msb_value_def requested_detail_def c
        read_methods_encoded [where m = "lr_methods q" and rest = ?common])
qed

text \<open>C18: What a location request asks for is read off correctly: for every encoding of a request, the
  decoder gives the positioning methods it names, whether it asks for periodic reports, and which answer it
  wants, so continuous tracking is neither missed nor invented.\<close>

theorem lpp_request_round_trip:
  assumes "bits_of bs = prefix_bits m @ request_bits q @ rest" and "lm_body m = RequestLocationInformation"
    and "\<forall>before periodic after info. lr_common q = Some (before, periodic, after, info) \<longrightarrow>
      length before = 2 \<and> length after = 5"
  shows "decode_lpp_detail bs = Some \<lparr>ld_summary = summary_of m, ld_kind = requested_detail q\<rparr>"
proof -
  let ?r = "advance (bit_reader_new bs) (length (prefix_bits m))"
  have "read_lpp_prefix (bit_reader_new bs) = Some (summary_of m, ?r)"
    using assms(1) by (intro read_prefix_encoded) simp
  moreover have "read_request_detail ?r = Some (requested_detail q)"
    by (rule read_request_encoded [OF _ assms(3), where rest = rest]) (simp add: assms(1))
  ultimately show ?thesis using assms(2) by (simp add: decode_lpp_detail_def summary_of_def)
qed

text \<open>The test vector of a periodic request.\<close>

theorem lpp_request_round_trip_witness:
  "\<exists>s m. decode_lpp_detail [0x90, 0x0a, 0x20, 0x40, 0x80, 0x18]
    = Some \<lparr>ld_summary = s, ld_kind = LppRequest m True EstimateRequired\<rparr>"
proof -
  define q where "q = \<lparr>lr_ext = False, lr_methods = \<lparr>m_gnss = False, m_otdoa = False, m_ecid = False, m_epdu = False\<rparr>,
    lr_common = Some ([False, False], True, replicate 5 False, EstimateRequired)\<rparr>"
  have "bits_of [0x90, 0x0a, 0x20, 0x40, 0x80, 0x18]
      = prefix_bits \<lparr>lm_transaction = Some (LocationServer, 5), lm_end = False, lm_sequence = None,
          lm_ack = None, lm_body = RequestLocationInformation\<rparr>
        @ request_bits q @ [False, False, True, True, False, False, False]"
    by (simp add: q_def bits_of_def prefix_bits_def request_bits_def methods_bits_def sequence_bits_def msb_bits_def
        upt_rec numeral_eq_Suc)
  from lpp_request_round_trip [OF this] show ?thesis by (simp add: requested_detail_def q_def)
qed

section \<open>One warning per transaction\<close>

text \<open>Both detectors keep the transactions that warned. The contract: a step remembers what it moves and
  forgets what it ends. Then a transaction is remembered exactly while something has moved on it since it
  last ended.\<close>

definition active :: "('m \<Rightarrow> 't \<Rightarrow> bool) \<Rightarrow> ('m \<Rightarrow> 't \<Rightarrow> bool) \<Rightarrow> 't \<Rightarrow> 'm list \<Rightarrow> bool" where
  "active moves ends t hs \<longleftrightarrow> list_ex (\<lambda>m. moves m t) (takeWhile (\<lambda>m. \<not> ends m t) (rev hs))"

lemma active_Nil [simp]: "\<not> active moves ends t []"
  by (simp add: active_def)

lemma active_snoc [simp]: "active moves ends t (hs @ [m]) \<longleftrightarrow> \<not> ends m t \<and> (moves m t \<or> active moves ends t hs)"
  by (simp add: active_def)

locale transaction_log =
  fixes moves :: "'m \<Rightarrow> 't \<Rightarrow> bool"
    and ends :: "'m \<Rightarrow> 't \<Rightarrow> bool"
    and step :: "'m \<Rightarrow> 't set \<Rightarrow> 't set"
  assumes step_mem: "t \<in> step m w \<longleftrightarrow> (t \<in> w \<or> moves m t) \<and> \<not> ends m t"
begin

lemma remembered_iff_active: "t \<in> fold step hs {} \<longleftrightarrow> active moves ends t hs"
  by (induction hs rule: rev_induct) (auto simp: step_mem)

end

definition finishes :: "LppSummary \<Rightarrow> bool" where
  "finishes s \<longleftrightarrow> ls_end_transaction s \<or> ls_body s = LppAbort"

lemma forget_finished_mem: "t \<in> forget_finished s w \<longleftrightarrow> t \<in> w \<and> \<not> (ls_transaction s = Some t \<and> finishes s)"
  by (auto simp: forget_finished_def finishes_def split: option.splits)

lemma escalating_event_sel:
  "event_type (fst (escalating_event w t sev a b)) = (if \<exists>x \<in> w. t = Some x then Informational else sev)"
  "x \<in> snd (escalating_event w t sev a b) \<longleftrightarrow> x \<in> w \<or> t = Some x"
  by (auto simp: escalating_event_def split: option.splits)

text \<open>What the first detector hears in an element; the messages that move a location on a transaction, and
  those that end it.\<close>

definition lpp_heard :: "InformationElement \<Rightarrow> (LppSummary \<times> Direction) option" where
  "lpp_heard ie =
     (case lpp_container ie of
        None \<Rightarrow> None | Some (buf, d) \<Rightarrow> map_option (\<lambda>s. (s, d)) (decode_lpp_prefix buf))"

definition moves_location :: "InformationElement \<Rightarrow> transaction \<Rightarrow> bool" where
  "moves_location ie t \<longleftrightarrow>
     (case lpp_heard ie of
        None \<Rightarrow> False
      | Some (s, d) \<Rightarrow> ls_transaction s = Some t
          \<and> (ls_body s, d) \<in> {(RequestLocationInformation, Downlink), (ProvideLocationInformation, Uplink)})"

definition ends_transaction :: "InformationElement \<Rightarrow> transaction \<Rightarrow> bool" where
  "ends_transaction ie t \<longleftrightarrow>
     (case lpp_heard ie of None \<Rightarrow> False | Some (s, _) \<Rightarrow> ls_transaction s = Some t \<and> finishes s)"

definition request_step :: "InformationElement \<Rightarrow> warned \<Rightarrow> warned" where
  "request_step ie w = snd (lpp_request_analyze w ie)"

lemma lpp_request_heard:
  "lpp_heard ie = Some (s, d) \<Longrightarrow> lpp_request_analyze w ie = map_prod Some id (request_event_for w s d)"
  by (auto simp: lpp_request_analyze_def lpp_heard_def split: option.splits prod.splits)

lemma lpp_request_unheard: "lpp_heard ie = None \<Longrightarrow> snd (lpp_request_analyze w ie) = w"
  by (auto simp: lpp_request_analyze_def lpp_heard_def split: option.splits prod.splits)

lemma request_event_mem:
  "t \<in> snd (request_event w s d) \<longleftrightarrow> t \<in> w \<or> (ls_transaction s = Some t
     \<and> (ls_body s, d) \<in> {(RequestLocationInformation, Downlink), (ProvideLocationInformation, Uplink)})"
  by (cases "ls_body s"; cases d) (auto simp: request_event_def location_event_def escalating_event_sel Let_def)

lemma request_step_mem:
  "t \<in> request_step ie w \<longleftrightarrow> (t \<in> w \<or> moves_location ie t) \<and> \<not> ends_transaction ie t"
proof (cases "lpp_heard ie")
  case (Some p)
  then obtain s d where p: "lpp_heard ie = Some (s, d)" by (cases p) auto
  have "snd (request_event_for w s d) = forget_finished s (snd (request_event w s d))"
    by (simp add: request_event_for_def case_prod_beta)
  then show ?thesis
    by (auto simp: request_step_def lpp_request_heard [OF p] moves_location_def ends_transaction_def p
        forget_finished_mem request_event_mem)
qed (simp add: request_step_def lpp_request_unheard moves_location_def ends_transaction_def)

interpretation requests: transaction_log moves_location ends_transaction request_step
  by unfold_locales (rule request_step_mem)

text \<open>A location transaction warns once. Whatever was heard before, a message that asks for or reports
  a location on a transaction is a low warning if nothing has moved on that transaction since it last
  ended or was aborted, and informational otherwise: repeats stay quiet, a reused number warns again.\<close>

theorem location_warns_once:
  assumes "moves_location ie t"
  shows "map_option event_type (fst (lpp_request_analyze (fold request_step hs {}) ie))
    = Some (if active moves_location ends_transaction t hs then Informational else LowSeverity)"
proof -
  obtain s d where h: "lpp_heard ie = Some (s, d)" "ls_transaction s = Some t"
    "(ls_body s, d) \<in> {(RequestLocationInformation, Downlink), (ProvideLocationInformation, Uplink)}"
    using assms by (auto simp: moves_location_def split: option.splits)
  then have "event_type (fst (request_event w s d)) = (if t \<in> w then Informational else LowSeverity)" for w
    by (auto simp: request_event_def location_event_def escalating_event_sel Let_def)
  then show ?thesis
    by (simp add: lpp_request_heard [OF h(1)] request_event_for_def case_prod_beta requests.remembered_iff_active)
qed

definition sample_request :: "bytes \<Rightarrow> InformationElement" where
  "sample_request bs = LTE (NAS (NasEMM (EMMDLGenericNASTransport LPPMessageContainer bs)))"

definition periodic_request :: bytes where
  "periodic_request = [0x90, 0x0a, 0x20, 0x40, 0x80, 0x18]"

definition abort_message :: bytes where
  "abort_message = [0x90, 0x0b, 0x30, 0x00]"

lemma sample_prefix:
  "decode_lpp_prefix periodic_request
     = Some \<lparr>ls_transaction = Some (LocationServer, 5), ls_end_transaction = False, ls_body = RequestLocationInformation\<rparr>"
  "decode_lpp_prefix abort_message
     = Some \<lparr>ls_transaction = Some (LocationServer, 5), ls_end_transaction = True, ls_body = LppAbort\<rparr>"
  by code_simp+

lemma sample_detail:
  "decode_lpp_detail periodic_request = Some \<lparr>ld_summary =
     \<lparr>ls_transaction = Some (LocationServer, 5), ls_end_transaction = False, ls_body = RequestLocationInformation\<rparr>,
     ld_kind = LppRequest \<lparr>m_gnss = False, m_otdoa = False, m_ecid = False, m_epdu = False\<rparr> True EstimateRequired\<rparr>"
  "decode_lpp_detail abort_message = Some \<lparr>ld_summary =
     \<lparr>ls_transaction = Some (LocationServer, 5), ls_end_transaction = True, ls_body = LppAbort\<rparr>,
     ld_kind = LppOtherKind\<rparr>"
  by code_simp+

lemma sample_container [simp]: "lpp_container (sample_request bs) = Some (bs, Downlink)"
  by (simp add: sample_request_def lpp_container_def)

lemma sample_heard:
  "moves_location (sample_request periodic_request) (LocationServer, 5)"
  "\<not> ends_transaction (sample_request periodic_request) (LocationServer, 5)"
  "ends_transaction (sample_request abort_message) (LocationServer, 5)"
  by (simp_all add: moves_location_def ends_transaction_def lpp_heard_def sample_prefix finishes_def)

theorem location_warns_once_witness:
  "map_option event_type (fst (lpp_request_analyze
     (fold request_step [sample_request periodic_request, sample_request abort_message] {}) (sample_request periodic_request)))
    = Some LowSeverity"
proof -
  have "\<not> active moves_location ends_transaction (LocationServer, 5)
      ([sample_request periodic_request] @ [sample_request abort_message])"
    by (simp only: active_snoc sample_heard) simp
  with location_warns_once [OF sample_heard(1), of "[sample_request periodic_request, sample_request abort_message]"]
  show ?thesis by simp
qed

section \<open>The tracking detector\<close>

definition lpp_tracked :: "InformationElement \<Rightarrow> (LppDetail \<times> Direction) option" where
  "lpp_tracked ie =
     (case lpp_container ie of
        None \<Rightarrow> None | Some (buf, dir) \<Rightarrow> map_option (\<lambda>d. (d, dir)) (decode_lpp_detail buf))"

text \<open>How serious a message is the first time: continuous tracking is medium, a single fix or a report is
  low, a refusal and a message in the wrong direction do not count as moving a location.\<close>

definition severity_of :: "LppDetailKind \<Rightarrow> Direction \<Rightarrow> EventType option" where
  "severity_of kind dir =
     (case (kind, dir) of
        (LppRequest _ periodic _, Downlink) \<Rightarrow> Some (if periodic then MediumSeverity else LowSeverity)
      | (LppResponse methods estimate declined, Uplink) \<Rightarrow>
          if declined \<and> \<not> estimate \<and> \<not> methods_any methods then None else Some LowSeverity
      | _ \<Rightarrow> None)"

definition tracking_moves :: "InformationElement \<Rightarrow> transaction \<Rightarrow> bool" where
  "tracking_moves ie t \<longleftrightarrow>
     (case lpp_tracked ie of
        None \<Rightarrow> False
      | Some (d, dir) \<Rightarrow> ls_transaction (ld_summary d) = Some t \<and> severity_of (ld_kind d) dir \<noteq> None)"

definition tracking_ends :: "InformationElement \<Rightarrow> transaction \<Rightarrow> bool" where
  "tracking_ends ie t \<longleftrightarrow>
     (case lpp_tracked ie of
        None \<Rightarrow> False
      | Some (d, _) \<Rightarrow> ld_kind d \<noteq> LppOtherKind \<and> ls_transaction (ld_summary d) = Some t \<and> finishes (ld_summary d))"

definition tracking_step :: "InformationElement \<Rightarrow> warned \<Rightarrow> warned" where
  "tracking_step ie w = snd (lpp_tracking_analyze w ie)"

lemma lpp_tracking_heard:
  "lpp_tracking_analyze w ie =
     (case lpp_tracked ie of None \<Rightarrow> (None, w) | Some (d, dir) \<Rightarrow> tracking_event_for w d dir)"
  by (auto simp: lpp_tracking_analyze_def lpp_tracked_def split: option.splits prod.splits)

lemma tracking_event_moves:
  "tracking_event w d dir = None \<longleftrightarrow> ld_kind d = LppOtherKind"
  "tracking_event w d dir = Some (ev, w') \<Longrightarrow>
     t \<in> w' \<longleftrightarrow> t \<in> w \<or> (ls_transaction (ld_summary d) = Some t \<and> severity_of (ld_kind d) dir \<noteq> None)"
  by (cases "ld_kind d"; cases dir;
      auto simp: tracking_event_def severity_of_def Let_def escalating_event_def split: if_splits option.splits)+

lemma tracking_event_severity:
  "ls_transaction (ld_summary d) = Some t \<Longrightarrow> severity_of (ld_kind d) dir = Some sev \<Longrightarrow>
     map_option (event_type \<circ> fst) (tracking_event w d dir) = Some (if t \<in> w then Informational else sev)"
  by (cases "ld_kind d"; cases dir)
    (auto simp: tracking_event_def severity_of_def Let_def escalating_event_sel lit_def
      simp del: map_option_eq_Some lit_simps split: if_splits)

lemma tracking_step_mem:
  "t \<in> tracking_step ie w \<longleftrightarrow> (t \<in> w \<or> tracking_moves ie t) \<and> \<not> tracking_ends ie t"
proof (cases "lpp_tracked ie")
  case (Some p)
  then obtain d dir where p: "lpp_tracked ie = Some (d, dir)" by (cases p) auto
  show ?thesis
  proof (cases "tracking_event w d dir")
    case None
    then have "ld_kind d = LppOtherKind" by (simp add: tracking_event_moves(1))
    with None show ?thesis
      by (simp add: tracking_step_def lpp_tracking_heard p tracking_event_for_def tracking_moves_def tracking_ends_def
          severity_of_def)
  next
    case (Some q)
    obtain ev w' where q: "q = (ev, w')" by (cases q)
    from Some have "ld_kind d \<noteq> LppOtherKind" using tracking_event_moves(1) [of w d dir] by simp
    with tracking_event_moves(2) [OF Some [unfolded q]] Some q show ?thesis
      by (auto simp: tracking_step_def lpp_tracking_heard p tracking_event_for_def tracking_moves_def tracking_ends_def
          forget_finished_mem)
  qed
qed (simp add: tracking_step_def lpp_tracking_heard tracking_moves_def tracking_ends_def)

interpretation tracking: transaction_log tracking_moves tracking_ends tracking_step
  by unfold_locales (rule tracking_step_mem)



text \<open>The difference between the two detectors: an abort frees its transaction in the first, but in the
  second it returns before the transaction is forgotten. A new continuous request on the number of an
  aborted transaction is only informational.\<close>

lemma aborted_transaction_stays_warned:
  "let hs = [sample_request periodic_request, sample_request abort_message] in
   map_option event_type (fst (lpp_request_analyze (fold request_step hs {}) (sample_request periodic_request))) = Some LowSeverity
   \<and> map_option event_type (fst (lpp_tracking_analyze (fold tracking_step hs {}) (sample_request periodic_request)))
     = Some Informational"
proof -
  have "fold request_step [sample_request periodic_request, sample_request abort_message] {} = {}"
    by (simp add: request_step_def lpp_request_analyze_def sample_prefix request_event_for_def request_event_def
        location_event_def escalating_event_def forget_finished_def Let_def)
  moreover have "fold tracking_step [sample_request periodic_request, sample_request abort_message] {} = {(LocationServer, 5)}"
    by (simp add: tracking_step_def lpp_tracking_analyze_def sample_detail tracking_event_for_def tracking_event_def
        escalating_event_def forget_finished_def Let_def)
  ultimately show ?thesis
    by (simp add: lpp_request_analyze_def lpp_tracking_analyze_def sample_prefix sample_detail tracking_event_for_def
        tracking_event_def request_event_for_def request_event_def location_event_def escalating_event_def Let_def)
qed

end
