(* ===== verification/Rrlp.thy ===== *)
theory Rrlp
  imports Events
begin

unbundle bit_operations_syntax

text \<open>
  2G location requests, \<open>lib/src/analysis/rrlp.rs\<close>: finding the positioning message inside the GSM transport
  message, reading its front, and the detector. Building such a message and reading it back gives the
  message, and nothing else is taken for one.
\<close>

section \<open>The decoder\<close>

definition PD_RR :: u8 where "PD_RR = 0x06"
definition MT_APPLICATION_INFORMATION :: u8 where "MT_APPLICATION_INFORMATION = 0x38"
definition APDU_ID_RRLP :: u8 where "APDU_ID_RRLP = 0x00"

datatype RrlpComponent =
    MeasurePositionRequest | MeasurePositionResponse | AssistanceData | AssistanceDataAck | RrlpProtocolError | RrlpOther

record RrlpApdu =
  ra_reference_number :: u8
  ra_component :: RrlpComponent

definition component_of :: "u8 \<Rightarrow> RrlpComponent" where
  "component_of index =
     (if index = 0 then MeasurePositionRequest else if index = 1 then MeasurePositionResponse
      else if index = 2 then AssistanceData else if index = 3 then AssistanceDataAck
      else if index = 4 then RrlpProtocolError else RrlpOther)"

definition decode_rrlp_apdu :: "bytes \<Rightarrow> RrlpApdu option" where
  "decode_rrlp_apdu bs =
     (case bs of
        [] \<Rightarrow> None
      | b # _ \<Rightarrow>
          (let is_extension = drop_bit 4 b AND 1 = 1; index = drop_bit 1 b AND 0x07 in
           Some \<lparr>ra_reference_number = drop_bit 5 b,
             ra_component = (if is_extension then RrlpOther else component_of index)\<rparr>))"

definition rrlp_apdu_from_application_information :: "bytes \<Rightarrow> bytes option" where
  "rrlp_apdu_from_application_information l3 =
     (case l3 of
        b0 # b1 # b2 # b3 # rest \<Rightarrow>
          if b0 AND 0x0F \<noteq> PD_RR then None
          else if b1 \<noteq> MT_APPLICATION_INFORMATION then None
          else if b2 AND 0x0F \<noteq> APDU_ID_RRLP then None
          else if unat b3 \<le> length rest then Some (take (unat b3) rest) else None
      | _ \<Rightarrow> None)"

section \<open>The detector\<close>

definition rrlp_event :: "RrlpComponent \<Rightarrow> Event" where
  "rrlp_event c =
     (case c of
        MeasurePositionRequest \<Rightarrow>
          event LowSeverity (lit ''Network requested this device's location over RRLP (2G positioning)'')
      | MeasurePositionResponse \<Rightarrow>
          event LowSeverity (lit ''This device reported its position to the network over RRLP (2G)'')
      | AssistanceData \<Rightarrow> event Informational (lit ''RRLP assistance data (2G positioning help)'')
      | AssistanceDataAck \<Rightarrow> event Informational (lit ''RRLP assistance data acknowledged (2G)'')
      | RrlpProtocolError \<Rightarrow> event Informational (lit ''RRLP protocol error (2G positioning)'')
      | RrlpOther \<Rightarrow> event Informational (lit ''RRLP positioning message (2G)''))"

definition rrlp_analyze :: "InformationElement \<Rightarrow> Event option" where
  "rrlp_analyze ie =
     (case ie of
        GSM gsm \<Rightarrow>
          (case rrlp_apdu_from_application_information (gie_bytes gsm) of
             None \<Rightarrow> None
           | Some apdu_bytes \<Rightarrow> map_option (\<lambda>apdu. rrlp_event (ra_component apdu)) (decode_rrlp_apdu apdu_bytes))
      | _ \<Rightarrow> None)"

section \<open>What counts as a 2G location message\<close>

lemma rrlp_frame_short:
  "length l3 < 4 \<Longrightarrow> rrlp_apdu_from_application_information l3 = None"
  by (auto simp: rrlp_apdu_from_application_information_def split: list.splits)

lemma rrlp_frame_long:
  "rrlp_apdu_from_application_information (b0 # b1 # b2 # b3 # rest) =
     (if lo_nibble b0 = PD_RR \<and> b1 = MT_APPLICATION_INFORMATION \<and> lo_nibble b2 = APDU_ID_RRLP
         \<and> unat b3 \<le> length rest then Some (take (unat b3) rest) else None)"
  by (simp add: rrlp_apdu_from_application_information_def low_nibble_mask)

lemma rrlp_frame_iff:
  "rrlp_apdu_from_application_information l3 = Some apdu \<longleftrightarrow>
     (\<exists>b0 b2 rest. l3 = b0 # MT_APPLICATION_INFORMATION # b2 # of_nat (length apdu) # apdu @ rest
        \<and> lo_nibble b0 = PD_RR \<and> lo_nibble b2 = APDU_ID_RRLP \<and> length apdu < 256)"
    (is "_ \<longleftrightarrow> ?frame")
proof
  assume some: "rrlp_apdu_from_application_information l3 = Some apdu"
  then have "4 \<le> length l3" using rrlp_frame_short [of l3] by (cases "length l3 < 4") auto
  then obtain b0 b1 b2 b3 rest where l3: "l3 = b0 # b1 # b2 # b3 # rest"
    by (auto simp: numeral_eq_Suc Suc_le_length_iff)
  with some have heads: "lo_nibble b0 = PD_RR" "b1 = MT_APPLICATION_INFORMATION" "lo_nibble b2 = APDU_ID_RRLP"
    and apdu: "unat b3 \<le> length rest" "apdu = take (unat b3) rest"
    by (simp_all add: rrlp_frame_long split: if_splits)
  then have len: "length apdu = unat b3" by simp
  then have "b3 = of_nat (length apdu)" and "rest = apdu @ drop (unat b3) rest" using apdu by simp_all
  with l3 heads len unat_byte_bound [of b3] show ?frame by metis
next
  assume ?frame
  then show "rrlp_apdu_from_application_information l3 = Some apdu"
    by (auto simp: rrlp_frame_long unat_of_nat take_bit_eq_mod)
qed

lemma low_component_iff: "event_type (rrlp_event (component_of i)) = LowSeverity \<longleftrightarrow> i \<in> {0, 1}"
  by (simp add: component_of_def rrlp_event_def)

lemma low_unextended_iff:
  "event_type (rrlp_event (if x then RrlpOther else component_of i)) = LowSeverity \<longleftrightarrow> \<not> x \<and> i \<in> {0, 1}"
proof (cases x)
  case False
  then show ?thesis by (simp only: if_False low_component_iff simp_thms)
qed (simp add: rrlp_event_def)

text \<open>C20: A 2G location request or report is always seen, and nothing else warns: the low warning is raised
  exactly for a GSM message whose discriminator is radio resources, whose type is application information,
  whose payload is a complete positioning message, and whose first octet names the request or the report
  without the extension bit. In particular a message that promises more octets than it has is silent.\<close>

theorem rrlp_warning_iff:
  "map_option event_type (rrlp_analyze ie) = Some LowSeverity \<longleftrightarrow>
     (\<exists>channel b0 b2 front tail rest.
        ie = GSM \<lparr>gie_channel = channel,
          gie_bytes = b0 # MT_APPLICATION_INFORMATION # b2 # of_nat (length (front # tail)) # front # tail @ rest\<rparr>
        \<and> lo_nibble b0 = PD_RR \<and> lo_nibble b2 = APDU_ID_RRLP \<and> length (front # tail) < 256
        \<and> drop_bit 4 front AND 1 \<noteq> 1 \<and> drop_bit 1 front AND 0x07 \<in> {0, 1})"
    (is "_ \<longleftrightarrow> ?message")
proof
  assume low: "map_option event_type (rrlp_analyze ie) = Some LowSeverity"
  then obtain g apdu where ie: "ie = GSM g" and apdu: "rrlp_apdu_from_application_information (gie_bytes g) = Some apdu"
    by (auto simp: rrlp_analyze_def split: InformationElement.splits option.splits)
  with low obtain front tail where cons: "apdu = front # tail"
    by (cases apdu) (simp_all add: rrlp_analyze_def decode_rrlp_apdu_def)
  have "event_type (rrlp_event (if drop_bit 4 front AND 1 = 1 then RrlpOther
      else component_of (drop_bit 1 front AND 0x07))) = LowSeverity"
    using low by (simp add: rrlp_analyze_def ie apdu cons decode_rrlp_apdu_def Let_def del: One_nat_def split del: if_split)
  then have kind: "drop_bit 4 front AND 1 \<noteq> 1 \<and> drop_bit 1 front AND 0x07 \<in> {0, 1}"
    by (simp only: low_unextended_iff not_False_eq_True)
  from apdu obtain b0 b2 rest where
    g: "gie_bytes g = b0 # MT_APPLICATION_INFORMATION # b2 # of_nat (length (front # tail)) # (front # tail) @ rest"
    and heads: "lo_nibble b0 = PD_RR" "lo_nibble b2 = APDU_ID_RRLP" "length (front # tail) < 256"
    unfolding rrlp_frame_iff cons by blast
  have "ie = GSM \<lparr>gie_channel = gie_channel g,
      gie_bytes = b0 # MT_APPLICATION_INFORMATION # b2 # of_nat (length (front # tail)) # front # tail @ rest\<rparr>"
    using g by (simp add: ie del: of_nat_Suc length_Cons)
  with heads kind show ?message by blast
next
  assume ?message
  then obtain channel b0 b2 front tail rest where
    ie: "ie = GSM \<lparr>gie_channel = channel,
      gie_bytes = b0 # MT_APPLICATION_INFORMATION # b2 # of_nat (length (front # tail)) # front # tail @ rest\<rparr>"
    and m: "lo_nibble b0 = PD_RR" "lo_nibble b2 = APDU_ID_RRLP" "length (front # tail) < 256"
      "drop_bit 4 front AND 1 \<noteq> 1" "drop_bit 1 front AND 0x07 \<in> {0, 1}" by blast
  then have "rrlp_apdu_from_application_information (b0 # MT_APPLICATION_INFORMATION # b2
      # of_nat (length (front # tail)) # front # tail @ rest) = Some (front # tail)"
    by (simp only: rrlp_frame_iff) auto
  moreover have "event_type (rrlp_event (component_of (drop_bit 1 front AND 0x07))) = LowSeverity"
    using m(5) by (simp only: low_component_iff)
  ultimately show "map_option event_type (rrlp_analyze ie) = Some LowSeverity"
    using m(4) by (simp add: ie rrlp_analyze_def decode_rrlp_apdu_def Let_def del: of_nat_Suc length_Cons)
qed

end
