(* ===== verification/NoNas.thy ===== *)
theory NoNas
  imports Events
begin

text \<open>
  The detector of recordings without NAS messages, \<open>lib/src/analysis/no_nas_messages.rs\<close>. It watches the
  clock: a point in time is a number of milliseconds.

  The specification is a property of the timestamps alone: some stretch of them without a jump spans five
  minutes. The detector is shown to report exactly when that first holds, and never once a NAS message was
  heard.
\<close>

section \<open>The detector\<close>

definition NAS_TIMEOUT :: int where "NAS_TIMEOUT = 5 * 60 * 1000"

record NoNasMessagesAnalyzer =
  nn_first_timestamp :: "int option"
  nn_latest_timestamp :: "int option"
  nn_finished :: bool

definition no_nas_new :: NoNasMessagesAnalyzer where
  "no_nas_new = \<lparr>nn_first_timestamp = None, nn_latest_timestamp = None, nn_finished = False\<rparr>"

definition is_nas :: "InformationElement \<Rightarrow> bool" where
  "is_nas ie \<longleftrightarrow> (case ie of LTE (NAS _) \<Rightarrow> True | _ \<Rightarrow> False)"

definition no_nas_report_skipped :: "NoNasMessagesAnalyzer \<Rightarrow> int \<Rightarrow> Event option \<times> NoNasMessagesAnalyzer" where
  "no_nas_report_skipped a timestamp =
     (if nn_finished a then (None, a)
      else
        (let is_discontinuous =
               (case nn_latest_timestamp a of
                  None \<Rightarrow> False
                | Some latest \<Rightarrow> timestamp < latest \<or> timestamp - latest \<ge> NAS_TIMEOUT);
             a = (if is_discontinuous then a\<lparr>nn_first_timestamp := Some timestamp\<rparr> else a);
             a = a\<lparr>nn_latest_timestamp := Some timestamp\<rparr>;
             first_timestamp = (case nn_first_timestamp a of None \<Rightarrow> timestamp | Some t \<Rightarrow> t);
             a = a\<lparr>nn_first_timestamp := Some first_timestamp\<rparr> in
         if timestamp - first_timestamp < NAS_TIMEOUT then (None, a)
         else (Some (event LowSeverity (lit ''No NAS messages seen in 5 minutes, SIM possibly not working'')),
               a\<lparr>nn_finished := True\<rparr>)))"

definition no_nas_analyze :: "NoNasMessagesAnalyzer \<Rightarrow> InformationElement \<Rightarrow> int \<Rightarrow> Event option \<times> NoNasMessagesAnalyzer" where
  "no_nas_analyze a ie timestamp =
     no_nas_report_skipped (if is_nas ie then a\<lparr>nn_finished := True\<rparr> else a) timestamp"

section \<open>Five minutes of traffic\<close>

text \<open>A packet: its element, if one could be read, and its time.\<close>

type_synonym packet = "InformationElement option \<times> int"

definition no_nas_packet :: "NoNasMessagesAnalyzer \<Rightarrow> packet \<Rightarrow> Event option \<times> NoNasMessagesAnalyzer" where
  "no_nas_packet a p =
     (case p of (None, t) \<Rightarrow> no_nas_report_skipped a t | (Some ie, t) \<Rightarrow> no_nas_analyze a ie t)"

definition no_nas_run :: "packet list \<Rightarrow> NoNasMessagesAnalyzer" where
  "no_nas_run ps = fold (\<lambda>p a. snd (no_nas_packet a p)) ps no_nas_new"

definition carries_nas :: "packet \<Rightarrow> bool" where
  "carries_nas p \<longleftrightarrow> (case fst p of None \<Rightarrow> False | Some ie \<Rightarrow> is_nas ie)"

text \<open>Time passes without a jump from one packet to the next; a recording is monitored when its last
  packets span five minutes that way.\<close>

definition steady :: "int \<Rightarrow> int \<Rightarrow> bool" where
  "steady s t \<longleftrightarrow> s \<le> t \<and> t - s < NAS_TIMEOUT"

definition monitored :: "int list \<Rightarrow> bool" where
  "monitored ts \<longleftrightarrow> (\<exists>us vs. ts = us @ vs \<and> vs \<noteq> [] \<and> successively steady vs \<and> last vs - hd vs \<ge> NAS_TIMEOUT)"

text \<open>The longest stretch without a jump that ends a list of times, and its start.\<close>

definition stretch :: "int list \<Rightarrow> int list" where
  "stretch ts = foldl (\<lambda>s t. if s = [] \<or> \<not> steady (last s) t then [t] else s @ [t]) [] ts"

lemma stretch_Nil [simp]: "stretch [] = []"
  by (simp add: stretch_def)

lemma stretch_snoc:
  "stretch (ts @ [t]) = (if stretch ts = [] \<or> \<not> steady (last (stretch ts)) t then [t] else stretch ts @ [t])"
  by (simp add: stretch_def)

lemma stretch_single [simp]: "stretch [t] = [t]"
  by (simp add: stretch_def)

lemma stretch_ends: "ts \<noteq> [] \<Longrightarrow> stretch ts \<noteq> [] \<and> last (stretch ts) = last ts"
  by (induction ts rule: rev_induct) (auto simp: stretch_snoc)

lemma stretch_steady: "successively steady (stretch ts)"
  by (induction ts rule: rev_induct) (auto simp: stretch_snoc successively_append_iff)

lemma stretch_suffix: "\<exists>us. ts = us @ stretch ts"
  by (induction ts rule: rev_induct) (auto simp: stretch_snoc)

lemma stretch_longest: "ts = us @ vs \<Longrightarrow> successively steady vs \<Longrightarrow> \<exists>ws. stretch ts = ws @ vs"
proof (induction ts arbitrary: vs rule: rev_induct)
  case (snoc t ts)
  show ?case
  proof (cases vs rule: rev_cases)
    case (snoc vs' v)
    with \<open>ts @ [t] = us @ vs\<close> have v: "v = t" "ts = us @ vs'" by simp_all
    with \<open>successively steady vs\<close> snoc have vs': "successively steady vs'" and step: "vs' \<noteq> [] \<Longrightarrow> steady (last vs') t"
      by (auto simp: successively_append_iff)
    from snoc.IH [OF v(2) vs'] obtain ws where ws: "stretch ts = ws @ vs'" by blast
    show ?thesis
    proof (cases "vs' = []")
      case True
      then show ?thesis using snoc v by (auto simp: stretch_snoc)
    next
      case False
      then have "stretch (ts @ [t]) = ws @ vs" using stretch_snoc [of ts t] snoc v(1) ws step by simp
      then show ?thesis by blast
    qed
  qed simp
qed simp

lemma steady_span: "successively steady vs \<Longrightarrow> v \<in> set vs \<Longrightarrow> hd vs \<le> v"
proof (induction vs)
  case (Cons u vs)
  then show ?case by (cases vs) (auto simp: steady_def)
qed simp

lemma monitored_iff: "monitored ts \<longleftrightarrow> ts \<noteq> [] \<and> last ts - hd (stretch ts) \<ge> NAS_TIMEOUT"
proof
  assume "monitored ts"
  then obtain us vs where vs: "ts = us @ vs" "vs \<noteq> []" "successively steady vs" "last vs - hd vs \<ge> NAS_TIMEOUT"
    by (auto simp: monitored_def)
  from stretch_longest [OF vs(1,3)] obtain ws where "stretch ts = ws @ vs" by blast
  with vs(2) have "hd vs \<in> set (stretch ts)" by simp
  with steady_span [OF stretch_steady] have "hd (stretch ts) \<le> hd vs" by blast
  with vs show "ts \<noteq> [] \<and> last ts - hd (stretch ts) \<ge> NAS_TIMEOUT" by auto
next
  assume "ts \<noteq> [] \<and> last ts - hd (stretch ts) \<ge> NAS_TIMEOUT"
  with stretch_ends [of ts] stretch_steady [of ts] stretch_suffix [of ts] show "monitored ts"
    unfolding monitored_def by metis
qed

section \<open>The verdict\<close>

definition already_monitored :: "int list \<Rightarrow> bool" where
  "already_monitored ts \<longleftrightarrow> list_ex (\<lambda>k. monitored (take k ts)) [0..<Suc (length ts)]"

lemma monitored_Nil [simp]: "\<not> monitored []"
  by (simp add: monitored_iff)

lemma already_monitored_snoc:
  "already_monitored (ts @ [t]) \<longleftrightarrow> already_monitored ts \<or> monitored (ts @ [t])"
  by (auto simp: already_monitored_def list_ex_iff less_Suc_eq)

definition no_nas_inv :: "packet list \<Rightarrow> NoNasMessagesAnalyzer \<Rightarrow> bool" where
  "no_nas_inv ps a \<longleftrightarrow>
     (nn_finished a \<longleftrightarrow> list_ex carries_nas ps \<or> already_monitored (map snd ps))
     \<and> (\<not> nn_finished a \<longrightarrow>
          nn_latest_timestamp a = (if ps = [] then None else Some (snd (last ps)))
          \<and> nn_first_timestamp a = (if ps = [] then None else Some (hd (stretch (map snd ps)))))"

lemma report_skipped_step:
  assumes inv: "no_nas_inv ps a" and open_: "\<not> nn_finished a" and quiet: "\<not> carries_nas (ie, t)"
  shows "no_nas_inv (ps @ [(ie, t)]) (snd (no_nas_report_skipped a t))
    \<and> ((fst (no_nas_report_skipped a t) \<noteq> None) = monitored (map snd ps @ [t]))"
proof -
  let ?ts = "map snd ps"
  have none: "\<not> list_ex carries_nas ps" "\<not> already_monitored ?ts"
    and latest: "nn_latest_timestamp a = (if ps = [] then None else Some (snd (last ps)))"
    and first: "nn_first_timestamp a = (if ps = [] then None else Some (hd (stretch ?ts)))"
    using inv open_ by (auto simp: no_nas_inv_def)
  have a: "a = \<lparr>nn_first_timestamp = (if ps = [] then None else Some (hd (stretch ?ts))),
      nn_latest_timestamp = (if ps = [] then None else Some (snd (last ps))), nn_finished = False\<rparr>"
    using latest first open_ by (cases a) simp
  define start where "start = hd (stretch (?ts @ [t]))"
  have start: "start = (if ps = [] \<or> t < snd (last ps) \<or> t - snd (last ps) \<ge> NAS_TIMEOUT then t else hd (stretch ?ts))"
    using stretch_ends [of ?ts] by (cases "ps = []") (auto simp: start_def stretch_snoc steady_def last_map)
  have m: "monitored (?ts @ [t]) \<longleftrightarrow> \<not> t - start < NAS_TIMEOUT" by (simp add: monitored_iff start_def not_less)
  have r: "no_nas_report_skipped a t =
      (if t - start < NAS_TIMEOUT then (None, \<lparr>nn_first_timestamp = Some start, nn_latest_timestamp = Some t, nn_finished = False\<rparr>)
       else (Some (event LowSeverity (lit ''No NAS messages seen in 5 minutes, SIM possibly not working'')),
         \<lparr>nn_first_timestamp = Some start, nn_latest_timestamp = Some t, nn_finished = True\<rparr>))"
    by (cases "ps = []") (auto simp: no_nas_report_skipped_def a start Let_def)
  have "already_monitored (?ts @ [t]) \<longleftrightarrow> monitored (?ts @ [t])" using none by (simp add: already_monitored_snoc)
  then show ?thesis
    using none quiet by (simp add: r m no_nas_inv_def start_def)
qed

lemma no_nas_packet_step:
  assumes inv: "no_nas_inv ps a"
  shows "no_nas_inv (ps @ [p]) (snd (no_nas_packet a p))
    \<and> ((fst (no_nas_packet a p) \<noteq> None) =
         (\<not> carries_nas p \<and> \<not> nn_finished a \<and> monitored (map snd ps @ [snd p])))"
proof -
  obtain e t where p: "p = (e, t)" by (cases p)
  have quiet: "no_nas_packet a p = no_nas_report_skipped a t" if "\<not> carries_nas p"
    using that by (auto simp: p no_nas_packet_def carries_nas_def no_nas_analyze_def split: option.splits)
  have nas: "no_nas_packet a p = (None, a\<lparr>nn_finished := True\<rparr>)" if "carries_nas p"
    using that by (auto simp: p no_nas_packet_def carries_nas_def no_nas_analyze_def no_nas_report_skipped_def
        split: option.splits)
  have finished: "no_nas_report_skipped a t = (None, a)" if "nn_finished a"
    using that by (simp add: no_nas_report_skipped_def)
  consider "carries_nas p" | "\<not> carries_nas p" "nn_finished a" | "\<not> carries_nas p" "\<not> nn_finished a" by blast
  then show ?thesis
  proof cases
    case 1
    then show ?thesis by (simp add: nas no_nas_inv_def)
  next
    case 2
    with inv show ?thesis by (auto simp: quiet finished no_nas_inv_def already_monitored_snoc)
  next
    case 3
    with report_skipped_step [OF inv 3(2), of e t] show ?thesis unfolding quiet [OF 3(1)] by (simp add: p)
  qed
qed

lemma no_nas_run_snoc: "no_nas_run (ps @ [p]) = snd (no_nas_packet (no_nas_run ps) p)"
  by (simp add: no_nas_run_def)

lemma no_nas_run_inv: "no_nas_inv ps (no_nas_run ps)"
proof (induction ps rule: rev_induct)
  case Nil
  then show ?case by (simp add: no_nas_inv_def no_nas_run_def no_nas_new_def already_monitored_def)
next
  case (snoc p ps)
  from no_nas_packet_step [OF this, of p] show ?case by (simp add: no_nas_run_snoc)
qed

text \<open>The SIM warning is exact. It is raised for a packet exactly when no NAS message has been heard up
  to and including it, some stretch of packets ending with it spans five minutes without the clock
  jumping backwards or by five minutes at once, and no earlier packet completed such a stretch. So it
  comes at most once, a clock that is set does not cause it, and any readable NAS message prevents it.\<close>

theorem no_nas_verdict:
  "fst (no_nas_packet (no_nas_run ps) p) \<noteq> None \<longleftrightarrow>
     \<not> list_ex carries_nas (ps @ [p]) \<and> monitored (map snd (ps @ [p])) \<and> \<not> already_monitored (map snd ps)"
  using no_nas_packet_step [OF no_nas_run_inv [of ps], of p] no_nas_run_inv [of ps]
  by (auto simp: no_nas_inv_def)

end
