(* ===== verification/TimingAdvance.thy ===== *)
theory TimingAdvance
  imports DiagLog Events "HOL-Library.AList"
begin

text \<open>
  A cell that answers from another distance, \<open>lib/src/analysis/timing_advance.rs\<close>. The hash map of cells is an
  association list with distinct keys, at most one entry per cell.

  The number of cells kept is bounded, and a report is shown to compare two measurements of the same cell
  that differ by the threshold.
\<close>

section \<open>The detector\<close>

definition METRES_PER_STEP :: fl where "METRES_PER_STEP = fl_round f64 (7807 / 100)"
definition JUMP_THRESHOLD_STEPS :: u16 where "JUMP_THRESHOLD_STEPS = 16"
definition SAMPLES_FOR_BASELINE :: nat where "SAMPLES_FOR_BASELINE = 2"
definition MAX_CELLS :: nat where "MAX_CELLS = 32"

text \<open>\<open>round\<close> on \<open>f64\<close>: to the nearest integer, halves away from zero.\<close>

fun fl_round_away :: "fl \<Rightarrow> fl" where
  "fl_round_away (FFin q) = FFin (of_int (round_half_away q))"
| "fl_round_away x = x"

definition metres :: "u16 \<Rightarrow> int" where
  "metres ta = fl_as_i64 (fl_round_away (fl_mul f64 (fl_of_nat f64 (unat ta)) METRES_PER_STEP))"

record CellSamples =
  cs_baseline :: "u16 option"
  cs_seen :: nat

definition cell_samples_default :: CellSamples where
  "cell_samples_default = \<lparr>cs_baseline = None, cs_seen = 0\<rparr>"

record TimingAdvanceAnalyzer =
  ta_current_cell :: "u32 option"
  ta_cells :: "(u32 \<times> CellSamples) list"
  ta_any_non_zero :: bool

definition timing_advance_new :: TimingAdvanceAnalyzer where
  "timing_advance_new = \<lparr>ta_current_cell = None, ta_cells = [], ta_any_non_zero = False\<rparr>"

definition abs_diff :: "u16 \<Rightarrow> u16 \<Rightarrow> u16" where
  "abs_diff a b = (if a < b then b - a else a - b)"

definition sample_cell :: "CellSamples \<Rightarrow> u16 \<Rightarrow> (u16 \<times> u16) option \<times> CellSamples" where
  "sample_cell entry ta =
     (let entry = entry\<lparr>cs_seen := cs_seen entry + 1\<rparr> in
      case cs_baseline entry of
        None \<Rightarrow>
          (None, if SAMPLES_FOR_BASELINE \<le> cs_seen entry then entry\<lparr>cs_baseline := Some ta\<rparr> else entry)
      | Some baseline \<Rightarrow>
          if JUMP_THRESHOLD_STEPS \<le> abs_diff ta baseline
          then (Some (baseline, ta), entry\<lparr>cs_baseline := Some ta\<rparr>)
          else (None, entry))"

definition room_for :: "u32 \<Rightarrow> (u32 \<times> CellSamples) list \<Rightarrow> (u32 \<times> CellSamples) list" where
  "room_for cell cells = (if MAX_CELLS \<le> length cells \<and> map_of cells cell = None then [] else cells)"

definition entry_or_default :: "u32 \<Rightarrow> (u32 \<times> CellSamples) list \<Rightarrow> CellSamples" where
  "entry_or_default cell cells = (case map_of cells cell of None \<Rightarrow> cell_samples_default | Some e \<Rightarrow> e)"

definition ta_observe :: "TimingAdvanceAnalyzer \<Rightarrow> u16 \<Rightarrow> (u16 \<times> u16) option \<times> TimingAdvanceAnalyzer" where
  "ta_observe a ta =
     (let a = (if ta \<noteq> 0 then a\<lparr>ta_any_non_zero := True\<rparr> else a) in
      if \<not> ta_any_non_zero a then (None, a)
      else
        (case ta_current_cell a of
           None \<Rightarrow> (None, a)
         | Some cell \<Rightarrow>
             (let cells = room_for cell (ta_cells a);
                  (jump, entry) = sample_cell (entry_or_default cell cells) ta in
              (jump, a\<lparr>ta_cells := AList.update cell entry cells\<rparr>))))"

definition ta_analyze :: "TimingAdvanceAnalyzer \<Rightarrow> InformationElement \<Rightarrow> Event option \<times> TimingAdvanceAnalyzer" where
  "ta_analyze a ie =
     (case ie of
        LTE (BcchDlSch (SystemInformationBlockType1 sib1)) \<Rightarrow>
          (None, a\<lparr>ta_current_cell := Some (load_be (sib1_cell_identity sib1))\<rparr>)
      | LTE (MacRar rar) \<Rightarrow>
          (case ta_observe a (rar_timing_advance rar) of
             (None, a) \<Rightarrow> (None, a)
           | (Some (baseline, observed), a) \<Rightarrow>
               (let change = metres observed - metres baseline;
                    direction = (if 0 < change then lit ''further'' else lit ''closer'') in
                (Some (event LowSeverity
                   (lit ''Cell reported timing advance '' @ decimal (unat observed) @ lit '', having reported ''
                    @ decimal (unat baseline) @ lit '' before: about '' @ decimal (nat \<bar>change\<bar>) @ lit '' metres ''
                    @ direction
                    @ lit ''. If this device moved, that explains it; if it did not, the same cell identity is being transmitted from somewhere else.'')),
                 a)))
      | _ \<Rightarrow> (None, a))"

section \<open>The measurements of a cell\<close>

text \<open>A history of elements as measurements: each with the cell of the last SIB1 before it.\<close>

definition next_cell :: "u32 option \<Rightarrow> InformationElement \<Rightarrow> u32 option" where
  "next_cell c ie =
     (case ie of
        LTE (BcchDlSch (SystemInformationBlockType1 sib1)) \<Rightarrow> Some (load_be (sib1_cell_identity sib1))
      | _ \<Rightarrow> c)"

definition cell_after :: "InformationElement list \<Rightarrow> u32 option" where
  "cell_after hs = foldl next_cell None hs"

definition measured :: "InformationElement \<Rightarrow> u16 option" where
  "measured ie = (case ie of LTE (MacRar rar) \<Rightarrow> Some (rar_timing_advance rar) | _ \<Rightarrow> None)"

definition sample_here :: "u32 option \<Rightarrow> u32 \<Rightarrow> InformationElement \<Rightarrow> u16 list" where
  "sample_here cur c ie = (case measured ie of None \<Rightarrow> [] | Some ta \<Rightarrow> if cur = Some c then [ta] else [])"

fun samples_from :: "u32 option \<Rightarrow> u32 \<Rightarrow> InformationElement list \<Rightarrow> u16 list" where
  "samples_from cur c [] = []"
| "samples_from cur c (ie # hs) = sample_here cur c ie @ samples_from (next_cell cur ie) c hs"

definition samples_of :: "u32 \<Rightarrow> InformationElement list \<Rightarrow> u16 list" where
  "samples_of c hs = samples_from None c hs"

definition ta_run :: "InformationElement list \<Rightarrow> TimingAdvanceAnalyzer" where
  "ta_run hs = fold (\<lambda>ie a. snd (ta_analyze a ie)) hs timing_advance_new"

lemma samples_from_snoc:
  "samples_from cur c (hs @ [ie]) = samples_from cur c hs @ sample_here (foldl next_cell cur hs) c ie"
  by (induction hs arbitrary: cur) simp_all

lemma samples_of_snoc: "samples_of c (hs @ [ie]) = samples_of c hs @ sample_here (cell_after hs) c ie"
  by (simp add: samples_of_def cell_after_def samples_from_snoc)

section \<open>The invariant\<close>

definition samples_ok :: "InformationElement list \<Rightarrow> u32 \<Rightarrow> CellSamples \<Rightarrow> bool" where
  "samples_ok hs c e \<longleftrightarrow> cs_seen e \<le> length (samples_of c hs)
     \<and> (case cs_baseline e of None \<Rightarrow> True
        | Some b \<Rightarrow> b \<in> set (samples_of c hs) \<and> SAMPLES_FOR_BASELINE \<le> cs_seen e)"

definition ta_inv :: "InformationElement list \<Rightarrow> TimingAdvanceAnalyzer \<Rightarrow> bool" where
  "ta_inv hs a \<longleftrightarrow>
     ta_current_cell a = cell_after hs
     \<and> distinct (map fst (ta_cells a)) \<and> length (ta_cells a) \<le> MAX_CELLS
     \<and> (\<forall>c e. map_of (ta_cells a) c = Some e \<longrightarrow> samples_ok hs c e)"

lemma update_length: "length (AList.update k v xs) = (if map_of xs k = None then Suc (length xs) else length xs)"
  by (induction xs) auto

lemma sample_cell_keeps:
  "cs_seen (snd (sample_cell e ta)) = Suc (cs_seen e)"
  "cs_baseline (snd (sample_cell e ta)) = Some b \<Longrightarrow> cs_baseline e = Some b \<or> (b = ta \<and> (cs_baseline e \<noteq> None \<or> SAMPLES_FOR_BASELINE \<le> Suc (cs_seen e)))"
  by (auto simp: sample_cell_def Let_def split: option.splits if_splits)

lemma sample_cell_jump:
  "fst (sample_cell e ta) = Some (b, t) \<longleftrightarrow> cs_baseline e = Some b \<and> t = ta \<and> JUMP_THRESHOLD_STEPS \<le> abs_diff ta b"
  by (auto simp: sample_cell_def Let_def split: option.splits)

lemma samples_ok_default: "samples_ok hs c cell_samples_default"
  by (simp add: samples_ok_def cell_samples_default_def)

lemma samples_ok_more: "samples_ok hs c e \<Longrightarrow> samples_ok (hs @ [ie]) c e"
  by (auto simp: samples_ok_def samples_of_snoc split: option.splits)

lemma samples_ok_sample:
  assumes "samples_ok hs c e" and "measured ie = Some ta" and "cell_after hs = Some c"
  shows "samples_ok (hs @ [ie]) c (snd (sample_cell e ta))"
  using assms sample_cell_keeps [of e ta]
  by (fastforce simp: samples_ok_def samples_of_snoc sample_here_def split: option.splits)

lemma ta_observe_known:
  assumes "ta_inv hs a" and "ta_current_cell a = Some c" and "ta_any_non_zero a \<or> ta \<noteq> 0"
  obtains e cells where "samples_ok hs c e" "distinct (map fst cells)"
    "length (AList.update c (snd (sample_cell e ta)) cells) \<le> MAX_CELLS"
    "\<And>d x. map_of cells d = Some x \<Longrightarrow> samples_ok hs d x"
    "ta_observe a ta = (fst (sample_cell e ta), a\<lparr>ta_any_non_zero := True,
       ta_cells := AList.update c (snd (sample_cell e ta)) cells\<rparr>)"
proof -
  define cells where "cells = room_for c (ta_cells a)"
  define e where "e = entry_or_default c cells"
  have all: "\<And>d x. map_of (ta_cells a) d = Some x \<Longrightarrow> samples_ok hs d x" using assms(1) unfolding ta_inv_def by blast
  then have sub: "\<And>d x. map_of cells d = Some x \<Longrightarrow> samples_ok hs d x" unfolding cells_def room_for_def by (auto split: if_splits)
  have "samples_ok hs c e"
    unfolding e_def entry_or_default_def using sub [of c] samples_ok_default by (cases "map_of cells c") (simp_all del: map_of_eq_None_iff)
  moreover have "distinct (map fst cells)" using assms(1) by (simp add: cells_def room_for_def ta_inv_def)
  moreover have "length (AList.update c (snd (sample_cell e ta)) cells) \<le> MAX_CELLS"
    using assms(1) by (auto simp: update_length cells_def room_for_def ta_inv_def MAX_CELLS_def)
  moreover have "ta_observe a ta = (fst (sample_cell e ta), a\<lparr>ta_any_non_zero := True,
      ta_cells := AList.update c (snd (sample_cell e ta)) cells\<rparr>)"
    using assms(2,3) by (cases a) (auto simp: ta_observe_def cells_def e_def Let_def case_prod_beta)
  ultimately show thesis using that sub by blast
qed

lemma ta_observe_unknown:
  "ta_current_cell a = None \<or> (\<not> ta_any_non_zero a \<and> ta = 0) \<Longrightarrow>
     ta_observe a ta = (None, a\<lparr>ta_any_non_zero := ta_any_non_zero a \<or> ta \<noteq> 0\<rparr>)"
  by (cases a) (auto simp: ta_observe_def Let_def split: option.splits)

lemma ta_analyze_measured:
  "measured ie = Some ta \<Longrightarrow> snd (ta_analyze a ie) = snd (ta_observe a ta)
     \<and> (fst (ta_analyze a ie) \<noteq> None \<longleftrightarrow> fst (ta_observe a ta) \<noteq> None)"
  by (auto simp: measured_def ta_analyze_def Let_def
      split: InformationElement.splits LteInformationElement.splits prod.splits option.splits)

lemma ta_analyze_unmeasured:
  "measured ie = None \<Longrightarrow> fst (ta_analyze a ie) = None
     \<and> snd (ta_analyze a ie) = a\<lparr>ta_current_cell := next_cell (ta_current_cell a) ie\<rparr>"
  by (cases a) (auto simp: measured_def ta_analyze_def next_cell_def
      split: InformationElement.splits LteInformationElement.splits BCCH_DL_SCH_Message.splits)

lemma cell_after_snoc [simp]: "cell_after (hs @ [ie]) = next_cell (cell_after hs) ie"
  by (simp add: cell_after_def)

lemma cell_after_measured: "measured ie \<noteq> None \<Longrightarrow> cell_after (hs @ [ie]) = cell_after hs"
  by (auto simp: next_cell_def measured_def split: InformationElement.splits LteInformationElement.splits)

lemma ta_inv_step:
  assumes "ta_inv hs a"
  shows "ta_inv (hs @ [ie]) (snd (ta_analyze a ie))"
proof (cases "measured ie")
  case None
  from ta_analyze_unmeasured [OF this, of a] assms show ?thesis
    by (auto simp: ta_inv_def intro: samples_ok_more)
next
  case (Some ta)
  have same: "cell_after (hs @ [ie]) = cell_after hs" by (rule cell_after_measured) (simp add: Some)
  have here: "ta_current_cell a = cell_after hs" using assms by (simp add: ta_inv_def)
  show ?thesis
  proof (cases "ta_current_cell a = None \<or> (\<not> ta_any_non_zero a \<and> ta = 0)")
    case True
    then show ?thesis
      using assms same ta_analyze_measured [OF Some, of a]
      by (auto simp: ta_inv_def ta_observe_unknown simp del: cell_after_snoc intro: samples_ok_more)
  next
    case False
    then obtain c where c: "ta_current_cell a = Some c" "ta_any_non_zero a \<or> ta \<noteq> 0" by auto
    from ta_observe_known [OF assms c] obtain e cells where
      e: "samples_ok hs c e" and cells: "distinct (map fst cells)"
        "length (AList.update c (snd (sample_cell e ta)) cells) \<le> MAX_CELLS"
        "\<And>d x. map_of cells d = Some x \<Longrightarrow> samples_ok hs d x"
      and obs: "ta_observe a ta = (fst (sample_cell e ta), a\<lparr>ta_any_non_zero := True,
           ta_cells := AList.update c (snd (sample_cell e ta)) cells\<rparr>)" by blast
    have "samples_ok (hs @ [ie]) d x" if "map_of (AList.update c (snd (sample_cell e ta)) cells) d = Some x" for d x
      using that samples_ok_sample [OF e Some] samples_ok_more [OF cells(3) [of d x]] here c
      by (auto simp: update_conv split: if_splits)
    then show ?thesis
      unfolding ta_inv_def using ta_analyze_measured [OF Some, of a] obs same here cells
      by (auto simp: distinct_update simp del: cell_after_snoc)
  qed
qed

lemma ta_run_snoc: "ta_run (hs @ [ie]) = snd (ta_analyze (ta_run hs) ie)"
  by (simp add: ta_run_def)

lemma ta_run_inv: "ta_inv hs (ta_run hs)"
proof (induction hs rule: rev_induct)
  case Nil
  then show ?case by (simp add: ta_inv_def ta_run_def timing_advance_new_def cell_after_def MAX_CELLS_def)
next
  case (snoc ie hs)
  then show ?case by (simp add: ta_run_snoc ta_inv_step)
qed

text \<open>A reported jump is one cell measured twice. When the timing advance detector reports, the element
  is a measurement, the cell of the last SIB1 is known, at least two measurements were taken on that very
  cell, and the new one differs from one of them by the threshold of sixteen steps. So towers are never
  compared with each other, a first measurement never reports, and a modem that always reports zero stays
  silent.\<close>

theorem timing_jump_justified:
  assumes "fst (ta_analyze (ta_run hs) ie) = Some ev"
  shows "\<exists>c ta b. cell_after hs = Some c \<and> measured ie = Some ta \<and> 2 \<le> length (samples_of c hs)
    \<and> b \<in> set (samples_of c hs) \<and> JUMP_THRESHOLD_STEPS \<le> abs_diff ta b \<and> event_type ev = LowSeverity"
proof -
  let ?a = "ta_run hs"
  obtain ta where ta: "measured ie = Some ta" using assms ta_analyze_unmeasured [of ie ?a] by (cases "measured ie") auto
  with assms ta_analyze_measured [OF ta, of ?a] have jump: "fst (ta_observe ?a ta) \<noteq> None" by simp
  then have "\<not> (ta_current_cell ?a = None \<or> (\<not> ta_any_non_zero ?a \<and> ta = 0))"
    using ta_observe_unknown [of ?a ta] by force
  then obtain c where c: "ta_current_cell ?a = Some c" "ta_any_non_zero ?a \<or> ta \<noteq> 0" by auto
  from ta_observe_known [OF ta_run_inv c] obtain e where e: "samples_ok hs c e"
    and obs: "fst (ta_observe ?a ta) = fst (sample_cell e ta)" by (metis fst_conv)
  from jump obs obtain b t where "fst (sample_cell e ta) = Some (b, t)" by auto
  then have base: "cs_baseline e = Some b" and far: "JUMP_THRESHOLD_STEPS \<le> abs_diff ta b"
    by (simp_all add: sample_cell_jump)
  with e have "b \<in> set (samples_of c hs)" "2 \<le> length (samples_of c hs)"
    by (simp_all add: samples_ok_def SAMPLES_FOR_BASELINE_def)
  moreover have "cell_after hs = Some c" using c ta_run_inv [of hs] by (simp add: ta_inv_def)
  moreover have "event_type ev = LowSeverity"
    using assms by (auto simp: ta_analyze_def Let_def
        split: InformationElement.splits LteInformationElement.splits BCCH_DL_SCH_Message.splits prod.splits option.splits)
  ultimately show ?thesis using ta far by blast
qed

definition sample_rar :: "u16 \<Rightarrow> InformationElement" where
  "sample_rar ta = LTE (MacRar \<lparr>rar_timing_advance = ta, rar_tc_rnti = 0, rar_preamble = 0\<rparr>)"

definition sample_sib1 :: "28 word \<Rightarrow> InformationElement" where
  "sample_sib1 cell = LTE (BcchDlSch (SystemInformationBlockType1
     \<lparr>sib1_first_plmn = \<lparr>plmn_mcc = None, plmn_mnc = MNC2 0 1\<rparr>, sib1_more_plmns = [], sib1_cell_identity = cell,
      sib1_tracking_area_code = 0, sib1_scheduling_infos = 2\<rparr>))"

theorem timing_jump_justified_witness:
  "2 \<le> length (samples_of 7 [sample_sib1 7, sample_rar 10, sample_rar 10])
    \<and> (\<exists>b \<in> set (samples_of 7 [sample_sib1 7, sample_rar 10, sample_rar 10]). JUMP_THRESHOLD_STEPS \<le> abs_diff 90 b)"
proof -
  let ?hs = "[sample_sib1 7, sample_rar 10, sample_rar 10]"
  have "\<exists>ev. fst (ta_analyze (ta_run ?hs) (sample_rar 90)) = Some ev"
    by (simp add: ta_run_def ta_analyze_def sample_sib1_def sample_rar_def timing_advance_new_def load_be_def ta_observe_def
        sample_cell_def cell_samples_default_def SAMPLES_FOR_BASELINE_def MAX_CELLS_def JUMP_THRESHOLD_STEPS_def
        abs_diff_def room_for_def entry_or_default_def Let_def)
  then obtain ev where ev: "fst (ta_analyze (ta_run ?hs) (sample_rar 90)) = Some ev" by blast
  have "cell_after ?hs = Some 7" "measured (sample_rar 90) = Some 90"
    by (simp_all add: cell_after_def next_cell_def measured_def sample_sib1_def sample_rar_def load_be_def)
  with timing_jump_justified [OF ev] show ?thesis by auto
qed

lemma cells_bounded: "length (ta_cells (ta_run hs)) \<le> MAX_CELLS"
  using ta_run_inv [of hs] by (simp add: ta_inv_def)

end
