(* ===== verification/Harness.thy ===== *)
theory Harness
  imports Diag DiagLog GsmtapParser Identity FlashCatch CellSignalling Lpp Rrlp NoNas TimingAdvance
begin

text \<open>
  The analysis harness, \<open>lib/src/analysis/analyzer.rs\<close>, and the writer of the daemon that drives it,
  \<open>daemon/src/analysis.rs\<close>: which detectors a configuration turns on, how a message of a recording or a packet
  of a capture becomes a row of events, and which rows reach the analysis file.

  The detectors are shown not to influence each other, the rows to be numbered and aligned with them, and a
  null cipher to raise the alarm from the recorded message to the severity the daemon is told.
\<close>

section \<open>Detectors behind one interface\<close>

datatype Analyzer =
    ImsiRequested ImsiRequestedAnalyzer
  | ConnectionRedirect2GDowngrade
  | LteSib6And7Downgrade LteSib6And7DowngradeAnalyzer
  | NullCipher
  | NasNullCipher
  | IncompleteSib
  | LppLocationRequest warned
  | LppLocationTracking warned
  | RrlpLocation
  | CellTimingAdvance TimingAdvanceAnalyzer
  | FlashCatchExchange FlashCatchAnalyzer
  | TestSib1
  | NoNasMessages NoNasMessagesAnalyzer
  | Diagnostic

text \<open>\<open>analyze_information_element\<close> and \<open>report_skipped_packet\<close> of the trait; the second does nothing unless a
  detector overrides it.\<close>

fun analyze_element :: "Analyzer \<Rightarrow> InformationElement \<Rightarrow> nat \<Rightarrow> int \<Rightarrow> Event option \<times> Analyzer" where
  "analyze_element (ImsiRequested a) ie n ts = map_prod id ImsiRequested (imsi_analyze a ie)"
| "analyze_element ConnectionRedirect2GDowngrade ie n ts = (redirect_analyze ie, ConnectionRedirect2GDowngrade)"
| "analyze_element (LteSib6And7Downgrade a) ie n ts = map_prod id LteSib6And7Downgrade (priority_analyze a ie)"
| "analyze_element NullCipher ie n ts = (null_cipher_analyze ie, NullCipher)"
| "analyze_element NasNullCipher ie n ts = (nas_null_cipher_analyze ie, NasNullCipher)"
| "analyze_element IncompleteSib ie n ts = (incomplete_sib_analyze ie, IncompleteSib)"
| "analyze_element (LppLocationRequest w) ie n ts = map_prod id LppLocationRequest (lpp_request_analyze w ie)"
| "analyze_element (LppLocationTracking w) ie n ts = map_prod id LppLocationTracking (lpp_tracking_analyze w ie)"
| "analyze_element RrlpLocation ie n ts = (rrlp_analyze ie, RrlpLocation)"
| "analyze_element (CellTimingAdvance a) ie n ts = map_prod id CellTimingAdvance (ta_analyze a ie)"
| "analyze_element (FlashCatchExchange a) ie n ts = map_prod id FlashCatchExchange (flash_analyze a ie n)"
| "analyze_element TestSib1 ie n ts = (test_analyze ie, TestSib1)"
| "analyze_element (NoNasMessages a) ie n ts = map_prod id NoNasMessages (no_nas_analyze a ie ts)"
| "analyze_element Diagnostic ie n ts = (diagnostic_analyze ie, Diagnostic)"

fun report_skipped :: "Analyzer \<Rightarrow> int \<Rightarrow> Event option \<times> Analyzer" where
  "report_skipped (NoNasMessages a) ts = map_prod id NoNasMessages (no_nas_report_skipped a ts)"
| "report_skipped a ts = (None, a)"

section \<open>Configuration\<close>

record AnalyzerConfig =
  cfg_diagnostic_analyzer :: bool
  cfg_connection_redirect_2g_downgrade :: bool
  cfg_lte_sib6_and_7_downgrade :: bool
  cfg_null_cipher :: bool
  cfg_nas_null_cipher :: bool
  cfg_incomplete_sib :: bool
  cfg_test_analyzer :: bool
  cfg_imsi_requested :: bool
  cfg_lpp_location_request :: bool
  cfg_lpp_location_tracking :: bool
  cfg_rrlp_location_request :: bool
  cfg_timing_advance :: bool
  cfg_flash_catch :: bool
  cfg_no_nas_messages :: bool

definition analyzer_config_default :: AnalyzerConfig where
  "analyzer_config_default =
     \<lparr>cfg_diagnostic_analyzer = True, cfg_connection_redirect_2g_downgrade = True, cfg_lte_sib6_and_7_downgrade = True,
      cfg_null_cipher = True, cfg_nas_null_cipher = True, cfg_incomplete_sib = True, cfg_test_analyzer = False,
      cfg_imsi_requested = True, cfg_lpp_location_request = True, cfg_lpp_location_tracking = True,
      cfg_rrlp_location_request = True, cfg_timing_advance = True, cfg_flash_catch = True, cfg_no_nas_messages = False\<rparr>"

record Harness =
  hn_analyzers :: "Analyzer list"
  hn_packet_num :: nat

definition harness_new :: Harness where
  "harness_new = \<lparr>hn_analyzers = [], hn_packet_num = 0\<rparr>"

definition add_analyzer :: "Analyzer \<Rightarrow> Harness \<Rightarrow> Harness" where
  "add_analyzer a h = h\<lparr>hn_analyzers := hn_analyzers h @ [a]\<rparr>"

definition add_if :: "bool \<Rightarrow> Analyzer \<Rightarrow> Harness \<Rightarrow> Harness" where
  "add_if enabled a h = (if enabled then add_analyzer a h else h)"

definition harness_new_with_config :: "AnalyzerConfig \<Rightarrow> ustr list \<Rightarrow> Harness" where
  "harness_new_with_config c home_plmn =
     (let h = harness_new;
          h = add_if (cfg_imsi_requested c) (ImsiRequested (imsi_new home_plmn)) h;
          h = add_if (cfg_connection_redirect_2g_downgrade c) ConnectionRedirect2GDowngrade h;
          h = add_if (cfg_lte_sib6_and_7_downgrade c) (LteSib6And7Downgrade priority_new) h;
          h = add_if (cfg_null_cipher c) NullCipher h;
          h = add_if (cfg_nas_null_cipher c) NasNullCipher h;
          h = add_if (cfg_incomplete_sib c) IncompleteSib h;
          h = add_if (cfg_lpp_location_request c) (LppLocationRequest {}) h;
          h = add_if (cfg_lpp_location_tracking c) (LppLocationTracking {}) h;
          h = add_if (cfg_rrlp_location_request c) RrlpLocation h;
          h = add_if (cfg_timing_advance c) (CellTimingAdvance timing_advance_new) h;
          h = add_if (cfg_flash_catch c) (FlashCatchExchange fc_new) h;
          h = add_if (cfg_test_analyzer c) TestSib1 h;
          h = add_if (cfg_no_nas_messages c) (NoNasMessages no_nas_new) h;
          h = add_if (cfg_diagnostic_analyzer c) Diagnostic h in
      h)"

section \<open>Rows\<close>

text \<open>The reason a message was skipped, kept as the error whose text the row holds.\<close>

datatype ('de, 'rrc, 'nas) SkipReason =
    DiagFailed "'de DiagParsingError"
  | GsmtapFailed GsmtapParserError
  | ElementFailed "('rrc, 'nas) InformationElementError"
  | PcapElementFailed nat "('rrc, 'nas) InformationElementError"
  | GsmtapHeaderFailed GsmtapTypeError

record ('de, 'rrc, 'nas) AnalysisRow =
  ar_packet_num :: "nat option"
  ar_packet_timestamp :: "int option"
  ar_skipped_message_reason :: "('de, 'rrc, 'nas) SkipReason option"
  ar_events :: "Event option list"

definition row_new :: "('de, 'rrc, 'nas) AnalysisRow" where
  "row_new = \<lparr>ar_packet_num = None, ar_packet_timestamp = None, ar_skipped_message_reason = None, ar_events = []\<rparr>"

definition get_max_event_type :: "('de, 'rrc, 'nas) AnalysisRow \<Rightarrow> EventType" where
  "get_max_event_type row = fold max (map event_type (List.map_filter id (ar_events row))) Informational"

definition contains_warnings :: "('de, 'rrc, 'nas) AnalysisRow \<Rightarrow> bool" where
  "contains_warnings row = (get_max_event_type row \<noteq> Informational)"

definition row_is_empty :: "('de, 'rrc, 'nas) AnalysisRow \<Rightarrow> bool" where
  "row_is_empty row = (ar_skipped_message_reason row = None \<and> \<not> contains_warnings row)"

definition is_deliberately_unanalysed :: "('rrc, 'nas) InformationElementError \<Rightarrow> bool" where
  "is_deliberately_unanalysed e = (case e of UnsupportedGsmtapType _ \<Rightarrow> True | _ \<Rightarrow> False)"

definition packet_suffix :: "nat \<Rightarrow> ustr" where
  "packet_suffix n = lit '' (packet '' @ decimal n @ lit '')''"

definition mark_event :: "nat \<Rightarrow> Event option \<times> Analyzer \<Rightarrow> Event option \<times> Analyzer" where
  "mark_event n r = map_prod (map_option (event_message_update (\<lambda>m. m @ packet_suffix n))) id r"

definition harness_each :: "(Analyzer \<Rightarrow> Event option \<times> Analyzer) \<Rightarrow> Harness \<Rightarrow> Event option list \<times> Harness" where
  "harness_each f h =
     (let rs = map (mark_event (hn_packet_num h) \<circ> f) (hn_analyzers h) in
      (map fst rs, h\<lparr>hn_analyzers := map snd rs\<rparr>))"

definition harness_analyze_element :: "Harness \<Rightarrow> InformationElement \<Rightarrow> int \<Rightarrow> Event option list \<times> Harness" where
  "harness_analyze_element h ie ts = harness_each (\<lambda>a. analyze_element a ie (hn_packet_num h) ts) h"

definition harness_report_skipped :: "Harness \<Rightarrow> int \<Rightarrow> Event option list \<times> Harness" where
  "harness_report_skipped h ts = harness_each (\<lambda>a. report_skipped a ts) h"

section \<open>A message of a recording\<close>

definition analyze_qmdl_message ::
    "('rrc, 'nas) decoders \<Rightarrow> Harness \<Rightarrow> 'de DiagParsingError + ('x, 'r) Message
      \<Rightarrow> ('de, 'rrc, 'nas) AnalysisRow \<times> Harness" where
  "analyze_qmdl_message d h maybe_qmdl_message =
     (let h = h\<lparr>hn_packet_num := hn_packet_num h + 1\<rparr>;
          row = row_new\<lparr>ar_packet_num := Some (hn_packet_num h)\<rparr> in
      case maybe_qmdl_message of
        Inl err \<Rightarrow> (row\<lparr>ar_skipped_message_reason := Some (DiagFailed err)\<rparr>, h)
      | Inr msg \<Rightarrow>
          (let packet_timestamp = (case msg of MessageLog _ _ _ _ t _ \<Rightarrow> Some (to_datetime t) | _ \<Rightarrow> None);
               row = row\<lparr>ar_packet_timestamp := packet_timestamp\<rparr>;
               skipped = (\<lambda>row ts. let (evs, h) = harness_report_skipped h ts in (row\<lparr>ar_events := evs\<rparr>, h));
               skipped_if_timed = (\<lambda>row. case packet_timestamp of Some ts \<Rightarrow> skipped row ts | None \<Rightarrow> (row, h)) in
           case gsmtap_parse msg of
             Inl err \<Rightarrow> skipped_if_timed (row\<lparr>ar_skipped_message_reason := Some (GsmtapFailed err)\<rparr>)
           | Inr None \<Rightarrow> skipped_if_timed row
           | Inr (Some (t, gsmtap_msg)) \<Rightarrow>
               (case ie_try_from d gsmtap_msg of
                  Inl err \<Rightarrow>
                    skipped
                      (if is_deliberately_unanalysed err then row
                       else row\<lparr>ar_skipped_message_reason := Some (ElementFailed err)\<rparr>)
                      (to_datetime t)
                | Inr element \<Rightarrow>
                    (let (evs, h) = harness_analyze_element h element (to_datetime t) in
                     (row\<lparr>ar_events := evs\<rparr>, h)))))"

fun analyze_qmdl_messages ::
    "('rrc, 'nas) decoders \<Rightarrow> Harness \<Rightarrow> ('de DiagParsingError + ('x, 'r) Message) list
      \<Rightarrow> ('de, 'rrc, 'nas) AnalysisRow list \<times> Harness" where
  "analyze_qmdl_messages d h [] = ([], h)"
| "analyze_qmdl_messages d h (m # ms) =
     (let (row, h) = analyze_qmdl_message d h m; (rows, h) = analyze_qmdl_messages d h ms in (row # rows, h))"

section \<open>A packet of a capture\<close>

text \<open>\<open>None\<close> is the panic of an index past the end of the packet.\<close>

definition analyze_pcap_packet ::
    "('rrc, 'nas) decoders \<Rightarrow> Harness \<Rightarrow> bytes \<Rightarrow> int
      \<Rightarrow> (('de, 'rrc, 'nas) AnalysisRow \<times> Harness) option" where
  "analyze_pcap_packet d h data timestamp =
     (let h = h\<lparr>hn_packet_num := hn_packet_num h + 1\<rparr>;
          row = row_new\<lparr>ar_packet_num := Some (hn_packet_num h), ar_packet_timestamp := Some timestamp\<rparr>;
          gsmtap_offset = 20 + 8;
          skipped = (\<lambda>row. let (evs, h) = harness_report_skipped h timestamp in Some (row\<lparr>ar_events := evs\<rparr>, h)) in
      if length data < gsmtap_offset then None
      else
        (let gsmtap_data = drop gsmtap_offset data in
         if length gsmtap_data < 13 then None
         else
           (case gsmtap_type_new (gsmtap_data ! 2) (gsmtap_data ! 12) of
              Inl err \<Rightarrow> skipped (row\<lparr>ar_skipped_message_reason := Some (GsmtapHeaderFailed err)\<rparr>)
            | Inr ty \<Rightarrow>
                (let packet_offset = gsmtap_offset + 16 in
                 if length data < packet_offset then None
                 else
                   (case ie_try_from d \<lparr>gm_header = gsmtap_header_new ty, gm_payload = drop packet_offset data\<rparr> of
                      Inl err \<Rightarrow>
                        skipped (if is_deliberately_unanalysed err then row
                                 else row\<lparr>ar_skipped_message_reason := Some (PcapElementFailed (hn_packet_num h) err)\<rparr>)
                    | Inr element \<Rightarrow>
                        (let (evs, h) = harness_analyze_element h element timestamp in
                         Some (row\<lparr>ar_events := evs\<rparr>, h)))))))"

section \<open>The analysis writer\<close>

text \<open>\<open>write\<close> appends a row to the file; it may fail, and says what became of the file either way.\<close>

record 'w AnalysisWriter =
  aw_file :: 'w
  aw_harness :: Harness

definition prefix_events :: "ustr option \<Rightarrow> ('de, 'rrc, 'nas) AnalysisRow \<Rightarrow> ('de, 'rrc, 'nas) AnalysisRow" where
  "prefix_events prefix row =
     (case prefix of
        None \<Rightarrow> row
      | Some p \<Rightarrow> row\<lparr>ar_events := map (map_option (event_message_update (\<lambda>m. p @ m))) (ar_events row)\<rparr>)"

definition write_row ::
    "('w \<Rightarrow> ('de, 'rrc, 'nas) AnalysisRow \<Rightarrow> 'io option \<times> 'w) \<Rightarrow> 'w \<Rightarrow> ('de, 'rrc, 'nas) AnalysisRow
      \<Rightarrow> 'io option \<times> 'w" where
  "write_row write w row = (if row_is_empty row then (None, w) else write w row)"

fun write_rows ::
    "('w \<Rightarrow> ('de, 'rrc, 'nas) AnalysisRow \<Rightarrow> 'io option \<times> 'w) \<Rightarrow> ustr option \<Rightarrow> EventType
      \<Rightarrow> ('de, 'rrc, 'nas) AnalysisRow list \<Rightarrow> 'w \<Rightarrow> ('io + EventType) \<times> 'w" where
  "write_rows write prefix max_type [] w = (Inr max_type, w)"
| "write_rows write prefix max_type (row # rows) w =
     (let row = prefix_events prefix row in
      case write_row write w row of
        (Some e, w) \<Rightarrow> (Inl e, w)
      | (None, w) \<Rightarrow> write_rows write prefix (max max_type (get_max_event_type row)) rows w)"

definition analyze_container_inner ::
    "('w \<Rightarrow> ('de, 'rrc, 'nas) AnalysisRow \<Rightarrow> 'io option \<times> 'w) \<Rightarrow> ('rrc, 'nas) decoders \<Rightarrow> 'w AnalysisWriter
      \<Rightarrow> ('de DiagParsingError + ('x, 'r) Message) list \<Rightarrow> ustr option \<Rightarrow> ('io + EventType) \<times> 'w AnalysisWriter" where
  "analyze_container_inner write d aw messages prefix =
     (let (rows, h) = analyze_qmdl_messages d (aw_harness aw) messages;
          (result, w) = write_rows write prefix Informational rows (aw_file aw) in
      (result, \<lparr>aw_file = w, aw_harness = h\<rparr>))"

definition analyze_message ::
    "('w \<Rightarrow> ('de, 'rrc, 'nas) AnalysisRow \<Rightarrow> 'io option \<times> 'w) \<Rightarrow> ('rrc, 'nas) decoders \<Rightarrow> 'w AnalysisWriter
      \<Rightarrow> 'de DiagParsingError + ('x, 'r) Message \<Rightarrow> ('io + EventType) \<times> 'w AnalysisWriter" where
  "analyze_message write d aw m =
     (let (row, h) = analyze_qmdl_message d (aw_harness aw) m in
      case write_row write (aw_file aw) row of
        (Some e, w) \<Rightarrow> (Inl e, \<lparr>aw_file = w, aw_harness = h\<rparr>)
      | (None, w) \<Rightarrow> (Inr (get_max_event_type row), \<lparr>aw_file = w, aw_harness = h\<rparr>))"

section \<open>Detectors do not influence each other\<close>

text \<open>A harness with one of the detectors alone, and the row that would be left of it.\<close>

definition only :: "nat \<Rightarrow> Harness \<Rightarrow> Harness" where
  "only i h = h\<lparr>hn_analyzers := [hn_analyzers h ! i]\<rparr>"

definition slot :: "nat \<Rightarrow> ('de, 'rrc, 'nas) AnalysisRow \<Rightarrow> ('de, 'rrc, 'nas) AnalysisRow" where
  "slot i row = row\<lparr>ar_events := (if ar_events row = [] then [] else [ar_events row ! i])\<rparr>"

lemma harness_each_only:
  "i < length (hn_analyzers h) \<Longrightarrow>
     harness_each f (only i h) = ([fst (harness_each f h) ! i], only i (snd (harness_each f h)))"
  by (simp add: harness_each_def only_def)

lemma harness_each_length [simp]:
  "length (fst (harness_each f h)) = length (hn_analyzers h)"
  "length (hn_analyzers (snd (harness_each f h))) = length (hn_analyzers h)"
  "hn_packet_num (snd (harness_each f h)) = hn_packet_num h"
  by (simp_all add: harness_each_def Let_def)

lemma only_sel [simp]:
  "hn_packet_num (only i h) = hn_packet_num h"
  "(only i h)\<lparr>hn_packet_num := n\<rparr> = only i (h\<lparr>hn_packet_num := n\<rparr>)"
  by (simp_all add: only_def)

text \<open>What one message does, by the four ways it can go.\<close>

datatype ('de, 'rrc, 'nas) outcome =
    Unread "('de, 'rrc, 'nas) SkipReason option"
  | Skipped "('de, 'rrc, 'nas) SkipReason option" int
  | Read InformationElement int

definition outcome_of ::
    "('rrc, 'nas) decoders \<Rightarrow> 'de DiagParsingError + ('x, 'r) Message \<Rightarrow> ('de, 'rrc, 'nas) outcome" where
  "outcome_of d m =
     (case m of
        Inl err \<Rightarrow> Unread (Some (DiagFailed err))
      | Inr (MessageResponse _) \<Rightarrow> Unread None
      | Inr (MessageLog a b c l t body) \<Rightarrow>
          (case log_to_gsmtap body of
             Inl err \<Rightarrow> Skipped (Some (GsmtapFailed err)) (to_datetime t)
           | Inr None \<Rightarrow> Skipped None (to_datetime t)
           | Inr (Some g) \<Rightarrow>
               (case ie_try_from d g of
                  Inl err \<Rightarrow> Skipped (if is_deliberately_unanalysed err then None else Some (ElementFailed err)) (to_datetime t)
                | Inr element \<Rightarrow> Read element (to_datetime t))))"

definition message_time :: "'de DiagParsingError + ('x, 'r) Message \<Rightarrow> int option" where
  "message_time m = (case m of Inr (MessageLog _ _ _ _ t _) \<Rightarrow> Some (to_datetime t) | _ \<Rightarrow> None)"

definition apply_outcome :: "('de, 'rrc, 'nas) outcome \<Rightarrow> Harness \<Rightarrow> Event option list \<times> Harness" where
  "apply_outcome out h =
     (case out of
        Unread _ \<Rightarrow> ([], h)
      | Skipped _ ts \<Rightarrow> harness_report_skipped h ts
      | Read ie ts \<Rightarrow> harness_analyze_element h ie ts)"

definition outcome_reason :: "('de, 'rrc, 'nas) outcome \<Rightarrow> ('de, 'rrc, 'nas) SkipReason option" where
  "outcome_reason out = (case out of Unread r \<Rightarrow> r | Skipped r _ \<Rightarrow> r | Read _ _ \<Rightarrow> None)"

lemma analyze_qmdl_message_outcome:
  "analyze_qmdl_message d h m =
     (let h = h\<lparr>hn_packet_num := hn_packet_num h + 1\<rparr>; out = outcome_of d m; (evs, h') = apply_outcome out h in
      (\<lparr>ar_packet_num = Some (hn_packet_num h), ar_packet_timestamp = message_time m,
        ar_skipped_message_reason = outcome_reason out, ar_events = evs\<rparr>, h'))"
  by (auto simp: analyze_qmdl_message_def outcome_of_def message_time_def apply_outcome_def outcome_reason_def
      row_new_def gsmtap_parse_def Let_def split: sum.splits Message.splits option.splits prod.splits)

lemma apply_outcome_only:
  "i < length (hn_analyzers h) \<Longrightarrow>
     apply_outcome out (only i h) =
       (if fst (apply_outcome out h) = [] then [] else [fst (apply_outcome out h) ! i], only i (snd (apply_outcome out h)))"
  by (cases out)
    (auto simp: apply_outcome_def harness_report_skipped_def harness_analyze_element_def harness_each_only
      dest: arg_cong [where f = length])

lemma apply_outcome_keeps [simp]:
  "length (hn_analyzers (snd (apply_outcome out h))) = length (hn_analyzers h)"
  "hn_packet_num (snd (apply_outcome out h)) = hn_packet_num h"
  "fst (apply_outcome out h) = [] \<or> length (fst (apply_outcome out h)) = length (hn_analyzers h)"
  by (cases out; simp add: apply_outcome_def harness_report_skipped_def harness_analyze_element_def)+

lemma analyze_qmdl_message_keeps [simp]:
  "length (hn_analyzers (snd (analyze_qmdl_message d h m))) = length (hn_analyzers h)"
  "hn_packet_num (snd (analyze_qmdl_message d h m)) = Suc (hn_packet_num h)"
  by (simp_all add: analyze_qmdl_message_outcome Let_def case_prod_beta)

lemma analyze_qmdl_message_only:
  "i < length (hn_analyzers h) \<Longrightarrow>
     analyze_qmdl_message d (only i h) m = map_prod (slot i) (only i) (analyze_qmdl_message d h m)"
  by (simp add: analyze_qmdl_message_outcome Let_def case_prod_beta apply_outcome_only slot_def)

lemma analyze_qmdl_messages_Cons:
  "analyze_qmdl_messages d h (m # ms) =
     (fst (analyze_qmdl_message d h m) # fst (analyze_qmdl_messages d (snd (analyze_qmdl_message d h m)) ms),
      snd (analyze_qmdl_messages d (snd (analyze_qmdl_message d h m)) ms))"
  by (simp add: Let_def case_prod_beta)

declare analyze_qmdl_messages.simps(2) [simp del]

text \<open>C2: Detectors are independent. For any recording, turning all the other detectors off changes nothing a
  detector reports: its events, in every row, and the state it ends in are those of the same detector
  running alone on the same messages.\<close>

theorem detectors_independent:
  assumes "i < length (hn_analyzers h)"
  shows "analyze_qmdl_messages d (only i h) ms = map_prod (map (slot i)) (only i) (analyze_qmdl_messages d h ms)"
  using assms
proof (induction ms arbitrary: h)
  case (Cons m ms)
  then show ?case by (simp add: analyze_qmdl_messages_Cons analyze_qmdl_message_only)
qed simp

text \<open>Decoders for examples: every downlink message proposes the null cipher.\<close>

definition sample_decoders :: "(unit, unit) decoders" where
  "sample_decoders =
     \<lparr>dec_unread = (\<lambda>_ _. Inr ()), dec_dl_dcch = (\<lambda>_. Inr (SecurityModeCommand_r8 EEA0)),
      dec_ul_ccch = (\<lambda>_. Inr UlCcchOther), dec_bcch_dl_sch = (\<lambda>_. Inr BcchDlSchOther), dec_nas = (\<lambda>_. Inr NASOther)\<rparr>"

definition sample_harness :: Harness where
  "sample_harness = harness_new_with_config analyzer_config_default []"

definition sample_messages :: "(unit DiagParsingError + (unit, unit) Message) list" where
  "sample_messages = [Inl (HdlcDecapsulationError (InvalidEscapeSequence 0) []), Inr (MessageResponse ())]"

lemma sample_harness_nth: "length (hn_analyzers sample_harness) = 12"
  by (simp add: sample_harness_def harness_new_with_config_def analyzer_config_default_def harness_new_def add_if_def
      add_analyzer_def)

theorem detectors_independent_witness:
  "analyze_qmdl_messages sample_decoders (only 1 sample_harness) sample_messages
    = map_prod (map (slot 1)) (only 1) (analyze_qmdl_messages sample_decoders sample_harness sample_messages)"
  by (rule detectors_independent) (simp add: sample_harness_nth)

text \<open>C4: Every message has its row. A recording yields one row per message, numbered on from the packets
  already seen without a gap, with the time of its log record, and a row has either no events or exactly
  one place per detector, so events always line up with the detectors of the report.\<close>

theorem rows_numbered_and_aligned:
  "map ar_packet_num (fst (analyze_qmdl_messages d h ms)) = map (\<lambda>k. Some (hn_packet_num h + k + 1)) [0..<length ms]
   \<and> map ar_packet_timestamp (fst (analyze_qmdl_messages d h ms)) = map message_time ms
   \<and> list_all (\<lambda>row. ar_events row = [] \<or> length (ar_events row) = length (hn_analyzers h)) (fst (analyze_qmdl_messages d h ms))"
proof (induction ms arbitrary: h)
  case (Cons m ms)
  have "ar_events (fst (analyze_qmdl_message d h m)) = []
      \<or> length (ar_events (fst (analyze_qmdl_message d h m))) = length (hn_analyzers h)"
    using apply_outcome_keeps(3) [of "outcome_of d m" "h\<lparr>hn_packet_num := Suc (hn_packet_num h)\<rparr>"]
    by (simp add: analyze_qmdl_message_outcome Let_def case_prod_beta)
  moreover have "ar_packet_num (fst (analyze_qmdl_message d h m)) = Some (hn_packet_num h + 1)"
    and "ar_packet_timestamp (fst (analyze_qmdl_message d h m)) = message_time m"
    by (simp_all add: analyze_qmdl_message_outcome Let_def case_prod_beta)
  ultimately show ?case
    using Cons [of "snd (analyze_qmdl_message d h m)"]
    by (simp add: analyze_qmdl_messages_Cons map_upt_Suc del: upt_Suc)
qed simp

section \<open>What reaches the analysis file\<close>

lemma fold_max: "fold max ts (t :: EventType) = max t (fold max ts Informational)"
proof (induction ts arbitrary: t)
  case Nil
  then show ?case by (cases t) (simp_all add: max_def less_eq_EventType_def)
next
  case (Cons u ts)
  show ?case by (simp add: Cons [of "max u t"] Cons [of "max u Informational"] max.left_commute max.commute)
    (metis Cons max.assoc max.commute max.left_commute)
qed

lemma prefix_keeps_severity [simp]: "get_max_event_type (prefix_events p row) = get_max_event_type row"
proof -
  have "map event_type (List.map_filter id (map (map_option (event_message_update f)) evs))
      = map event_type (List.map_filter id evs)" for f and evs :: "Event option list"
    by (induction evs) (auto simp: List.map_filter_simps split: option.splits)
  then show ?thesis by (simp add: prefix_events_def get_max_event_type_def split: option.splits)
qed

lemma prefix_keeps_reason [simp]: "ar_skipped_message_reason (prefix_events p row) = ar_skipped_message_reason row"
  by (simp add: prefix_events_def split: option.splits)

lemma prefix_keeps_empty [simp]: "row_is_empty (prefix_events p row) = row_is_empty row"
  by (simp add: row_is_empty_def contains_warnings_def)

lemma write_rows_append:
  "write_rows (\<lambda>w r. (None, w @ [r])) p t rows w =
     (Inr (fold max (map get_max_event_type rows) t), w @ map (prefix_events p) (filter (\<lambda>r. \<not> row_is_empty r) rows))"
  by (induction rows arbitrary: t w) (simp_all add: write_row_def max.commute)

lemma written_rows:
  "(\<lambda>r. \<not> row_is_empty r) =
     (\<lambda>r. case ar_skipped_message_reason r of None \<Rightarrow> Informational < get_max_event_type r | Some _ \<Rightarrow> True)"
proof
  show "(\<not> row_is_empty r)
      = (case ar_skipped_message_reason r of None \<Rightarrow> Informational < get_max_event_type r | Some _ \<Rightarrow> True)" for r
    by (cases "get_max_event_type r")
       (auto simp: row_is_empty_def contains_warnings_def less_EventType_def split: option.splits)
qed


lemma informational_row_dropped:
  "ar_skipped_message_reason row = None \<Longrightarrow> get_max_event_type row = Informational \<Longrightarrow>
     write_row write w (row :: ('de, 'rrc, 'nas) AnalysisRow) = (None, w)"
  by (simp add: write_row_def row_is_empty_def contains_warnings_def)

section \<open>From a recorded null cipher to the alarm\<close>

definition proposes_null_cipher :: "('rrc, 'nas) decoders \<Rightarrow> 'de DiagParsingError + ('x, 'r) Message \<Rightarrow> bool" where
  "proposes_null_cipher d m \<longleftrightarrow>
     (case outcome_of d m of Read (LTE (DlDcch dcch)) _ \<Rightarrow> EEA0 \<in> set (proposed_ciphers dcch) | _ \<Rightarrow> False)"

lemma null_cipher_kept: "NullCipher \<in> set (hn_analyzers h) \<Longrightarrow> NullCipher \<in> set (hn_analyzers (snd (apply_outcome out h)))"
  by (cases out) (force simp: apply_outcome_def harness_report_skipped_def harness_analyze_element_def harness_each_def
      mark_event_def image_iff Let_def)+

lemma null_cipher_kept_message:
  "NullCipher \<in> set (hn_analyzers h) \<Longrightarrow> NullCipher \<in> set (hn_analyzers (snd (analyze_qmdl_message d h m)))"
  by (simp add: analyze_qmdl_message_outcome Let_def case_prod_beta null_cipher_kept)

lemma null_cipher_kept_run:
  "NullCipher \<in> set (hn_analyzers h) \<Longrightarrow> NullCipher \<in> set (hn_analyzers (snd (analyze_qmdl_messages d h ms)))"
  by (induction ms arbitrary: h) (simp_all add: analyze_qmdl_messages_Cons null_cipher_kept_message)

lemma high_is_top: "t \<le> HighSeverity"
  by (cases t) (simp_all add: less_eq_EventType_def)

lemma fold_max_high: "HighSeverity \<in> set ts \<Longrightarrow> fold max ts (t :: EventType) = HighSeverity"
proof (induction ts arbitrary: t)
  case (Cons u ts)
  show ?case
  proof (cases "u = HighSeverity")
    case True
    then show ?thesis using fold_max [of ts HighSeverity] by (simp add: max_absorb1 high_is_top)
  next
    case False
    with Cons show ?thesis by simp
  qed
qed simp

lemma null_cipher_row:
  assumes "NullCipher \<in> set (hn_analyzers h)" and "proposes_null_cipher d m"
  shows "get_max_event_type (fst (analyze_qmdl_message d h m)) = HighSeverity"
proof -
  from assms(2) obtain dcch ts where out: "outcome_of d m = Read (LTE (DlDcch dcch)) ts"
    and eea0: "EEA0 \<in> set (proposed_ciphers dcch)"
    by (auto simp: proposes_null_cipher_def split: outcome.splits InformationElement.splits LteInformationElement.splits)
  define h1 where "h1 = h\<lparr>hn_packet_num := Suc (hn_packet_num h)\<rparr>"
  let ?evs = "fst (harness_analyze_element h1 (LTE (DlDcch dcch)) ts)"
  obtain ev where ev: "null_cipher_analyze (LTE (DlDcch dcch)) = Some ev" "event_type ev = HighSeverity"
    using eea0 null_cipher_alarm by blast
  have "Some (event_message_update (\<lambda>s. s @ packet_suffix (hn_packet_num h1)) ev) \<in> set ?evs"
    using assms(1) ev(1)
    by (force simp: harness_analyze_element_def harness_each_def mark_event_def h1_def image_iff Let_def intro: bexI [of _ NullCipher])
  then have "HighSeverity \<in> set (map event_type (List.map_filter id ?evs))"
    using ev(2) by (force simp: map_filter_def)
  then show ?thesis
    by (simp add: get_max_event_type_def analyze_qmdl_message_outcome out apply_outcome_def h1_def Let_def case_prod_beta
        fold_max_high del: set_map)
qed

lemma null_cipher_rows:
  "NullCipher \<in> set (hn_analyzers h) \<Longrightarrow> m \<in> set ms \<Longrightarrow> proposes_null_cipher d m \<Longrightarrow>
     HighSeverity \<in> set (map get_max_event_type (fst (analyze_qmdl_messages d h ms)))"
proof (induction ms arbitrary: h)
  case (Cons x ms)
  show ?case
  proof (cases "x = m")
    case True
    with Cons.prems null_cipher_row [of h d m] show ?thesis by (simp add: analyze_qmdl_messages_Cons)
  next
    case False
    with Cons.prems Cons.IH [of "snd (analyze_qmdl_message d h x)"] show ?thesis
      by (simp add: analyze_qmdl_messages_Cons null_cipher_kept_message)
  qed
qed simp

lemma null_cipher_configured:
  "cfg_null_cipher c \<Longrightarrow> NullCipher \<in> set (hn_analyzers (harness_new_with_config c home))"
  by (simp add: harness_new_with_config_def harness_new_def add_if_def add_analyzer_def Let_def)

text \<open>C1: A null cipher sounds the alarm. With the detector turned on, whatever was analysed before and
  whatever else the container holds (broken frames and unreadable messages included), a container with a
  message that proposes the null cipher is reported to the daemon at high severity, on a file that takes
  every row.\<close>

theorem null_cipher_alarm_raised:
  assumes "cfg_null_cipher c" and "m \<in> set messages" and "proposes_null_cipher d m"
    and "aw_harness aw = snd (analyze_qmdl_messages d (harness_new_with_config c home) earlier)"
  shows "fst (analyze_container_inner (\<lambda>w r. (None :: 'io option, w @ [r])) d aw messages p) = Inr HighSeverity"
proof -
  have "NullCipher \<in> set (hn_analyzers (aw_harness aw))"
    using assms(1,4) by (simp add: null_cipher_kept_run null_cipher_configured)
  from null_cipher_rows [OF this assms(2,3)] show ?thesis
    by (simp add: analyze_container_inner_def write_rows_append case_prod_beta fold_max_high del: set_map)
qed

theorem null_cipher_alarm_raised_witness:
  "fst (analyze_container_inner (\<lambda>w r. (None :: unit option, w @ [r])) sample_decoders
     \<lparr>aw_file = [], aw_harness = snd (analyze_qmdl_messages sample_decoders
        (harness_new_with_config analyzer_config_default []) sample_messages)\<rparr>
     (sample_messages @ [Inr (MessageLog 0 0 0 0 0 (LteRrcOtaMessage 8 (OtaV8 0 0 0 0 54540 0x123 6 0 1 [7])))]) None)
   = Inr HighSeverity"
  by (rule null_cipher_alarm_raised)
    (auto simp: analyzer_config_default_def proposes_null_cipher_def outcome_of_def log_to_gsmtap_def rrc_ota_type_def
      pdu_table_def get_pdu_num_def take_payload_def gsmtap_header_new_def ie_try_from_def rrc_element_def decode_as_def
      sample_decoders_def proposed_ciphers_def Let_def)

end
