(* ===== verification/AnalysisQueue.thy ===== *)
theory AnalysisQueue
  imports RhPrelude
begin

text \<open>
  The queue of recordings to analyse again (\<open>daemon/src/analysis.rs\<close>): the status that the web interface
  reads, the request that queues a recording, and the task that works the queue off, with the channel
  and the lock between them. A request that finds the channel full waits for room with the status
  still locked, so the lock is part of the model. Whether a recording can be read to its end
  (\<open>get_next_message().expect\<close> panics otherwise) is the parameter \<open>readable\<close>; what the analysis
  itself does is in \<open>Harness\<close>.
\<close>

section \<open>The status\<close>

record AnalysisStatus =
  as_queued :: "string list"
  as_running :: "string option"
  as_finished :: "string list"

definition status_new :: "string list \<Rightarrow> AnalysisStatus" where
  "status_new entries = \<lparr>as_queued = [], as_running = None, as_finished = entries\<rparr>"

definition queue_qmdl :: "string \<Rightarrow> AnalysisStatus \<Rightarrow> bool \<times> AnalysisStatus" where
  "queue_qmdl name st =
     (if name \<in> set (as_queued st) \<or> as_running st = Some name then (False, st)
      else (True, st\<lparr>as_queued := as_queued st @ [name]\<rparr>))"

text \<open>\<open>entry_names.iter().any(...)\<close> stops at the first name that is queued.\<close>

fun queue_any :: "string list \<Rightarrow> AnalysisStatus \<Rightarrow> bool \<times> AnalysisStatus" where
  "queue_any [] st = (False, st)"
| "queue_any (name # names) st =
     (case queue_qmdl name st of (True, st') \<Rightarrow> (True, st') | (False, st') \<Rightarrow> queue_any names st')"

text \<open>The recordings that "all" stands for: every entry but the one being recorded. \<open>Vec::remove\<close>
  panics past the end.\<close>

fun all_but :: "nat option \<Rightarrow> string list \<Rightarrow> string list option" where
  "all_but None entries = Some entries"
| "all_but (Some i) entries = (if i < length entries then Some (take i entries @ drop (Suc i) entries) else None)"

definition queue_request :: "string \<Rightarrow> string list \<Rightarrow> nat option \<Rightarrow> AnalysisStatus \<Rightarrow> (bool \<times> AnalysisStatus) option" where
  "queue_request name entries current st =
     (if name = [] then map_option (\<lambda>names. queue_any names st) (all_but current entries)
      else Some (queue_qmdl name st))"

section \<open>The channel, the lock and the worker\<close>

datatype AnalysisCtrlMessage = NewFilesQueued | RecordingFinished string | Exit

definition CHANNEL_CAPACITY :: nat where "CHANNEL_CAPACITY = 5"

text \<open>Where the worker is: waiting for a message; about to count the queue; about to note a finished
  recording; about to start the next of \<open>k\<close> counted recordings; opening, analysing and finishing one with
  \<open>k\<close> more counted; or gone.\<close>

datatype Worker = Receiving | Counting | Noting string | Working nat
  | Opening string nat | Analysing string nat | Finishing nat | Returned | Panicked

record AnalysisSystem =
  sy_status :: AnalysisStatus
  sy_channel :: "AnalysisCtrlMessage list"
  sy_worker :: Worker
  sy_waiting :: "AnalysisCtrlMessage option"  \<comment> \<open>a request waiting for room, holding both locks\<close>

definition system_new :: "string list \<Rightarrow> AnalysisSystem" where
  "system_new entries = \<lparr>sy_status = status_new entries, sy_channel = [], sy_worker = Receiving, sy_waiting = None\<rparr>"

definition receiver_gone :: "AnalysisSystem \<Rightarrow> bool" where
  "receiver_gone s \<longleftrightarrow> sy_worker s \<in> {Returned, Panicked}"

definition has_room :: "AnalysisSystem \<Rightarrow> bool" where
  "has_room s \<longleftrightarrow> length (sy_channel s) < CHANNEL_CAPACITY"

definition push :: "AnalysisCtrlMessage \<Rightarrow> AnalysisSystem \<Rightarrow> AnalysisSystem" where
  "push m s = s\<lparr>sy_channel := sy_channel s @ [m]\<rparr>"

definition send_holding :: "AnalysisCtrlMessage \<Rightarrow> AnalysisSystem \<Rightarrow> AnalysisSystem" where
  "send_holding m s =
     (if receiver_gone s then s else if has_room s then push m s else s\<lparr>sy_waiting := Some m\<rparr>)"

definition start_analysis :: "string \<Rightarrow> string list \<Rightarrow> nat option \<Rightarrow> AnalysisSystem \<Rightarrow> AnalysisSystem option" where
  "start_analysis name entries current s =
     (if sy_waiting s \<noteq> None then None
      else map_option (\<lambda>(queued, st). if queued then send_holding NewFilesQueued (s\<lparr>sy_status := st\<rparr>) else s\<lparr>sy_status := st\<rparr>)
        (queue_request name entries current (sy_status s)))"

definition dequeue_to_running :: "AnalysisStatus \<Rightarrow> (string \<times> AnalysisStatus) option" where
  "dequeue_to_running st =
     (case as_queued st of
        [] \<Rightarrow> None
      | name # names \<Rightarrow>
          if as_running st = None then Some (name, st\<lparr>as_queued := names, as_running := Some name\<rparr>) else None)"

definition finish_running_analysis :: "AnalysisStatus \<Rightarrow> AnalysisStatus option" where
  "finish_running_analysis st =
     map_option (\<lambda>name. st\<lparr>as_running := None, as_finished := as_finished st @ [name]\<rparr>) (as_running st)"

fun after_receive :: "AnalysisCtrlMessage \<Rightarrow> Worker" where
  "after_receive NewFilesQueued = Counting"
| "after_receive (RecordingFinished name) = Noting name"
| "after_receive Exit = Returned"

text \<open>One step of the worker; \<open>None\<close> when it has to wait, for a message or for a lock, or is gone.\<close>

definition unless_locked :: "AnalysisSystem \<Rightarrow> AnalysisSystem \<Rightarrow> AnalysisSystem option" where
  "unless_locked s s' = (if sy_waiting s = None then Some s' else None)"

fun worker_step :: "(string \<Rightarrow> bool) \<Rightarrow> Worker \<Rightarrow> AnalysisSystem \<Rightarrow> AnalysisSystem option" where
  "worker_step readable Receiving s =
     (case sy_channel s of [] \<Rightarrow> None | m # ms \<Rightarrow> Some (s\<lparr>sy_channel := ms, sy_worker := after_receive m\<rparr>))"
| "worker_step readable Counting s =
     unless_locked s (s\<lparr>sy_worker := Working (length (as_queued (sy_status s)))\<rparr>)"
| "worker_step readable (Noting name) s =
     unless_locked s (s\<lparr>sy_status := (sy_status s)\<lparr>as_finished := as_finished (sy_status s) @ [name]\<rparr>, sy_worker := Receiving\<rparr>)"
| "worker_step readable (Working 0) s = Some (s\<lparr>sy_worker := Receiving\<rparr>)"
| "worker_step readable (Working (Suc k)) s =
     unless_locked s (case dequeue_to_running (sy_status s) of
         None \<Rightarrow> s\<lparr>sy_worker := Panicked\<rparr>
       | Some (name, st) \<Rightarrow> s\<lparr>sy_status := st, sy_worker := Opening name k\<rparr>)"
| "worker_step readable (Opening name k) s = unless_locked s (s\<lparr>sy_worker := Analysing name k\<rparr>)"
| "worker_step readable (Analysing name k) s =
     Some (s\<lparr>sy_worker := (if readable name then Finishing k else Panicked)\<rparr>)"
| "worker_step readable (Finishing k) s =
     unless_locked s (case finish_running_analysis (sy_status s) of
         None \<Rightarrow> s\<lparr>sy_worker := Panicked\<rparr>
       | Some st \<Rightarrow> s\<lparr>sy_status := st, sy_worker := Working k\<rparr>)"
| "worker_step readable Returned s = None"
| "worker_step readable Panicked s = None"

text \<open>The system: requests, the end of a request's wait, the other senders (a recording that ended, the
  shutdown) and the worker, in any order.\<close>

inductive queue_step :: "(string \<Rightarrow> bool) \<Rightarrow> AnalysisSystem \<Rightarrow> AnalysisSystem \<Rightarrow> bool" for readable where
  request: "start_analysis name entries current s = Some s' \<Longrightarrow> queue_step readable s s'"
| resume: "sy_waiting s = Some m \<Longrightarrow> has_room s \<or> receiver_gone s
    \<Longrightarrow> queue_step readable s (send_holding m (s\<lparr>sy_waiting := None\<rparr>))"
| notify: "has_room s \<Longrightarrow> \<not> receiver_gone s \<Longrightarrow> m = RecordingFinished name \<or> m = Exit
    \<Longrightarrow> queue_step readable s (push m s)"
| worker: "worker_step readable (sy_worker s) s = Some s' \<Longrightarrow> queue_step readable s s'"

inductive_cases queue_stepE: "queue_step readable s s'"

abbreviation queue_reachable :: "(string \<Rightarrow> bool) \<Rightarrow> string list \<Rightarrow> AnalysisSystem \<Rightarrow> bool" where
  "queue_reachable readable entries s \<equiv> (queue_step readable)\<^sup>*\<^sup>* (system_new entries) s"

section \<open>The invariant\<close>

fun still_counted :: "Worker \<Rightarrow> nat" where
  "still_counted (Working k) = k"
| "still_counted (Opening _ k) = k"
| "still_counted (Analysing _ k) = k"
| "still_counted (Finishing k) = k"
| "still_counted _ = 0"

fun busy :: "Worker \<Rightarrow> bool" where
  "busy (Opening _ _) = True"
| "busy (Analysing _ _) = True"
| "busy (Finishing _) = True"
| "busy _ = False"

text \<open>What is still to be analysed, the recording being analysed first.\<close>

definition todo :: "AnalysisSystem \<Rightarrow> string list" where
  "todo s = (case as_running (sy_status s) of None \<Rightarrow> [] | Some name \<Rightarrow> [name]) @ as_queued (sy_status s)"

definition told :: "AnalysisSystem \<Rightarrow> bool" where
  "told s \<longleftrightarrow> NewFilesQueued \<in> set (sy_channel s) \<or> sy_waiting s = Some NewFilesQueued \<or> sy_worker s = Counting"

definition queue_inv :: "AnalysisSystem \<Rightarrow> bool" where
  "queue_inv s \<longleftrightarrow>
     distinct (todo s)
   \<and> (sy_worker s \<noteq> Panicked \<longrightarrow> (as_running (sy_status s) \<noteq> None) = busy (sy_worker s))
   \<and> still_counted (sy_worker s) \<le> length (as_queued (sy_status s))
   \<and> (\<not> receiver_gone s \<and> still_counted (sy_worker s) < length (as_queued (sy_status s)) \<longrightarrow> told s)"

lemmas queue_defs = queue_inv_def todo_def told_def receiver_gone_def push_def send_holding_def

lemma queue_inv_new: "queue_inv (system_new entries)"
  by (simp add: queue_defs system_new_def status_new_def)

lemma queue_any_cases:
  "queue_any names st = (False, st) \<or> (\<exists>name \<in> set names. queue_any names st = queue_qmdl name st \<and> fst (queue_qmdl name st))"
proof (induction names)
  case (Cons name names)
  then show ?case by (auto simp: queue_qmdl_def)
qed simp

lemma queue_request_cases:
  assumes "queue_request name entries current st = Some (q, st')"
  obtains "\<not> q" "st' = st"
  | n where "q" "st' = st\<lparr>as_queued := as_queued st @ [n]\<rparr>" "n \<notin> set (as_queued st)" "as_running st \<noteq> Some n"
  using assms queue_any_cases [of _ st]
  by (auto simp: queue_request_def queue_qmdl_def split: if_splits) (metis fst_conv prod.inject)+

text \<open>A request appends one new name and tells the worker, or changes nothing.\<close>

lemma start_analysis_cases:
  assumes "start_analysis name entries current s = Some s'"
  obtains "s' = s"
  | n st where "sy_waiting s = None" "n \<notin> set (todo s)"
      "st = (sy_status s)\<lparr>as_queued := as_queued (sy_status s) @ [n]\<rparr>"
      "s' = send_holding NewFilesQueued (s\<lparr>sy_status := st\<rparr>)"
proof -
  from assms obtain q st where free: "sy_waiting s = None" and r: "queue_request name entries current (sy_status s) = Some (q, st)"
    and s': "s' = (if q then send_holding NewFilesQueued (s\<lparr>sy_status := st\<rparr>) else s\<lparr>sy_status := st\<rparr>)"
    by (auto simp: start_analysis_def split: if_splits)
  from r show ?thesis
  proof (cases rule: queue_request_cases)
    case 1
    then show ?thesis using s' that(1) by simp
  next
    case (2 n)
    then show ?thesis using free s' that(2) [of n st] by (auto simp: todo_def split: option.splits)
  qed
qed

lemma send_holding_sel [simp]:
  "sy_status (send_holding m s) = sy_status s"
  "sy_worker (send_holding m s) = sy_worker s"
  by (simp_all add: send_holding_def push_def)

lemma queue_inv_send:
  assumes "queue_inv s"
  shows "queue_inv (send_holding NewFilesQueued s)"
  using assms by (auto simp: queue_defs)

lemma queue_inv_request:
  assumes "queue_inv s" and "n \<notin> set (todo s)"
  shows "queue_inv (send_holding NewFilesQueued
      (s\<lparr>sy_status := (sy_status s)\<lparr>as_queued := as_queued (sy_status s) @ [n]\<rparr>\<rparr>))"
  using assms by (auto simp: queue_defs split: option.splits)

lemma after_receive_idle [simp]: "still_counted (after_receive m) = 0" "busy (after_receive m) \<longleftrightarrow> False"
  by (cases m; simp)+

lemma queue_inv_worker:
  assumes "queue_inv s" and "worker_step readable (sy_worker s) s = Some s'"
  shows "queue_inv s'"
  using assms
  by (cases "(readable, sy_worker s, s)" rule: worker_step.cases)
     (auto simp: queue_defs unless_locked_def dequeue_to_running_def finish_running_analysis_def Suc_le_eq
       split: list.splits if_splits option.splits AnalysisCtrlMessage.splits)

lemma queue_inv_step:
  assumes "queue_inv s" and "queue_step readable s s'"
  shows "queue_inv s'"
  using assms(2)
proof (cases rule: queue_step.cases)
  case (request name entries current)
  with assms(1) show ?thesis by (auto elim!: start_analysis_cases intro: queue_inv_request)
next
  case (resume m)
  with assms(1) show ?thesis by (auto simp: queue_defs has_room_def)
next
  case (notify m name)
  with assms(1) show ?thesis by (auto simp: queue_defs)
next
  case worker
  with assms(1) show ?thesis by (rule queue_inv_worker)
qed

lemma queue_inv_steps: "(queue_step readable)\<^sup>*\<^sup>* s s' \<Longrightarrow> queue_inv s \<Longrightarrow> queue_inv s'"
  by (induction rule: rtranclp_induct) (auto intro: queue_inv_step)

lemma queue_inv_reachable: "queue_reachable readable entries s \<Longrightarrow> queue_inv s"
  by (rule queue_inv_steps [OF _ queue_inv_new])

section \<open>The worker's assertions hold\<close>

text \<open>The analysis worker never fails on its own bookkeeping: in no order of requests, notifications and
  its own steps does taking the first of an empty queue, the assertion that nothing is running or the
  unwrap of the running recording fail. It can only die reading a recording that cannot be read.\<close>

theorem worker_dies_only_reading:
  assumes "queue_reachable readable entries s" and "worker_step readable (sy_worker s) s = Some s'"
    and "sy_worker s' = Panicked"
  shows "\<exists>name k. sy_worker s = Analysing name k \<and> \<not> readable name"
  using queue_inv_reachable [OF assms(1)] assms(2,3)
  by (cases "(readable, sy_worker s, s)" rule: worker_step.cases)
     (auto simp: queue_defs unless_locked_def dequeue_to_running_def finish_running_analysis_def
       split: list.splits if_splits option.splits AnalysisCtrlMessage.splits elim: after_receive.elims)

section \<open>First come, first analysed\<close>

text \<open>What a user may rely on: a line of distinct names that new ones join at the end, whose first is
  finished next, and a list of finished ones that only grows.\<close>

inductive line_step :: "string list \<times> string list \<Rightarrow> string list \<times> string list \<Rightarrow> bool" where
  join: "name \<notin> set line \<Longrightarrow> line_step (line, fin) (line @ [name], fin)"
| serve: "line_step (name # line, fin) (line, fin @ [name])"
| noted: "line_step (line, fin) (line, fin @ [name])"

definition line_of :: "AnalysisSystem \<Rightarrow> string list \<times> string list" where
  "line_of s = (todo s, as_finished (sy_status s))"

lemma line_of_send [simp]: "line_of (send_holding m s) = line_of s"
  by (simp add: line_of_def todo_def)

lemma worker_step_line:
  assumes "queue_inv s" and "worker_step readable (sy_worker s) s = Some s'"
  shows "line_of s' = line_of s \<or> line_step (line_of s) (line_of s')"
  using assms
  by (cases "(readable, sy_worker s, s)" rule: worker_step.cases)
     (auto simp: line_of_def queue_defs unless_locked_def dequeue_to_running_def finish_running_analysis_def
       split: list.splits if_splits option.splits AnalysisCtrlMessage.splits intro: line_step.intros)

text \<open>C22: The queue behaves as a line. Every step of the whole system (request, waiting request, shutdown,
  worker) either changes nothing of the line of recordings to analyse and the list of finished ones, or
  is one step of it: a new name joins at the end, the first is finished, or a recording that ended is noted.
  A name is never in the line twice and never lost from it.\<close>

theorem queue_refines_line:
  assumes "queue_reachable readable entries s" and "queue_step readable s s'"
  shows "line_of s' = line_of s \<or> line_step (line_of s) (line_of s')"
  using assms(2)
proof (cases rule: queue_step.cases)
  case (request name entries current)
  then show ?thesis
    by (auto elim!: start_analysis_cases simp: line_of_def todo_def split: option.splits)
       (auto simp: line_step.simps)
next
  case worker
  with queue_inv_reachable [OF assms(1)] show ?thesis by (rule worker_step_line)
qed (auto simp: line_of_def todo_def push_def)

section \<open>The worker drains the queue\<close>

fun stage :: "Worker \<Rightarrow> nat \<Rightarrow> nat" where
  "stage Counting q = 4 * q + 2"
| "stage (Noting _) q = 1"
| "stage (Working k) q = 4 * k + 1"
| "stage (Opening _ k) q = 4 * k + 4"
| "stage (Analysing _ k) q = 4 * k + 3"
| "stage (Finishing k) q = 4 * k + 2"
| "stage _ q = 0"

definition worker_measure :: "(AnalysisSystem \<times> AnalysisSystem) set" where
  "worker_measure = measures [\<lambda>s. length (sy_channel s), \<lambda>s. stage (sy_worker s) (length (as_queued (sy_status s)))]"

lemma wf_worker_measure: "wf worker_measure"
  by (simp add: worker_measure_def)

lemma worker_step_decreases:
  assumes "worker_step readable (sy_worker s) s = Some s'"
  shows "(s', s) \<in> worker_measure"
  using assms
  by (cases "(readable, sy_worker s, s)" rule: worker_step.cases)
     (auto simp: worker_measure_def unless_locked_def split: list.splits if_splits option.splits)

text \<open>The situation in which the worker is on its own: nobody holds the lock, no shutdown is under way.\<close>

definition undisturbed :: "AnalysisSystem \<Rightarrow> bool" where
  "undisturbed s \<longleftrightarrow> sy_waiting s = None \<and> Exit \<notin> set (sy_channel s) \<and> \<not> receiver_gone s"

lemma undisturbed_step:
  assumes "queue_inv s" and "undisturbed s" and "worker_step (\<lambda>_. True) (sy_worker s) s = Some s'"
  shows "undisturbed s' \<and> set (todo s) \<union> set (as_finished (sy_status s)) \<subseteq> set (todo s') \<union> set (as_finished (sy_status s'))"
  using assms
  by (cases "(\<lambda>_::string. True, sy_worker s, s)" rule: worker_step.cases)
     (auto simp: undisturbed_def queue_defs unless_locked_def dequeue_to_running_def finish_running_analysis_def
       split: list.splits if_splits option.splits elim: after_receive.elims)

lemma worker_step_None:
  assumes "queue_inv s" and "undisturbed s" and "worker_step (\<lambda>_. True) (sy_worker s) s = None"
  shows "sy_worker s = Receiving \<and> sy_channel s = [] \<and> todo s = []"
  using assms
  by (cases "(\<lambda>_::string. True, sy_worker s, s)" rule: worker_step.cases)
     (auto simp: undisturbed_def queue_defs unless_locked_def split: list.splits)

inductive worker_steps :: "(string \<Rightarrow> bool) \<Rightarrow> AnalysisSystem \<Rightarrow> AnalysisSystem \<Rightarrow> bool" for readable where
  stop: "worker_step readable (sy_worker s) s = None \<Longrightarrow> worker_steps readable s s"
| go: "worker_step readable (sy_worker s) s = Some s' \<Longrightarrow> worker_steps readable s' s'' \<Longrightarrow> worker_steps readable s s''"

lemma worker_drains:
  "queue_inv s \<Longrightarrow> undisturbed s \<Longrightarrow>
   \<exists>s'. worker_steps (\<lambda>_. True) s s' \<and> sy_worker s' = Receiving \<and> sy_channel s' = [] \<and> todo s' = []
     \<and> set (todo s) \<union> set (as_finished (sy_status s)) \<subseteq> set (as_finished (sy_status s'))"
proof (induction s rule: wf_induct_rule [OF wf_worker_measure])
  case (1 s)
  show ?case
  proof (cases "worker_step (\<lambda>_. True) (sy_worker s) s")
    case None
    with worker_step_None [OF "1.prems" None] show ?thesis
      by (intro exI [of _ s]) (auto intro: worker_steps.stop)
  next
    case (Some s1)
    note keep = undisturbed_step [OF "1.prems" Some]
    from "1.IH" [OF worker_step_decreases [OF Some] queue_inv_worker [OF "1.prems"(1) Some]] keep
    obtain s' where "worker_steps (\<lambda>_. True) s1 s'" "sy_worker s' = Receiving" "sy_channel s' = []" "todo s' = []"
      "set (todo s1) \<union> set (as_finished (sy_status s1)) \<subseteq> set (as_finished (sy_status s'))"
      by auto
    with keep Some show ?thesis by (intro exI [of _ s']) (auto intro: worker_steps.go)
  qed
qed


section \<open>Concrete schedules\<close>

datatype Act = Ask string | Tick

fun schedule :: "(string \<Rightarrow> bool) \<Rightarrow> Act list \<Rightarrow> AnalysisSystem \<Rightarrow> AnalysisSystem option" where
  "schedule readable [] s = Some s"
| "schedule readable (Ask name # acts) s = Option.bind (start_analysis name [] None s) (schedule readable acts)"
| "schedule readable (Tick # acts) s = Option.bind (worker_step readable (sy_worker s) s) (schedule readable acts)"

lemma schedule_steps: "schedule readable acts s = Some s' \<Longrightarrow> (queue_step readable)\<^sup>*\<^sup>* s s'"
  by (induction readable acts s rule: schedule.induct)
     (auto simp: Option.bind_eq_Some_conv intro: converse_rtranclp_into_rtranclp queue_step.request queue_step.worker)

definition all_but_a :: "string \<Rightarrow> bool" where
  "all_but_a name \<longleftrightarrow> name \<noteq> ''a''"

definition sample_system :: "Act list \<Rightarrow> AnalysisSystem" where
  "sample_system acts = the (schedule all_but_a acts (system_new []))"

lemma sample_reachable:
  "schedule all_but_a acts (system_new []) \<noteq> None \<Longrightarrow> queue_reachable all_but_a [] (sample_system acts)"
  using schedule_steps by (force simp: sample_system_def)

definition at_unreadable :: AnalysisSystem where
  "at_unreadable = sample_system [Ask ''a'', Tick, Tick, Tick, Tick]"

theorem worker_dies_only_reading_witness:
  "\<exists>name k. sy_worker at_unreadable = Analysing name k \<and> \<not> all_but_a name"
proof (rule worker_dies_only_reading)
  show "queue_reachable all_but_a [] at_unreadable"
    unfolding at_unreadable_def by (rule sample_reachable) code_simp
  show "worker_step all_but_a (sy_worker at_unreadable) at_unreadable = Some (at_unreadable\<lparr>sy_worker := Panicked\<rparr>)"
    by code_simp
  show "sy_worker (at_unreadable\<lparr>sy_worker := Panicked\<rparr>) = Panicked" by simp
qed

definition two_asked :: AnalysisSystem where
  "two_asked = sample_system [Ask ''b'', Tick, Ask ''c'']"

lemma two_asked_reachable: "queue_reachable all_but_a [] two_asked"
  unfolding two_asked_def by (rule sample_reachable) code_simp

theorem queue_refines_line_witness:
  "let s' = the (start_analysis ''d'' [] None two_asked) in
     line_of s' = line_of two_asked \<or> line_step (line_of two_asked) (line_of s')"
  unfolding Let_def
proof (rule queue_refines_line [OF two_asked_reachable queue_step.request])
  show "start_analysis ''d'' [] None two_asked = Some (the (start_analysis ''d'' [] None two_asked))"
    by code_simp
qed


section \<open>What goes wrong\<close>

definition freezing :: "Act list" where
  "freezing = [Ask ''b'', Tick, Tick, Tick, Tick, Ask ''c'', Ask ''d'', Ask ''e'', Ask ''f'', Ask ''g'', Ask ''h'', Tick]"

definition frozen :: AnalysisSystem where
  "frozen = sample_system freezing"

lemma frozen_facts:
  "schedule all_but_a freezing (system_new []) \<noteq> None"
  "sy_waiting frozen = Some NewFilesQueued" "\<not> has_room frozen" "\<not> receiver_gone frozen"
  "sy_worker frozen = Finishing 0" "todo frozen \<noteq> []"
  by code_simp+


text \<open>Asking for all recordings queues the first new one only.\<close>

theorem all_queues_one:
  "map_option (as_queued \<circ> snd) (queue_request [] [''a'', ''b'', ''c''] (Some 2) (status_new [])) = Some [''a'']"
  by code_simp

end
