(* ===== verification/Io.thy ===== *)
theory Io
  imports Observation "HOL-Library.State_Monad"
begin

text \<open>
  The outside world of the daemon's file code (\<open>daemon/src/qmdl_store.rs\<close>, \<open>cleanup.rs\<close>, \<open>diag.rs\<close>) and
  the operations of \<open>tokio::fs\<close> it uses, in the state monad. A state of a component extends \<open>os\<close>, so an
  operation runs in the state of any component. Failures are part of the world: \<open>w_faults\<close> says for each
  operation to come whether it fails, and after how many bytes a write fails. A failing operation
  changes nothing, but for the bytes it wrote. \<open>wp m Q s\<close> states that \<open>m\<close>, run from \<open>s\<close>, ends with \<open>Q\<close> of its result and
  final state; the simplifier computes it (\<open>wp_simps\<close>).
\<close>

named_theorems wp_simps "what an operation guarantees, computed"

section \<open>Results and weakest preconditions\<close>

text \<open>\<open>m?\<close> followed by \<open>f\<close>, and \<open>m.map_error(g)\<close>.\<close>

definition attempt :: "('s, 'e + 'a) state \<Rightarrow> ('a \<Rightarrow> ('s, 'e + 'b) state) \<Rightarrow> ('s, 'e + 'b) state" where
  "attempt m f = do { r \<leftarrow> m; case r of Inl e \<Rightarrow> State_Monad.return (Inl e) | Inr x \<Rightarrow> f x }"

definition map_error :: "('e \<Rightarrow> 'f) \<Rightarrow> ('s, 'e + 'a) state \<Rightarrow> ('s, 'f + 'a) state" where
  "map_error g m = do { r \<leftarrow> m; State_Monad.return (case r of Inl e \<Rightarrow> Inl (g e) | Inr x \<Rightarrow> Inr x) }"

definition ok :: "'a \<Rightarrow> ('s, 'e + 'a) state" where
  "ok x = State_Monad.return (Inr x)"

definition fail :: "'e \<Rightarrow> ('s, 'e + 'a) state" where
  "fail e = State_Monad.return (Inl e)"

definition wp :: "('s, 'a) state \<Rightarrow> ('a \<Rightarrow> 's \<Rightarrow> bool) \<Rightarrow> 's \<Rightarrow> bool" where
  "wp m Q s = (case run_state m s of (x, s') \<Rightarrow> Q x s')"

lemma wp_return [wp_simps]: "wp (State_Monad.return x) Q = Q x"
  by (rule ext) (simp add: wp_def)

lemma wp_get [wp_simps]: "wp State_Monad.get Q s = Q s s"
  by (simp add: wp_def)

lemma wp_set [wp_simps]: "wp (State_Monad.set t) Q s = Q () t"
  by (simp add: wp_def)

lemma wp_update [wp_simps]: "wp (State_Monad.update f) Q s = Q () (f s)"
  by (simp add: wp_def State_Monad.update_def)

lemma wp_bind [wp_simps]: "wp (State_Monad.bind m f) Q = wp m (\<lambda>x. wp (f x) Q)"
  by (rule ext) (simp add: wp_def case_prod_beta)

lemma wp_ok [wp_simps]: "wp (ok x) Q = Q (Inr x)"
  by (rule ext) (simp add: wp_def ok_def)

lemma wp_fail [wp_simps]: "wp (fail e) Q = Q (Inl e)"
  by (rule ext) (simp add: wp_def fail_def)

lemma wp_attempt [wp_simps]:
  "wp (attempt m f) Q = wp m (\<lambda>r s'. case r of Inl e \<Rightarrow> Q (Inl e) s' | Inr x \<Rightarrow> wp (f x) Q s')"
  by (rule ext) (simp add: wp_def attempt_def case_prod_beta split: sum.splits)

lemma wp_map_error [wp_simps]:
  "wp (map_error g m) Q = wp m (\<lambda>r. case r of Inl e \<Rightarrow> Q (Inl (g e)) | Inr x \<Rightarrow> Q (Inr x))"
  by (rule ext) (simp add: wp_def map_error_def case_prod_beta split: sum.splits)

lemma wp_if [wp_simps]: "wp (if c then m else n) Q = (if c then wp m Q else wp n Q)"
  by simp

lemma wp_mono: "wp m P s \<Longrightarrow> (\<And>x s'. P x s' \<Longrightarrow> Q x s') \<Longrightarrow> wp m Q s"
  by (auto simp: wp_def)

lemma wp_conj: "wp m P s \<Longrightarrow> wp m Q s \<Longrightarrow> wp m (\<lambda>x s'. P x s' \<and> Q x s') s"
  by (auto simp: wp_def)

lemma wp_run: "wp m Q s \<Longrightarrow> run_state m s = (x, s') \<Longrightarrow> Q x s'"
  by (simp add: wp_def)

lemma run_wp: "(\<And>x s'. run_state m s = (x, s') \<Longrightarrow> Q x s') \<Longrightarrow> wp m Q s"
  by (cases "run_state m s") (simp add: wp_def)

section \<open>The world\<close>

datatype path = Path (p_dir: ustr) (p_name: ustr)  \<comment> \<open>a directory and a name in it\<close>

datatype IoError = NotFound | AlreadyExists | OtherIo

record os =
  w_files :: "path \<Rightarrow> bytes option"
  w_dirs :: "ustr list"
  w_faults :: "nat option list"  \<comment> \<open>none once the list is used up\<close>
  w_clock :: "nat \<Rightarrow> int"  \<comment> \<open>the corrected clock, reading by reading, in nanoseconds\<close>
  w_clock_reads :: nat
  w_space :: "nat \<Rightarrow> nat option option"  \<comment> \<open>\<open>DiskStats\<close>: failed, or the free bytes if known\<close>
  w_space_reads :: nat
  w_sequence :: nat

definition get_adjusted_now :: "('z os_scheme, int) state" where
  "get_adjusted_now = do {
     s \<leftarrow> State_Monad.get;
     State_Monad.set (s\<lparr>w_clock_reads := Suc (w_clock_reads s)\<rparr>);
     State_Monad.return (w_clock s (w_clock_reads s)) }"

definition disk_stats :: "('z os_scheme, nat option option) state" where
  "disk_stats = do {
     s \<leftarrow> State_Monad.get;
     State_Monad.set (s\<lparr>w_space_reads := Suc (w_space_reads s)\<rparr>);
     State_Monad.return (w_space s (w_space_reads s)) }"

section \<open>File operations\<close>

text \<open>One operation: meets the next fault, if any, and gives its result and the files after it.\<close>

definition io_op :: "(nat option \<Rightarrow> (path \<Rightarrow> bytes option) \<Rightarrow> (IoError + 'a) \<times> (path \<Rightarrow> bytes option))
    \<Rightarrow> ('z os_scheme, IoError + 'a) state" where
  "io_op f = do {
     s \<leftarrow> State_Monad.get;
     let (fault, faults) = (case w_faults s of [] \<Rightarrow> (None, []) | x # xs \<Rightarrow> (x, xs));
     let (r, files) = f fault (w_files s);
     State_Monad.set (s\<lparr>w_faults := faults, w_files := files\<rparr>);
     State_Monad.return r }"

definition unless_fault :: "((path \<Rightarrow> bytes option) \<Rightarrow> (IoError + 'a) \<times> (path \<Rightarrow> bytes option))
    \<Rightarrow> ('z os_scheme, IoError + 'a) state" where
  "unless_fault f = io_op (\<lambda>fault fs. case fault of Some _ \<Rightarrow> (Inl OtherIo, fs) | None \<Rightarrow> f fs)"

definition create_new :: "path \<Rightarrow> ('z os_scheme, IoError + unit) state" where
  "create_new p = unless_fault (\<lambda>fs. if fs p = None then (Inr (), fs(p \<mapsto> [])) else (Inl AlreadyExists, fs))"

definition create_truncate :: "path \<Rightarrow> ('z os_scheme, IoError + unit) state" where
  "create_truncate p = unless_fault (\<lambda>fs. (Inr (), fs(p \<mapsto> [])))"

definition open_truncate :: "path \<Rightarrow> ('z os_scheme, IoError + unit) state" where
  "open_truncate p = unless_fault (\<lambda>fs. if fs p = None then (Inl NotFound, fs) else (Inr (), fs(p \<mapsto> [])))"

definition open_append :: "path \<Rightarrow> ('z os_scheme, IoError + unit) state" where
  "open_append p = unless_fault (\<lambda>fs. (Inr (), if fs p = None then fs(p \<mapsto> []) else fs))"

definition read_file :: "path \<Rightarrow> ('z os_scheme, IoError + bytes) state" where
  "read_file p = unless_fault (\<lambda>fs. case fs p of None \<Rightarrow> (Inl NotFound, fs) | Some bs \<Rightarrow> (Inr bs, fs))"

definition rename_file :: "path \<Rightarrow> path \<Rightarrow> ('z os_scheme, IoError + unit) state" where
  "rename_file p q = unless_fault (\<lambda>fs. case fs p of
     None \<Rightarrow> (Inl NotFound, fs) | Some bs \<Rightarrow> (Inr (), fs(p := None, q := Some bs)))"

definition remove_file :: "path \<Rightarrow> ('z os_scheme, IoError + unit) state" where
  "remove_file p = unless_fault (\<lambda>fs. if fs p = None then (Inl NotFound, fs) else (Inr (), fs(p := None)))"

text \<open>\<open>write_all\<close> at the end of an open file. A file removed meanwhile takes the bytes with it.\<close>

definition write_all :: "path \<Rightarrow> bytes \<Rightarrow> ('z os_scheme, IoError + unit) state" where
  "write_all p bs = io_op (\<lambda>fault fs.
     let written = (case fault of None \<Rightarrow> bs | Some n \<Rightarrow> take n bs);
         result = (case fault of None \<Rightarrow> Inr () | Some _ \<Rightarrow> Inl OtherIo) in
     (result, case fs p of None \<Rightarrow> fs | Some old \<Rightarrow> fs(p \<mapsto> old @ written)))"

definition dir_exists :: "ustr \<Rightarrow> ('z os_scheme, IoError + bool) state" where
  "dir_exists d = do { s \<leftarrow> State_Monad.get; unless_fault (\<lambda>fs. (Inr (d \<in> set (w_dirs s)), fs)) }"

definition file_exists :: "path \<Rightarrow> ('z os_scheme, IoError + bool) state" where
  "file_exists p = unless_fault (\<lambda>fs. (Inr (fs p \<noteq> None), fs))"

definition create_dir_all :: "ustr \<Rightarrow> ('z os_scheme, IoError + unit) state" where
  "create_dir_all d = attempt (unless_fault (\<lambda>fs. (Inr (), fs)))
     (\<lambda>_. do { State_Monad.update (\<lambda>s. s\<lparr>w_dirs := (if d \<in> set (w_dirs s) then w_dirs s else d # w_dirs s)\<rparr>); ok () })"

section \<open>What the operations guarantee\<close>

lemma wp_io_op:
  "wp (io_op f) Q s =
     (case f (case w_faults s of [] \<Rightarrow> None | x # _ \<Rightarrow> x) (w_files s) of
        (r, files) \<Rightarrow> Q r (s\<lparr>w_faults := tl (w_faults s), w_files := files\<rparr>))"
  by (simp add: io_op_def wp_simps Let_def split: list.splits prod.splits)

definition faulted :: "'z os_scheme \<Rightarrow> bool" where
  "faulted s \<longleftrightarrow> (case w_faults s of Some _ # _ \<Rightarrow> True | _ \<Rightarrow> False)"

definition next_op :: "'z os_scheme \<Rightarrow> 'z os_scheme" where
  "next_op s = s\<lparr>w_faults := tl (w_faults s)\<rparr>"

lemma next_op_sel [simp]:
  "w_files (next_op s) = w_files s" "w_dirs (next_op s) = w_dirs s" "w_sequence (next_op s) = w_sequence s"
  by (simp_all add: next_op_def)

lemma next_op_same [simp]: "(next_op s)\<lparr>w_files := w_files s\<rparr> = next_op s"
  by (cases s) (simp add: next_op_def)

lemma wp_unless_fault:
  "wp (unless_fault f) Q s =
     (if faulted s then Q (Inl OtherIo) (next_op s)
      else Q (fst (f (w_files s))) ((next_op s)\<lparr>w_files := snd (f (w_files s))\<rparr>))"
proof -
  have "s\<lparr>w_faults := fl, w_files := w_files s\<rparr> = s\<lparr>w_faults := fl\<rparr>" for fl by (cases s) simp
  then show ?thesis
    by (simp add: unless_fault_def wp_io_op faulted_def next_op_def case_prod_beta split: list.splits option.splits)
qed

lemma wp_create_new [wp_simps]:
  "wp (create_new p) Q s =
     (if faulted s then Q (Inl OtherIo) (next_op s)
      else if w_files s p = None then Q (Inr ()) ((next_op s)\<lparr>w_files := (w_files s)(p \<mapsto> [])\<rparr>)
      else Q (Inl AlreadyExists) (next_op s))"
  by (simp add: create_new_def wp_unless_fault)

lemma wp_create_truncate [wp_simps]:
  "wp (create_truncate p) Q s =
     (if faulted s then Q (Inl OtherIo) (next_op s) else Q (Inr ()) ((next_op s)\<lparr>w_files := (w_files s)(p \<mapsto> [])\<rparr>))"
  by (simp add: create_truncate_def wp_unless_fault)

lemma wp_open_truncate [wp_simps]:
  "wp (open_truncate p) Q s =
     (if faulted s then Q (Inl OtherIo) (next_op s)
      else if w_files s p = None then Q (Inl NotFound) (next_op s)
      else Q (Inr ()) ((next_op s)\<lparr>w_files := (w_files s)(p \<mapsto> [])\<rparr>))"
  by (simp add: open_truncate_def wp_unless_fault)

lemma wp_open_append [wp_simps]:
  "wp (open_append p) Q s =
     (if faulted s then Q (Inl OtherIo) (next_op s)
      else Q (Inr ()) ((next_op s)\<lparr>w_files := (if w_files s p = None then (w_files s)(p \<mapsto> []) else w_files s)\<rparr>))"
  by (simp add: open_append_def wp_unless_fault)

lemma wp_read_file [wp_simps]:
  "wp (read_file p) Q s =
     (if faulted s then Q (Inl OtherIo) (next_op s)
      else case w_files s p of None \<Rightarrow> Q (Inl NotFound) (next_op s) | Some bs \<Rightarrow> Q (Inr bs) (next_op s))"
  by (simp add: read_file_def wp_unless_fault next_op_def split: option.splits)

lemma wp_rename_file [wp_simps]:
  "wp (rename_file p q) Q s =
     (if faulted s then Q (Inl OtherIo) (next_op s)
      else case w_files s p of
        None \<Rightarrow> Q (Inl NotFound) (next_op s)
      | Some bs \<Rightarrow> Q (Inr ()) ((next_op s)\<lparr>w_files := (w_files s)(p := None, q := Some bs)\<rparr>))"
  by (simp add: rename_file_def wp_unless_fault next_op_def split: option.splits)

lemma wp_remove_file [wp_simps]:
  "wp (remove_file p) Q s =
     (if faulted s then Q (Inl OtherIo) (next_op s)
      else if w_files s p = None then Q (Inl NotFound) (next_op s)
      else Q (Inr ()) ((next_op s)\<lparr>w_files := (w_files s)(p := None)\<rparr>))"
  by (simp add: remove_file_def wp_unless_fault)

definition bytes_written :: "'z os_scheme \<Rightarrow> bytes \<Rightarrow> bytes" where
  "bytes_written s bs = (case w_faults s of Some n # _ \<Rightarrow> take n bs | _ \<Rightarrow> bs)"

lemma bytes_written_all [simp]: "\<not> faulted s \<Longrightarrow> bytes_written s bs = bs"
  by (auto simp: bytes_written_def faulted_def split: list.splits option.splits)

lemma wp_write_all [wp_simps]:
  "wp (write_all p bs) Q s =
     Q (if faulted s then Inl OtherIo else Inr ())
       ((next_op s)\<lparr>w_files := (case w_files s p of None \<Rightarrow> w_files s
          | Some old \<Rightarrow> (w_files s)(p \<mapsto> old @ bytes_written s bs))\<rparr>)"
  by (simp add: write_all_def wp_io_op faulted_def next_op_def bytes_written_def split: list.splits option.splits)

lemma wp_exists [wp_simps]:
  "wp (dir_exists d) Q s = (if faulted s then Q (Inl OtherIo) (next_op s) else Q (Inr (d \<in> set (w_dirs s))) (next_op s))"
  "wp (file_exists p) Q s = (if faulted s then Q (Inl OtherIo) (next_op s) else Q (Inr (w_files s p \<noteq> None)) (next_op s))"
  by (simp_all add: dir_exists_def file_exists_def wp_simps wp_unless_fault next_op_def)

lemma wp_create_dir_all [wp_simps]:
  "wp (create_dir_all d) Q s =
     (if faulted s then Q (Inl OtherIo) (next_op s)
      else Q (Inr ()) ((next_op s)\<lparr>w_dirs := (if d \<in> set (w_dirs s) then w_dirs s else d # w_dirs s)\<rparr>))"
  by (simp add: create_dir_all_def wp_simps wp_unless_fault next_op_def)

lemma wp_get_adjusted_now [wp_simps]:
  "wp get_adjusted_now Q s = Q (w_clock s (w_clock_reads s)) (s\<lparr>w_clock_reads := Suc (w_clock_reads s)\<rparr>)"
  by (simp add: get_adjusted_now_def wp_simps)

lemma wp_disk_stats [wp_simps]:
  "wp disk_stats Q s = Q (w_space s (w_space_reads s)) (s\<lparr>w_space_reads := Suc (w_space_reads s)\<rparr>)"
  by (simp add: disk_stats_def wp_simps)

end
