(* ===== verification/Store.thy ===== *)
theory Store
  imports Io Events
begin

text \<open>
  The recording store (\<open>daemon/src/qmdl_store.rs\<close>): the directory of recordings with its manifest. Each
  recording has up to four files named after it; the manifest is rewritten whole, into a file of its own that
  is then renamed, after every change. Times are nanoseconds on the corrected clock. TOML, the sidecar's JSON
  and what the file system says of a file's age are parameters (\<open>store_env\<close>).
\<close>

section \<open>Files of a recording\<close>

datatype FileKind = Qmdl | Analysis | Gps | Meta

definition ALL_FILES :: "FileKind list" where
  "ALL_FILES = [Qmdl, Analysis, Gps, Meta]"

definition sidecar_filename :: "ustr \<Rightarrow> ustr" where
  "sidecar_filename name = name @ lit ''-meta.json''"

fun get_filename :: "FileKind \<Rightarrow> ustr \<Rightarrow> bool \<Rightarrow> ustr" where
  "get_filename Qmdl name compressed = (if compressed then name @ lit ''.qmdl.gz'' else name @ lit ''.qmdl'')"
| "get_filename Analysis name compressed = name @ lit ''.ndjson''"
| "get_filename Gps name compressed = name @ lit ''-gps.ndjson''"
| "get_filename Meta name compressed = sidecar_filename name"

definition get_filepath :: "FileKind \<Rightarrow> ustr \<Rightarrow> ustr \<Rightarrow> bool \<Rightarrow> path" where
  "get_filepath kind name base compressed = Path base (get_filename kind name compressed)"

section \<open>Manifest and store\<close>

datatype GpsMode = GpsDisabled | GpsFixed | GpsApi

record ManifestEntry =
  me_name :: ustr
  me_start_time :: int
  me_last_message_time :: "int option"
  me_qmdl_size_bytes :: nat
  me_rayhunter_version :: "ustr option"
  me_system_os :: "ustr option"
  me_arch :: "ustr option"
  me_stop_reason :: "ustr option"
  me_upload_time :: "int option"
  me_gps_mode :: "GpsMode option"
  me_compressed :: bool
  me_display_name :: "ustr option"
  me_notes :: "ustr option"

record store = os +
  rs_path :: ustr
  rs_entries :: "ManifestEntry list"
  rs_current :: "nat option"

datatype 'e RecordingStoreError =
    NoCurrentEntry
  | NoSuchEntryError
  | CreateFileError IoError
  | ReadFileError IoError
  | WriteFileError IoError
  | DeleteFileError IoError
  | OpenDirError IoError
  | ReadManifestError "IoError option"  \<comment> \<open>\<open>None\<close>: the contents are not UTF-8\<close>
  | WriteManifestError IoError
  | ParseManifestError 'e
  | InsufficientDiskSpace nat nat
  | GpsStorageNotFound

record 'e store_env =
  se_toml :: "ManifestEntry list \<Rightarrow> ustr"
  se_untoml :: "ustr \<Rightarrow> 'e + ManifestEntry list"
  se_runtime :: "ustr \<times> ustr \<times> ustr"
  se_finish_meta :: "bytes \<Rightarrow> bytes option"
  se_time_ok :: "int \<Rightarrow> bool"
  se_modified :: "path \<Rightarrow> int option"

section \<open>Display names\<close>

definition MAX_DISPLAY_NAME :: nat where "MAX_DISPLAY_NAME = 29"

definition is_name_char :: "uchar \<Rightarrow> bool" where
  "is_name_char c \<longleftrightarrow> is_ascii_digit c \<or> 65 \<le> c \<and> c \<le> 90 \<or> 97 \<le> c \<and> c \<le> 122 \<or> c = 45 \<or> c = 95"

definition sanitize_display_name :: "ustr \<Rightarrow> ustr" where
  "sanitize_display_name name =
     (let cleaned = take MAX_DISPLAY_NAME (map (\<lambda>c. if is_name_char c then c else 95) name) in
      rev (dropWhile (\<lambda>c. c = 95) (rev (dropWhile (\<lambda>c. c = 95) cleaned))))"

section \<open>The manifest on disk\<close>

definition MANIFEST :: ustr where "MANIFEST = lit ''manifest.toml''"
definition MANIFEST_NEW :: ustr where "MANIFEST_NEW = lit ''manifest.toml.new''"

definition write_manifest_at :: "'e store_env \<Rightarrow> ustr \<Rightarrow> ManifestEntry list
    \<Rightarrow> ('z os_scheme, 'e RecordingStoreError + unit) state" where
  "write_manifest_at env path entries =
     attempt (map_error WriteManifestError (create_truncate (Path path MANIFEST_NEW))) (\<lambda>_.
     attempt (map_error WriteManifestError (write_all (Path path MANIFEST_NEW) (utf8_bytes (se_toml env entries)))) (\<lambda>_.
     map_error WriteManifestError (rename_file (Path path MANIFEST_NEW) (Path path MANIFEST))))"

definition write_manifest :: "'e store_env \<Rightarrow> ('z store_scheme, 'e RecordingStoreError + unit) state" where
  "write_manifest env = do {
     s \<leftarrow> State_Monad.get;
     write_manifest_at env (rs_path s) (rs_entries s) }"

definition from_utf8 :: "bytes \<Rightarrow> ustr option" where
  "from_utf8 bs = (if utf8_bytes (from_utf8_lossy bs) = bs then Some (from_utf8_lossy bs) else None)"

definition read_manifest :: "'e store_env \<Rightarrow> ustr
    \<Rightarrow> ('z os_scheme, 'e RecordingStoreError + ManifestEntry list) state" where
  "read_manifest env path =
     attempt (map_error (\<lambda>e. ReadManifestError (Some e)) (read_file (Path path MANIFEST))) (\<lambda>bs.
     case from_utf8 bs of
       None \<Rightarrow> fail (ReadManifestError None)
     | Some text \<Rightarrow> (case se_untoml env text of Inl e \<Rightarrow> fail (ParseManifestError e) | Inr entries \<Rightarrow> ok entries))"

section \<open>Opening a store\<close>

text \<open>Opening gives the store's path and entries; nothing is being recorded in it yet.\<close>

type_synonym opened = "ustr \<times> ManifestEntry list"

definition store_load :: "'e store_env \<Rightarrow> ustr \<Rightarrow> ('z os_scheme, 'e RecordingStoreError + opened) state" where
  "store_load env path = attempt (read_manifest env path) (\<lambda>entries. ok (path, entries))"

definition store_create :: "'e store_env \<Rightarrow> ustr \<Rightarrow> ('z os_scheme, 'e RecordingStoreError + opened) state" where
  "store_create env path =
     attempt (map_error OpenDirError (create_dir_all path)) (\<lambda>_.
     attempt (write_manifest_at env path []) (\<lambda>_. ok (path, [])))"

text \<open>\<open>str::ends_with\<close>, \<open>str::trim_end_matches\<close> with a nonempty pattern, \<open>str::parse::<i64>\<close>.\<close>

definition ends_with :: "ustr \<Rightarrow> ustr \<Rightarrow> bool" where
  "ends_with p s \<longleftrightarrow> starts_with (rev p) (rev s)"

function strip_all :: "ustr \<Rightarrow> ustr \<Rightarrow> ustr" where
  "strip_all p s = (if p \<noteq> [] \<and> starts_with p s then strip_all p (drop (length p) s) else s)"
  by pat_completeness auto
termination
  by (relation "measure (length \<circ> snd)") (auto simp: starts_with_iff)

declare strip_all.simps [simp del]

definition trim_end_matches :: "ustr \<Rightarrow> ustr \<Rightarrow> ustr" where
  "trim_end_matches p s = rev (strip_all (rev p) (rev s))"

fun digits_to_nat :: "nat \<Rightarrow> ustr \<Rightarrow> nat option" where
  "digits_to_nat n [] = Some n"
| "digits_to_nat n (c # cs) = (if is_ascii_digit c then digits_to_nat (10 * n + (c - 48)) cs else None)"

definition parse_i64 :: "ustr \<Rightarrow> int option" where
  "parse_i64 s =
     (let (negative, digits) = (case s of [] \<Rightarrow> (False, []) | c # cs \<Rightarrow>
            if c = 45 then (True, cs) else if c = 43 then (False, cs) else (False, s)) in
      if digits = [] then None
      else (case digits_to_nat 0 digits of
          None \<Rightarrow> None
        | Some n \<Rightarrow>
            let v = (if negative then - int n else int n) in
            if - (2 ^ 63) \<le> v \<and> v < 2 ^ 63 then Some v else None))"

text \<open>What a file name says of a recording: its name, whether it is compressed, and its start in seconds.\<close>

definition recording_stem :: "ustr \<Rightarrow> (ustr \<times> bool) option" where
  "recording_stem filename =
     (if ends_with (lit ''.qmdl'') filename then Some (trim_end_matches (lit ''.qmdl'') filename, False)
      else if ends_with (lit ''.qmdl.gz'') filename then Some (trim_end_matches (lit ''.qmdl.gz'') filename, True)
      else None)"

definition start_seconds :: "ustr \<Rightarrow> int option" where
  "start_seconds stem = parse_i64 (takeWhile (\<lambda>c. c \<noteq> 45) stem)"

definition NANOS :: int where "NANOS = 1000000000"

definition recovered_entry :: "'e store_env \<Rightarrow> ustr \<Rightarrow> ustr
    \<Rightarrow> ('z os_scheme, ManifestEntry option) state" where
  "recovered_entry env path filename =
     (case recording_stem filename of
        None \<Rightarrow> State_Monad.return None
      | Some (stem, compressed) \<Rightarrow>
          (case start_seconds stem of
             None \<Rightarrow> State_Monad.return None
           | Some seconds \<Rightarrow> do {
               contents \<leftarrow> read_file (Path path filename);
               State_Monad.return
                 (case contents of
                    Inl _ \<Rightarrow> None
                  | Inr bs \<Rightarrow>
                      if \<not> se_time_ok env seconds then None
                      else (case se_modified env (Path path filename) of
                          None \<Rightarrow> None
                        | Some modified \<Rightarrow> Some
                            \<lparr>me_name = stem, me_start_time = seconds * NANOS, me_last_message_time = Some modified,
                             me_qmdl_size_bytes = length bs, me_rayhunter_version = None, me_system_os = None,
                             me_arch = None, me_stop_reason = None, me_upload_time = None, me_gps_mode = None,
                             me_compressed = compressed, me_display_name = None, me_notes = None\<rparr>)) }))"

fun recovered_entries :: "'e store_env \<Rightarrow> ustr \<Rightarrow> ustr list
    \<Rightarrow> ('z os_scheme, ManifestEntry list) state" where
  "recovered_entries env path [] = State_Monad.return []"
| "recovered_entries env path (f # fs) = do {
     e \<leftarrow> recovered_entry env path f;
     es \<leftarrow> recovered_entries env path fs;
     State_Monad.return (case e of None \<Rightarrow> es | Some entry \<Rightarrow> entry # es) }"

text \<open>\<open>listing\<close> is what \<open>read_dir\<close> yields: a failure to open or to go on, or the names in the directory that are
  valid UTF-8, in the file system's order.\<close>

definition store_recover :: "'e store_env \<Rightarrow> IoError + ustr list \<Rightarrow> ustr
    \<Rightarrow> ('z os_scheme, 'e RecordingStoreError + opened) state" where
  "store_recover env listing path =
     (case listing of
        Inl e \<Rightarrow> fail (OpenDirError e)
      | Inr names \<Rightarrow> do {
          entries \<leftarrow> recovered_entries env path names;
          (let entries = sort_key me_start_time entries in
           attempt (write_manifest_at env path entries) (\<lambda>_. ok (path, entries))) })"

definition open_or_recover :: "'e store_env \<Rightarrow> IoError + ustr list \<Rightarrow> ustr
    \<Rightarrow> ('z os_scheme, 'e RecordingStoreError + opened) state" where
  "open_or_recover env listing path =
     attempt (map_error OpenDirError (dir_exists path)) (\<lambda>dir_present.
     attempt (if dir_present then map_error (\<lambda>e. ReadManifestError (Some e)) (file_exists (Path path MANIFEST)) else ok False)
       (\<lambda>manifest_present.
     if manifest_present then do {
       r \<leftarrow> store_load env path;
       (case r of
          Inr opened \<Rightarrow> ok opened
        | Inl (ParseManifestError e) \<Rightarrow> store_recover env listing path
        | Inl e \<Rightarrow> fail e) }
     else if dir_present then store_recover env listing path
     else store_create env path))"

section \<open>The sidecar at the end of a recording\<close>

text \<open>\<open>recording_metadata::finish\<close>: \<open>se_finish_meta\<close> adds the closing readings, if it can read the sidecar.\<close>

definition write_atomically :: "path \<Rightarrow> bytes \<Rightarrow> ('z os_scheme, IoError + unit) state" where
  "write_atomically p bs =
     (let tmp = (Path (p_dir p) (p_name p @ lit ''.tmp'')) in
      attempt (create_truncate tmp) (\<lambda>_. attempt (write_all tmp bs) (\<lambda>_. rename_file tmp p)))"

definition finish_meta :: "'e store_env \<Rightarrow> path \<Rightarrow> ('z os_scheme, IoError + unit) state" where
  "finish_meta env p = do {
     r \<leftarrow> read_file p;
     (case r of
        Inl _ \<Rightarrow> ok ()
      | Inr bs \<Rightarrow> (case se_finish_meta env bs of None \<Rightarrow> ok () | Some finished \<Rightarrow> write_atomically p finished)) }"

section \<open>Recording\<close>

definition close_current_entry :: "'e store_env \<Rightarrow> ('z store_scheme, 'e RecordingStoreError + unit) state" where
  "close_current_entry env = do {
     s \<leftarrow> State_Monad.get;
     (case rs_current s of
        None \<Rightarrow> fail NoCurrentEntry
      | Some i \<Rightarrow> do {
          State_Monad.set (s\<lparr>rs_current := None\<rparr>);
          _ \<leftarrow> finish_meta env (Path (rs_path s) (get_filename Meta (me_name (rs_entries s ! i)) (me_compressed (rs_entries s ! i))));
          ok () }) }"

text \<open>The name: the second the recording starts in, and a number that no other recording of this process has
  (\<open>AtomicU64::fetch_add\<close> wraps).\<close>

definition decimal_int :: "int \<Rightarrow> ustr" where
  "decimal_int i = (if i < 0 then 45 # decimal (nat (- i)) else decimal (nat i))"

definition entry_name :: "int \<Rightarrow> nat \<Rightarrow> ustr" where
  "entry_name now sequence = decimal_int (now div NANOS) @ [45] @ decimal sequence"

definition manifest_entry_new :: "'e store_env \<Rightarrow> GpsMode \<Rightarrow> ('z os_scheme, ManifestEntry) state" where
  "manifest_entry_new env gps_mode = do {
     now \<leftarrow> get_adjusted_now;
     s \<leftarrow> State_Monad.get;
     State_Monad.set (s\<lparr>w_sequence := (w_sequence s + 1) mod 2 ^ 64\<rparr>);
     State_Monad.return (case se_runtime env of (version, os, arch) \<Rightarrow>
       \<lparr>me_name = entry_name now (w_sequence s), me_start_time = now, me_last_message_time = None,
        me_qmdl_size_bytes = 0, me_rayhunter_version = Some version, me_system_os = Some os,
        me_arch = Some arch, me_stop_reason = None, me_upload_time = None, me_gps_mode = Some gps_mode,
        me_compressed = True, me_display_name = None, me_notes = None\<rparr>) }"

definition entry_file :: "FileKind \<Rightarrow> ManifestEntry \<Rightarrow> ustr \<Rightarrow> path" where
  "entry_file kind entry base = get_filepath kind (me_name entry) base (me_compressed entry)"

text \<open>The files opened are known by their paths: the QMDL file and the analysis file.\<close>

definition claim_entry :: "'e store_env \<Rightarrow> ManifestEntry
    \<Rightarrow> ('z store_scheme, 'e RecordingStoreError + path \<times> path) state" where
  "claim_entry env entry = do {
     s \<leftarrow> State_Monad.get;
     attempt (map_error CreateFileError (create_new (entry_file Analysis entry (rs_path s)))) (\<lambda>_.
     attempt (map_error CreateFileError (create_new (entry_file Gps entry (rs_path s)))) (\<lambda>_. do {
       State_Monad.update (\<lambda>s. s\<lparr>rs_entries := rs_entries s @ [entry], rs_current := Some (length (rs_entries s))\<rparr>);
       attempt (write_manifest env) (\<lambda>_.
       ok (entry_file Qmdl entry (rs_path s), entry_file Analysis entry (rs_path s))) })) }"

fun new_entry_attempts :: "'e store_env \<Rightarrow> GpsMode \<Rightarrow> nat
    \<Rightarrow> ('z store_scheme, 'e RecordingStoreError + path \<times> path) state" where
  "new_entry_attempts env gps_mode 0 = fail (CreateFileError AlreadyExists)"
| "new_entry_attempts env gps_mode (Suc n) = do {
     entry \<leftarrow> manifest_entry_new env gps_mode;
     s \<leftarrow> State_Monad.get;
     r \<leftarrow> create_new (entry_file Qmdl entry (rs_path s));
     (case r of
        Inr _ \<Rightarrow> claim_entry env entry
      | Inl AlreadyExists \<Rightarrow> new_entry_attempts env gps_mode n
      | Inl e \<Rightarrow> fail (CreateFileError e)) }"

definition MAX_ATTEMPTS :: nat where "MAX_ATTEMPTS = 1024"

definition new_entry :: "'e store_env \<Rightarrow> GpsMode \<Rightarrow> ('z store_scheme, 'e RecordingStoreError + path \<times> path) state" where
  "new_entry env gps_mode = do {
     s \<leftarrow> State_Monad.get;
     attempt (if rs_current s \<noteq> None then close_current_entry env else ok ()) (\<lambda>_.
     new_entry_attempts env gps_mode MAX_ATTEMPTS) }"

section \<open>Files of an entry\<close>

definition open_file :: "nat \<Rightarrow> FileKind \<Rightarrow> ('z store_scheme, 'e RecordingStoreError + bytes option) state" where
  "open_file index kind = do {
     s \<leftarrow> State_Monad.get;
     r \<leftarrow> read_file (entry_file kind (rs_entries s ! index) (rs_path s));
     (case r of Inr bs \<Rightarrow> ok (Some bs) | Inl NotFound \<Rightarrow> ok None | Inl e \<Rightarrow> fail (ReadFileError e)) }"

definition open_entry_gps_for_append :: "nat \<Rightarrow> ('z store_scheme, 'e RecordingStoreError + path option) state" where
  "open_entry_gps_for_append index = do {
     s \<leftarrow> State_Monad.get;
     (let file = entry_file Gps (rs_entries s ! index) (rs_path s) in do {
       r \<leftarrow> open_append file;
       (case r of Inr _ \<Rightarrow> ok (Some file) | Inl NotFound \<Rightarrow> ok None | Inl e \<Rightarrow> fail (CreateFileError e)) }) }"

definition clear_and_open_entry_analysis :: "nat \<Rightarrow> ('z store_scheme, 'e RecordingStoreError + path) state" where
  "clear_and_open_entry_analysis index = do {
     s \<leftarrow> State_Monad.get;
     (let file = entry_file Analysis (rs_entries s ! index) (rs_path s) in
      attempt (map_error ReadFileError (open_truncate file)) (\<lambda>_. ok file)) }"

section \<open>Changing entries\<close>

definition update_entry :: "nat \<Rightarrow> (ManifestEntry \<Rightarrow> ManifestEntry) \<Rightarrow> ('z store_scheme, unit) state" where
  "update_entry i f = State_Monad.update (\<lambda>s. s\<lparr>rs_entries := (rs_entries s)[i := f (rs_entries s ! i)]\<rparr>)"

definition update_current_entry_qmdl_size :: "'e store_env \<Rightarrow> nat
    \<Rightarrow> ('z store_scheme, 'e RecordingStoreError + unit) state" where
  "update_current_entry_qmdl_size env size_bytes = do {
     s \<leftarrow> State_Monad.get;
     (case rs_current s of
        None \<Rightarrow> fail NoCurrentEntry
      | Some i \<Rightarrow> do {
          update_entry i (\<lambda>e. e\<lparr>me_qmdl_size_bytes := size_bytes\<rparr>);
          now \<leftarrow> get_adjusted_now;
          update_entry i (\<lambda>e. e\<lparr>me_last_message_time := Some now\<rparr>);
          write_manifest env }) }"

definition position :: "ustr \<Rightarrow> ManifestEntry list \<Rightarrow> nat option" where
  "position name entries =
     (let i = length (takeWhile (\<lambda>e. me_name e \<noteq> name) entries) in if i < length entries then Some i else None)"

definition entry_for_name :: "ustr \<Rightarrow> 'z store_scheme \<Rightarrow> (nat \<times> ManifestEntry) option" where
  "entry_for_name name s = map_option (\<lambda>i. (i, rs_entries s ! i)) (position name (rs_entries s))"

definition get_current_entry :: "'z store_scheme \<Rightarrow> (nat \<times> ManifestEntry) option" where
  "get_current_entry s = map_option (\<lambda>i. (i, rs_entries s ! i)) (rs_current s)"

definition is_current_entry :: "ustr \<Rightarrow> 'z store_scheme \<Rightarrow> bool" where
  "is_current_entry name s =
     (case rs_current s of
        None \<Rightarrow> False
      | Some i \<Rightarrow> i < length (rs_entries s) \<and> me_name (rs_entries s ! i) = name)"

definition set_current_stop_reason :: "'e store_env \<Rightarrow> ustr \<Rightarrow> ('z store_scheme, 'e RecordingStoreError + unit) state" where
  "set_current_stop_reason env reason = do {
     s \<leftarrow> State_Monad.get;
     (case rs_current s of
        None \<Rightarrow> ok ()
      | Some i \<Rightarrow> do { update_entry i (\<lambda>e. e\<lparr>me_stop_reason := Some reason\<rparr>); write_manifest env }) }"

text \<open>What the three operations that change an entry by name share: find it, change it, write the manifest.\<close>

definition change_named :: "'e store_env \<Rightarrow> ustr \<Rightarrow> (ManifestEntry \<Rightarrow> ManifestEntry)
    \<Rightarrow> ('z store_scheme, 'e RecordingStoreError + unit) state" where
  "change_named env name f = do {
     s \<leftarrow> State_Monad.get;
     (case position name (rs_entries s) of
        None \<Rightarrow> fail NoSuchEntryError
      | Some i \<Rightarrow> do { update_entry i f; write_manifest env }) }"

definition set_entry_annotations :: "'e store_env \<Rightarrow> ustr \<Rightarrow> ustr option \<Rightarrow> ustr option
    \<Rightarrow> ('z store_scheme, 'e RecordingStoreError + unit) state" where
  "set_entry_annotations env name display_name notes =
     change_named env name (\<lambda>e. e\<lparr>me_display_name := display_name, me_notes := notes\<rparr>)"

definition mark_entry_as_uploaded :: "'e store_env \<Rightarrow> ustr \<Rightarrow> int
    \<Rightarrow> ('z store_scheme, 'e RecordingStoreError + unit) state" where
  "mark_entry_as_uploaded env name upload_time = change_named env name (\<lambda>e. e\<lparr>me_upload_time := Some upload_time\<rparr>)"

text \<open>The oldest entry of more than \<open>min_age\<close> that is neither current nor uploaded; the last of equals, as
  \<open>max_by_key\<close> has it.\<close>

definition entry_age :: "int \<Rightarrow> ManifestEntry \<Rightarrow> int" where
  "entry_age now e = now - (case me_last_message_time e of None \<Rightarrow> me_start_time e | Some t \<Rightarrow> t)"

definition older :: "int \<Rightarrow> ManifestEntry \<Rightarrow> ManifestEntry option \<Rightarrow> ManifestEntry option" where
  "older now e best = (case best of None \<Rightarrow> Some e | Some b \<Rightarrow> if entry_age now e \<ge> entry_age now b then Some e else best)"

definition get_next_unuploaded_entry :: "int \<Rightarrow> ('z store_scheme, ustr option) state" where
  "get_next_unuploaded_entry min_age = do {
     now \<leftarrow> get_adjusted_now;
     s \<leftarrow> State_Monad.get;
     State_Monad.return (map_option me_name (fold (older now)
       (filter (\<lambda>e. \<not> is_current_entry (me_name e) s \<and> me_upload_time e = None \<and> entry_age now e > min_age)
         (rs_entries s)) None)) }"

section \<open>Deleting\<close>

definition remove_file_if_exists :: "path \<Rightarrow> ('z os_scheme, IoError + unit) state" where
  "remove_file_if_exists p = do {
     r \<leftarrow> remove_file p;
     State_Monad.return (case r of Inl NotFound \<Rightarrow> Inr () | _ \<Rightarrow> r) }"

fun remove_files :: "path list \<Rightarrow> ('z os_scheme, IoError + unit) state" where
  "remove_files [] = ok ()"
| "remove_files (p # ps) = attempt (remove_file_if_exists p) (\<lambda>_. remove_files ps)"

definition files_of :: "ustr \<Rightarrow> ManifestEntry \<Rightarrow> path list" where
  "files_of base entry = map (\<lambda>kind. entry_file kind entry base) ALL_FILES"

definition remove_at :: "nat \<Rightarrow> 'a list \<Rightarrow> 'a list" where
  "remove_at i xs = take i xs @ drop (Suc i) xs"

definition store_delete_entry :: "'e store_env \<Rightarrow> ustr \<Rightarrow> ('z store_scheme, 'e RecordingStoreError + unit) state" where
  "store_delete_entry env name = do {
     s \<leftarrow> State_Monad.get;
     (case position name (rs_entries s) of
        None \<Rightarrow> fail NoSuchEntryError
      | Some i \<Rightarrow>
          attempt (map_error DeleteFileError (remove_files (files_of (rs_path s) (rs_entries s ! i)))) (\<lambda>_.
          attempt (case rs_current s of
               None \<Rightarrow> ok ()
             | Some current \<Rightarrow>
                 if current = i then close_current_entry env
                 else do { State_Monad.update (\<lambda>s. s\<lparr>rs_current := Some (if i < current then current - 1 else current)\<rparr>); ok () })
            (\<lambda>_. do {
             State_Monad.update (\<lambda>s. s\<lparr>rs_entries := remove_at i (rs_entries s)\<rparr>);
             write_manifest env }))) }"

text \<open>The entries whose files could not all be removed stay.\<close>

fun sweep_entries :: "ustr \<Rightarrow> ManifestEntry list \<Rightarrow> ('z os_scheme, ManifestEntry list) state" where
  "sweep_entries base [] = State_Monad.return []"
| "sweep_entries base (e # es) = do {
     r \<leftarrow> remove_files (files_of base e);
     kept \<leftarrow> sweep_entries base es;
     State_Monad.return (case r of Inl _ \<Rightarrow> e # kept | Inr _ \<Rightarrow> kept) }"

definition store_delete_all_entries :: "'e store_env \<Rightarrow> ('z store_scheme, 'e RecordingStoreError + unit) state" where
  "store_delete_all_entries env = do {
     s \<leftarrow> State_Monad.get;
     attempt (if rs_current s \<noteq> None then close_current_entry env else ok ()) (\<lambda>_. do {
       kept \<leftarrow> sweep_entries (rs_path s) (rs_entries s);
       State_Monad.update (\<lambda>s. s\<lparr>rs_entries := kept\<rparr>);
       write_manifest env }) }"

end
