(* ===== verification/StoreProps.thy ===== *)
theory StoreProps
  imports Store "HOL-Library.Countable"
begin

text \<open>
  What the recording store guarantees, whatever operations of the file system fail: its indices, its
  manifest, and the recordings. \<open>io_only P s s'\<close> says that only files in \<open>P\<close> and the faults to come differ.
\<close>

section \<open>What an operation touches\<close>

definition io_only :: "path set \<Rightarrow> 'z os_scheme \<Rightarrow> 'z os_scheme \<Rightarrow> bool" where
  "io_only P s s' \<longleftrightarrow>
     (\<exists>faults files. s' = s\<lparr>w_faults := faults, w_files := files\<rparr> \<and> (\<forall>q. q \<notin> P \<longrightarrow> files q = w_files s q))"

lemma io_only_files: "io_only P s s' \<Longrightarrow> q \<notin> P \<Longrightarrow> w_files s' q = w_files s q"
  by (cases q) (auto simp: io_only_def)

lemma io_only_refl [simp]: "io_only P s s"
  unfolding io_only_def by (rule exI [of _ "w_faults s"], rule exI [of _ "w_files s"]) (cases s, simp)

lemma io_only_trans:
  assumes "io_only P s s'" and "io_only R s' s''"
  shows "io_only (P \<union> R) s s''"
proof -
  from assms(1) obtain fl fs where s': "s' = s\<lparr>w_faults := fl, w_files := fs\<rparr>" and fs: "\<And>q. q \<notin> P \<Longrightarrow> fs q = w_files s q"
    by (auto simp: io_only_def)
  from assms(2) obtain fl2 fs2 where s'': "s'' = s'\<lparr>w_faults := fl2, w_files := fs2\<rparr>"
      and fs2: "\<And>q. q \<notin> R \<Longrightarrow> fs2 q = w_files s' q"
    by (auto simp: io_only_def)
  have "s'' = s\<lparr>w_faults := fl2, w_files := fs2\<rparr>" by (simp add: s'' s')
  moreover have "fs2 q = w_files s q" if "q \<notin> P \<union> R" for q using that fs fs2 s' by simp
  ultimately show ?thesis by (auto simp: io_only_def)
qed

lemma io_only_mono: "io_only P s s' \<Longrightarrow> P \<subseteq> R \<Longrightarrow> io_only R s s'"
  unfolding io_only_def by blast

lemma io_only_next_op [simp]: "io_only P s (next_op s)"
  unfolding io_only_def next_op_def by (rule exI [of _ "tl (w_faults s)"], rule exI [of _ "w_files s"]) (cases s, simp)

lemma io_only_trans_same: "io_only P s s' \<Longrightarrow> io_only P s' s'' \<Longrightarrow> io_only P s s''"
  using io_only_trans [of P s s' P s''] by simp

lemma io_only_put: "(\<And>q. q \<notin> P \<Longrightarrow> files q = w_files s q) \<Longrightarrow> io_only P s ((next_op s)\<lparr>w_files := files\<rparr>)"
  unfolding io_only_def next_op_def by (intro exI [of _ "tl (w_faults s)"] exI [of _ files]) simp

lemma io_only_store:
  assumes "io_only P s (s' :: 'z store_scheme)"
  shows "rs_path s' = rs_path s" "rs_entries s' = rs_entries s" "rs_current s' = rs_current s"
  using assms by (auto simp: io_only_def)

text \<open>A program confined to the files \<open>P\<close>.\<close>

named_theorems confined "programs confined to some files"

definition confined_to :: "path set \<Rightarrow> ('z os_scheme, 'a) state \<Rightarrow> bool" where
  "confined_to P m \<longleftrightarrow> (\<forall>s. wp m (\<lambda>_ s'. io_only P s s') s)"

lemma confined_wp: "confined_to P m \<Longrightarrow> wp m (\<lambda>_ s'. io_only P s s') s"
  by (simp add: confined_to_def)

lemma confined_return [confined]:
  "confined_to P (State_Monad.return x)" "confined_to P (ok y)" "confined_to P (fail e)"
  by (simp_all add: confined_to_def wp_simps)

lemma confined_bind [confined]:
  assumes "confined_to P m" and "\<And>x. confined_to P (f x)"
  shows "confined_to P (State_Monad.bind m f)"
  using assms by (simp add: confined_to_def wp_def case_prod_beta) (blast intro: io_only_trans_same)

lemma confined_attempt [confined]:
  assumes "confined_to P m" and "\<And>x. confined_to P (f x)"
  shows "confined_to P (attempt m f)"
  unfolding attempt_def by (intro confined assms) (auto intro: confined assms split: sum.splits)

lemma confined_map_error [confined]: "confined_to P m \<Longrightarrow> confined_to P (map_error g m)"
  unfolding map_error_def by (intro confined)

lemma confined_if [confined]: "confined_to P m \<Longrightarrow> confined_to P n \<Longrightarrow> confined_to P (if c then m else n)"
  by simp

lemma confined_unless_fault [confined]:
  assumes "\<And>fs q. q \<notin> P \<Longrightarrow> snd (f fs) q = fs q"
  shows "confined_to P (unless_fault f)"
  using assms unfolding confined_to_def wp_unless_fault by (auto intro!: io_only_put)

lemma confined_files [confined]:
  "p \<in> P \<Longrightarrow> confined_to P (create_new p)"
  "p \<in> P \<Longrightarrow> confined_to P (create_truncate p)"
  "p \<in> P \<Longrightarrow> confined_to P (open_truncate p)"
  "p \<in> P \<Longrightarrow> confined_to P (open_append p)"
  "p \<in> P \<Longrightarrow> confined_to P (remove_file p)"
  "p \<in> P \<Longrightarrow> q \<in> P \<Longrightarrow> confined_to P (rename_file p q)"
  "confined_to P (read_file r)"
  "confined_to P (file_exists r)"
  unfolding create_new_def create_truncate_def open_truncate_def open_append_def remove_file_def rename_file_def
    read_file_def file_exists_def
  by (auto intro!: confined split: option.splits)

lemma confined_write_all [confined]:
  assumes "p \<in> P"
  shows "confined_to P (write_all p bs)"
  using assms unfolding confined_to_def wp_write_all by (auto intro!: io_only_put split: option.splits)

lemma confined_write_atomically [confined]:
  "p \<in> P \<Longrightarrow> (Path (p_dir p) (p_name p @ lit ''.tmp'')) \<in> P \<Longrightarrow> confined_to P (write_atomically p bs)"
  unfolding write_atomically_def Let_def by (intro confined)

lemma confined_finish_meta [confined]:
  "p \<in> P \<Longrightarrow> (Path (p_dir p) (p_name p @ lit ''.tmp'')) \<in> P \<Longrightarrow> confined_to P (finish_meta env p)"
  unfolding finish_meta_def by (intro confined) (auto intro!: confined split: sum.splits option.splits)

section \<open>The manifest on disk\<close>

definition manifest_at :: "'e store_env \<Rightarrow> 'z os_scheme \<Rightarrow> ustr \<Rightarrow> ManifestEntry list option" where
  "manifest_at env s path =
     Option.bind (Option.bind (w_files s (Path path MANIFEST)) from_utf8)
       (\<lambda>text. case se_untoml env text of Inl _ \<Rightarrow> None | Inr entries \<Rightarrow> Some entries)"

text \<open>Documented behaviour of the TOML library: what it writes is text, and it reads it back.\<close>

definition toml_ok :: "'e store_env \<Rightarrow> bool" where
  "toml_ok env \<longleftrightarrow> (\<forall>entries. from_utf8 (utf8_bytes (se_toml env entries)) = Some (se_toml env entries)
     \<and> se_untoml env (se_toml env entries) = Inr entries)"

lemma toml_okD:
  "toml_ok env \<Longrightarrow> w_files s (Path path MANIFEST) = Some (utf8_bytes (se_toml env entries)) \<Longrightarrow> manifest_at env s path = Some entries"
  by (simp add: toml_ok_def manifest_at_def)

lemma manifest_names [simp]: "MANIFEST \<noteq> MANIFEST_NEW" "MANIFEST_NEW \<noteq> MANIFEST"
  by (simp_all add: MANIFEST_def MANIFEST_NEW_def)

definition manifest_paths :: "ustr \<Rightarrow> path set" where
  "manifest_paths path = {Path path MANIFEST, Path path MANIFEST_NEW}"

lemma confined_write_manifest_at [confined]: "confined_to (manifest_paths path) (write_manifest_at env path entries)"
  unfolding write_manifest_at_def by (intro confined) (simp_all add: manifest_paths_def)

lemma write_manifest_at_result:
  assumes "toml_ok env"
  shows "wp (write_manifest_at env path entries)
     (\<lambda>r s'. case r of Inl _ \<Rightarrow> w_files s' (Path path MANIFEST) = w_files s (Path path MANIFEST)
       | Inr _ \<Rightarrow> manifest_at env s' path = Some entries) s"
  using assms by (simp add: write_manifest_at_def wp_simps toml_okD)

lemma wp_write_manifest:
  fixes s :: "'z store_scheme" and env :: "'e store_env"
  assumes "toml_ok env"
    and "\<And>r s'. io_only (manifest_paths (rs_path s)) s s' \<Longrightarrow>
      (case r of Inl _ \<Rightarrow> manifest_at env s' (rs_path s) = manifest_at env s (rs_path s)
       | Inr _ \<Rightarrow> manifest_at env s' (rs_path s) = Some (rs_entries s)) \<Longrightarrow> Q r s'"
  shows "wp (write_manifest env) Q s"
proof -
  have "wp (write_manifest_at env (rs_path s) (rs_entries s))
      (\<lambda>r s'. io_only (manifest_paths (rs_path s)) s s' \<and> (case r of
         Inl _ \<Rightarrow> w_files s' (Path (rs_path s) MANIFEST) = w_files s (Path (rs_path s) MANIFEST)
       | Inr _ \<Rightarrow> manifest_at env s' (rs_path s) = Some (rs_entries s))) s"
    by (intro wp_conj confined_wp confined_write_manifest_at write_manifest_at_result assms(1))
  then have "wp (write_manifest_at env (rs_path s) (rs_entries s)) Q s"
  proof (rule wp_mono)
    fix r :: "'e RecordingStoreError + unit" and s' :: "'z store_scheme"
    assume a: "io_only (manifest_paths (rs_path s)) s s' \<and> (case r of
         Inl _ \<Rightarrow> w_files s' (Path (rs_path s) MANIFEST) = w_files s (Path (rs_path s) MANIFEST)
       | Inr _ \<Rightarrow> manifest_at env s' (rs_path s) = Some (rs_entries s))"
    then show "Q r s'" by (intro assms(2)) (auto simp: manifest_at_def split: sum.splits)
  qed
  then show ?thesis by (simp add: write_manifest_def wp_simps)
qed

section \<open>Names of files\<close>

lemma tail_neq: "take 3 (rev f) \<noteq> take 3 (rev g) \<Longrightarrow> f \<noteq> g"
  by auto

lemma recording_file_no_manifest [simp]:
  "get_filename kind name c \<noteq> MANIFEST" "get_filename kind name c \<noteq> MANIFEST_NEW"
  "get_filename kind name c @ lit ''.tmp'' \<noteq> MANIFEST" "get_filename kind name c @ lit ''.tmp'' \<noteq> MANIFEST_NEW"
  by (rule tail_neq; cases kind; simp add: MANIFEST_def MANIFEST_NEW_def sidecar_filename_def)+

lemma tmp_no_recording_file [simp]: "get_filename Meta name c @ lit ''.tmp'' \<noteq> get_filename kind name' c'"
  by (rule tail_neq; cases kind; simp add: sidecar_filename_def)

section \<open>The parts of the operations\<close>

definition sidecar_paths :: "'z store_scheme \<Rightarrow> nat \<Rightarrow> path set" where
  "sidecar_paths s i =
     (let f = get_filename Meta (me_name (rs_entries s ! i)) (me_compressed (rs_entries s ! i)) in
      {Path (rs_path s) f, Path (rs_path s) (f @ lit ''.tmp'')})"

lemma wp_close_current_entry:
  assumes "rs_current s = None \<Longrightarrow> Q (Inl NoCurrentEntry) s"
    and "\<And>i s'. rs_current s = Some i \<Longrightarrow> io_only (sidecar_paths s i) (s\<lparr>rs_current := None\<rparr>) s' \<Longrightarrow> Q (Inr ()) s'"
  shows "wp (close_current_entry env) Q s"
proof (cases "rs_current s")
  case None
  then show ?thesis using assms(1) by (simp add: close_current_entry_def wp_simps)
next
  case (Some i)
  let ?p = "(Path (rs_path s) (get_filename Meta (me_name (rs_entries s ! i)) (me_compressed (rs_entries s ! i))))"
  have "wp (finish_meta env ?p) (\<lambda>_ s'. io_only (sidecar_paths s i) (s\<lparr>rs_current := None\<rparr>) s') (s\<lparr>rs_current := None\<rparr>)"
    by (intro confined_wp confined_finish_meta) (simp_all add: sidecar_paths_def Let_def)
  then have "wp (finish_meta env ?p) (\<lambda>_ s'. Q (Inr ()) s') (s\<lparr>rs_current := None\<rparr>)"
    by (rule wp_mono) (rule assms(2) [OF Some])
  then show ?thesis by (simp add: close_current_entry_def wp_simps Some)
qed

lemma remove_file_if_exists_result:
  "wp (remove_file_if_exists p) (\<lambda>r s'. io_only {p} s s' \<and>
     (case r of Inl _ \<Rightarrow> w_files s' = w_files s | Inr _ \<Rightarrow> w_files s' = (w_files s)(p := None))) s"
  by (auto simp: remove_file_if_exists_def wp_simps fun_upd_idem intro!: io_only_put split: if_splits)

lemma remove_files_result:
  "wp (remove_files ps) (\<lambda>r s'. io_only (set ps) s s' \<and> (\<forall>p. w_files s p = None \<longrightarrow> w_files s' p = None) \<and>
     (case r of Inl _ \<Rightarrow> True | Inr _ \<Rightarrow> \<forall>p \<in> set ps. w_files s' p = None)) s"
proof (induction ps arbitrary: s)
  case Nil
  then show ?case by (simp add: wp_simps)
next
  case (Cons p ps)
  show ?case
    unfolding remove_files.simps wp_attempt
  proof (rule wp_mono [OF remove_file_if_exists_result], goal_cases)
    case (1 r s')
    show ?case
    proof (cases r)
      case (Inl e)
      with 1 show ?thesis by (auto intro: io_only_mono)
    next
      case (Inr u)
      with 1 have first: "io_only {p} s s'" "w_files s' = (w_files s)(p := None)" by auto
      show ?thesis
        unfolding Inr sum.case
      proof (rule wp_mono [OF Cons.IH], goal_cases)
        case (1 r s'')
        then have "io_only (set (p # ps)) s s''"
          using io_only_trans [OF first(1), of "set ps" s''] by simp
        with 1 first(2) show ?case by (auto split: sum.splits)
      qed
    qed
  qed
qed

section \<open>Every operation is sound\<close>

definition index_ok :: "'z store_scheme \<Rightarrow> bool" where
  "index_ok s \<longleftrightarrow> (case rs_current s of None \<Rightarrow> True | Some i \<Rightarrow> i < length (rs_entries s))"

lemma index_ok_cong: "rs_current t = rs_current s \<Longrightarrow> rs_entries t = rs_entries s \<Longrightarrow> index_ok t = index_ok s"
  by (simp add: index_ok_def split: option.splits)

definition in_sync :: "'e store_env \<Rightarrow> 'z store_scheme \<Rightarrow> bool" where
  "in_sync env s \<longleftrightarrow> manifest_at env s (rs_path s) = Some (rs_entries s)"

text \<open>The capture files the store knows of.\<close>

definition recordings :: "'z store_scheme \<Rightarrow> path set" where
  "recordings s = (\<lambda>e. entry_file Qmdl e (rs_path s)) ` set (rs_entries s)"

text \<open>An operation is sound if it leaves the index of the current recording within bounds, the manifest on disk
  readable and either as it was or as the store has it now (the latter if it succeeds in step), and knows of
  every capture file that it knew of and that is still there.\<close>

definition sound :: "'e store_env \<Rightarrow> 'z store_scheme \<Rightarrow> 'e RecordingStoreError + 'a \<Rightarrow> 'z store_scheme \<Rightarrow> bool" where
  "sound env s r s' \<longleftrightarrow>
     rs_path s' = rs_path s
   \<and> (index_ok s \<longrightarrow> index_ok s')
   \<and> manifest_at env s' (rs_path s) \<in> {manifest_at env s (rs_path s), Some (rs_entries s')}
   \<and> (in_sync env s \<and> (\<exists>x. r = Inr x) \<longrightarrow> in_sync env s')
   \<and> (\<forall>p \<in> recordings s. w_files s' p \<noteq> None \<longrightarrow> p \<in> recordings s')"

lemma soundD: "sound env s r s' \<Longrightarrow> rs_path s' = rs_path s"
  by (simp add: sound_def)

lemma sound_unchanged:
  assumes "rs_path s' = rs_path s" "rs_entries s' = rs_entries s" "index_ok s \<Longrightarrow> index_ok s'"
    and "w_files s' (Path (rs_path s) MANIFEST) = w_files s (Path (rs_path s) MANIFEST)"
  shows "sound env s r s'"
  using assms by (auto simp: sound_def in_sync_def manifest_at_def recordings_def)

lemma sound_refl [simp]: "sound env s r s"
  by (rule sound_unchanged) simp_all

lemma recording_no_manifest: "p \<in> recordings s \<Longrightarrow> p \<notin> manifest_paths path"
  by (auto simp: recordings_def entry_file_def get_filepath_def manifest_paths_def simp del: get_filename.simps)

lemma manifest_no_recording_file:
  "(Path path MANIFEST) \<noteq> entry_file kind e base" "(Path path MANIFEST) \<notin> sidecar_paths s i" "(Path path MANIFEST_NEW) \<notin> sidecar_paths s i"
  using recording_file_no_manifest
  by (simp_all add: entry_file_def get_filepath_def sidecar_paths_def Let_def neq_commute [of MANIFEST]
      neq_commute [of MANIFEST_NEW] del: get_filename.simps)

lemma wp_write_sound:
  assumes "toml_ok env" and "rs_path t = rs_path s" and "index_ok s \<Longrightarrow> index_ok t"
    and "w_files t (Path (rs_path s) MANIFEST) = w_files s (Path (rs_path s) MANIFEST)"
    and "\<And>p. p \<in> recordings s \<Longrightarrow> w_files t p \<noteq> None \<Longrightarrow> p \<in> recordings t"
  shows "wp (write_manifest env) (sound env s) t"
proof (rule wp_write_manifest [OF assms(1)])
  fix r :: "'a RecordingStoreError + unit" and s' :: "'b store_scheme"
  assume io: "io_only (manifest_paths (rs_path t)) t s'"
    and m: "case r of Inl _ \<Rightarrow> manifest_at env s' (rs_path t) = manifest_at env t (rs_path t)
      | Inr _ \<Rightarrow> manifest_at env s' (rs_path t) = Some (rs_entries t)"
  note st = io_only_store [OF io]
  have "manifest_at env t (rs_path s) = manifest_at env s (rs_path s)" using assms(4) by (simp add: manifest_at_def)
  moreover have "w_files s' p = w_files t p" if "p \<in> recordings s" for p
    using io_only_files [OF io] recording_no_manifest [OF that] by blast
  moreover have "index_ok s' \<longleftrightarrow> index_ok t" "recordings s' = recordings t"
    by (simp_all add: index_ok_def recordings_def st split: option.splits)
  ultimately show "sound env s r s'"
    using assms(2,3,5) m by (auto simp: sound_def in_sync_def st split: sum.splits)
qed

lemma wp_close_sound:
  assumes "\<And>s'. sound env s (Inr () :: 'e RecordingStoreError + unit) s' \<Longrightarrow> rs_current s' = None \<Longrightarrow> rs_entries s' = rs_entries s
      \<Longrightarrow> (\<And>p. p \<notin> (\<Union>i. sidecar_paths s i) \<Longrightarrow> w_files s' p = w_files s p) \<Longrightarrow> Q (Inr ()) s'"
    and "rs_current s = None \<Longrightarrow> Q (Inl NoCurrentEntry) s"
  shows "wp (close_current_entry (env :: 'e store_env)) Q s"
proof (rule wp_close_current_entry)
  show "Q (Inl NoCurrentEntry) s" if "rs_current s = None" using that by (rule assms(2))
next
  fix i s'
  assume io: "io_only (sidecar_paths s i) (s\<lparr>rs_current := None\<rparr>) s'"
  note st = io_only_store [OF io]
  show "Q (Inr ()) s'"
  proof (rule assms(1))
    show "sound env s (Inr () :: 'e RecordingStoreError + unit) s'"
      using io_only_files [OF io manifest_no_recording_file(2)] st
      by (intro sound_unchanged) (simp_all add: index_ok_def)
    show "w_files s' p = w_files s p" if "p \<notin> (\<Union>i. sidecar_paths s i)" for p
      using io_only_files [OF io, of p] that by simp
  qed (simp_all add: st)
qed

lemma sound_after:
  assumes "sound env t r s'" and "rs_path t = rs_path s" and "rs_entries t = rs_entries s"
    and "index_ok s \<Longrightarrow> index_ok t" and "w_files t (Path (rs_path s) MANIFEST) = w_files s (Path (rs_path s) MANIFEST)"
  shows "sound env s r s'"
  using assms by (auto simp: sound_def in_sync_def manifest_at_def recordings_def)

lemma next_op_store [simp]:
  fixes s :: "'z store_scheme"
  shows "rs_path (next_op s) = rs_path s" "rs_entries (next_op s) = rs_entries s" "rs_current (next_op s) = rs_current s"
  by (simp_all add: next_op_def)

lemma next_op_append [simp]:
  fixes s :: "'z store_scheme"
  shows "(next_op s)\<lparr>w_files := fs, rs_entries := es, rs_current := c\<rparr> = (next_op (s\<lparr>rs_entries := es, rs_current := c\<rparr>))\<lparr>w_files := fs\<rparr>"
  by (simp add: next_op_def)

section \<open>A new recording\<close>

lemma entry_file_kinds [simp]: "kind \<noteq> kind' \<Longrightarrow> entry_file kind e base \<noteq> entry_file kind' e base"
  by (cases kind; cases kind'; cases "me_compressed e")
     (auto simp: entry_file_def get_filepath_def sidecar_filename_def dest!: arg_cong [of _ _ "take 6 \<circ> rev"])

text \<open>Besides the manifest, only files that were not there are written.\<close>

definition overwrites_nothing :: "'z store_scheme \<Rightarrow> 'z store_scheme \<Rightarrow> bool" where
  "overwrites_nothing s s' \<longleftrightarrow>
     (\<forall>p. p \<notin> manifest_paths (rs_path s) \<and> w_files s p \<noteq> None \<longrightarrow> w_files s' p = w_files s p)"

definition started :: "'z store_scheme \<Rightarrow> path \<times> path \<Rightarrow> 'z store_scheme \<Rightarrow> bool" where
  "started s files s' \<longleftrightarrow>
     w_files s (fst files) = None \<and> w_files s' (fst files) = Some []
   \<and> w_files s (snd files) = None \<and> w_files s' (snd files) = Some []
   \<and> (\<exists>e. rs_entries s' = rs_entries s @ [e] \<and> rs_current s' = Some (length (rs_entries s))
       \<and> files = (entry_file Qmdl e (rs_path s), entry_file Analysis e (rs_path s)))"

definition begins :: "'e store_env \<Rightarrow> 'z store_scheme \<Rightarrow> 'e RecordingStoreError + path \<times> path \<Rightarrow> 'z store_scheme \<Rightarrow> bool" where
  "begins env s r s' \<longleftrightarrow> sound env s r s' \<and> overwrites_nothing s s' \<and> (case r of Inl _ \<Rightarrow> True | Inr files \<Rightarrow> started s files s')"

lemma manifest_path_not_entry: "entry_file kind e base \<notin> manifest_paths path"
  using manifest_no_recording_file(1) recording_file_no_manifest
  by (auto simp: manifest_paths_def entry_file_def get_filepath_def simp del: get_filename.simps)

lemma wp_write_manifest_begins:
  fixes s t :: "'z store_scheme" and env :: "'b store_env"
  assumes "toml_ok env" and "rs_path t = rs_path s" and "rs_entries t = rs_entries s @ [e]"
    and "rs_current t = Some (length (rs_entries s))"
    and old: "\<And>p. w_files s p \<noteq> None \<Longrightarrow> w_files t p = w_files s p"
    and man: "w_files t (Path (rs_path s) MANIFEST) = w_files s (Path (rs_path s) MANIFEST)"
    and new: "\<And>k. k \<in> {Qmdl, Analysis} \<Longrightarrow> w_files s (entry_file k e (rs_path s)) = None \<and> w_files t (entry_file k e (rs_path s)) = Some []"
  shows "wp (attempt (write_manifest env) (\<lambda>_. ok (entry_file Qmdl e (rs_path s), entry_file Analysis e (rs_path s))))
      (begins env s) t"
  unfolding wp_attempt wp_ok
proof -
  let ?files = "(entry_file Qmdl e (rs_path s), entry_file Analysis e (rs_path s))"
  have sd: "wp (write_manifest env) (sound env s) t"
    using assms by (intro wp_write_sound) (auto simp: index_ok_def recordings_def)
  have io: "wp (write_manifest env) (\<lambda>_ s'. io_only (manifest_paths (rs_path s)) t s') t"
    using confined_wp [OF confined_write_manifest_at [where path = "rs_path s" and env = env and entries = "rs_entries t"], of t]
    by (simp add: write_manifest_def wp_simps assms(2))
  show "wp (write_manifest env) (\<lambda>r s'. case r of Inl x \<Rightarrow> begins env s (Inl x) s' | Inr _ \<Rightarrow> begins env s (Inr ?files) s') t"
  proof (rule wp_mono [OF wp_conj [OF sd io]])
    fix r :: "'b RecordingStoreError + unit" and s' :: "'z store_scheme"
    assume a: "sound env s r s' \<and> io_only (manifest_paths (rs_path s)) t s'"
    then have st: "rs_entries s' = rs_entries t" "rs_current s' = rs_current t"
      using io_only_store by blast+
    have same: "w_files s' p = w_files t p" if "p \<notin> manifest_paths (rs_path s)" for p
      using a io_only_files that by blast
    have "overwrites_nothing s s'" using old same by (auto simp: overwrites_nothing_def)
    moreover have "started s ?files s'" for u :: unit
      using new same [OF manifest_path_not_entry] st assms(3,4) by (auto simp: started_def)
    ultimately show "case r of Inl x \<Rightarrow> begins env s (Inl x) s' | Inr _ \<Rightarrow> begins env s (Inr ?files) s'"
      using a by (auto simp: begins_def sound_def split: sum.splits)
  qed
qed

lemma claim_entry_begins:
  fixes s t :: "'z store_scheme"
  assumes "toml_ok env" and t: "rs_path t = rs_path s" "rs_entries t = rs_entries s" "index_ok s \<Longrightarrow> index_ok t"
    and free: "w_files s (entry_file Qmdl e (rs_path s)) = None"
    and files: "w_files t = (w_files s)(entry_file Qmdl e (rs_path s) \<mapsto> [])"
  shows "wp (claim_entry env e) (begins env s) t"
proof -
  let ?q = "entry_file Qmdl e (rs_path s)" and ?a = "entry_file Analysis e (rs_path s)" and ?g = "entry_file Gps e (rs_path s)"
  have man: "Path (rs_path s) MANIFEST \<noteq> ?q" "Path (rs_path s) MANIFEST \<noteq> ?a" "Path (rs_path s) MANIFEST \<noteq> ?g"
    by (rule manifest_no_recording_file)+
  have fails: "begins env s (Inl err) u"
    if "rs_path u = rs_path s" "rs_entries u = rs_entries s" "rs_current u = rs_current t"
      "\<And>p. w_files s p \<noteq> None \<Longrightarrow> w_files u p = w_files s p"
      "w_files u (Path (rs_path s) MANIFEST) = w_files s (Path (rs_path s) MANIFEST)" for err u
    using that t(2,3) index_ok_cong [of u t] by (auto simp: begins_def overwrites_nothing_def intro!: sound_unchanged)
  show ?thesis
    unfolding claim_entry_def
    using free man assms(1)
    by (auto simp: wp_simps t files simp del: next_op_append intro!: fails wp_write_manifest_begins [unfolded wp_attempt])
qed

lemma begins_after:
  assumes "begins env t r s'" and "rs_path t = rs_path s" "rs_entries t = rs_entries s" "rs_current t = rs_current s"
    and "w_files t = w_files s"
  shows "begins env s r s'"
  using assms sound_after [of env t r s' s] index_ok_cong [of t s]
  by (auto simp: begins_def overwrites_nothing_def started_def split: sum.splits)

definition same_store :: "'z store_scheme \<Rightarrow> 'z store_scheme \<Rightarrow> bool" where
  "same_store s t \<longleftrightarrow> rs_path t = rs_path s \<and> rs_entries t = rs_entries s \<and> rs_current t = rs_current s \<and> w_files t = w_files s"

lemma wp_manifest_entry_new:
  assumes "\<And>e t. same_store s t \<Longrightarrow> me_compressed e \<Longrightarrow> me_gps_mode e = Some gps
    \<Longrightarrow> me_name e = entry_name (me_start_time e) (w_sequence s) \<Longrightarrow> Q e t"
  shows "wp (manifest_entry_new env gps) Q s"
  by (auto simp: manifest_entry_new_def wp_simps case_prod_beta same_store_def intro!: assms)

lemma begins_fail: "same_store s u \<Longrightarrow> begins env s (Inl err) u"
  using index_ok_cong [of u s] by (auto simp: same_store_def begins_def overwrites_nothing_def intro!: sound_unchanged)

lemma new_entry_attempts_begin:
  assumes "toml_ok env"
  shows "wp (new_entry_attempts env gps n) (begins env s) s"
proof (induction n arbitrary: s)
  case 0
  then show ?case by (simp add: wp_simps begins_def overwrites_nothing_def)
next
  case (Suc n)
  show ?case
    unfolding new_entry_attempts.simps wp_bind
  proof (rule wp_manifest_entry_new, simp only: wp_get wp_create_new)
    fix e t
    assume t: "same_store s t"
    then have n: "same_store s (next_op t)" by (simp add: same_store_def)
    have again: "wp (new_entry_attempts env gps n) (begins env s) (next_op t)"
      by (rule wp_mono [OF Suc.IH], erule begins_after) (use n in \<open>simp_all add: same_store_def\<close>)
    have "wp (claim_entry env e) (begins env s) ((next_op t)\<lparr>w_files := (w_files t)(entry_file Qmdl e (rs_path t) \<mapsto> [])\<rparr>)"
      if "w_files t (entry_file Qmdl e (rs_path t)) = None"
      using that t index_ok_cong [of "(next_op t)\<lparr>w_files := (w_files t)(entry_file Qmdl e (rs_path t) \<mapsto> [])\<rparr>" s]
      by (intro claim_entry_begins [OF assms]) (auto simp: same_store_def)
    with again n show "if faulted t
         then wp (case Inl OtherIo of Inl AlreadyExists \<Rightarrow> new_entry_attempts env gps n
              | Inl e \<Rightarrow> fail (CreateFileError e) | Inr _ \<Rightarrow> claim_entry env e) (begins env s) (next_op t)
         else if w_files t (entry_file Qmdl e (rs_path t)) = None
           then wp (case Inr () of Inl AlreadyExists \<Rightarrow> new_entry_attempts env gps n
                | Inl e \<Rightarrow> fail (CreateFileError e) | Inr _ \<Rightarrow> claim_entry env e) (begins env s)
             ((next_op t)\<lparr>w_files := (w_files t)(entry_file Qmdl e (rs_path t) \<mapsto> [])\<rparr>)
           else wp (case Inl AlreadyExists of Inl AlreadyExists \<Rightarrow> new_entry_attempts env gps n
                | Inl e \<Rightarrow> fail (CreateFileError e) | Inr _ \<Rightarrow> claim_entry env e) (begins env s) (next_op t)"
      by (simp add: wp_fail begins_fail [OF n])
  qed
qed

lemma close_then:
  assumes "\<And>s'. sound env s (Inr () :: 'e RecordingStoreError + unit) s' \<Longrightarrow> rs_current s' = None \<Longrightarrow> rs_entries s' = rs_entries s
      \<Longrightarrow> (\<And>p. p \<notin> (\<Union>i. sidecar_paths s i) \<Longrightarrow> w_files s' p = w_files s p) \<Longrightarrow> Q (Inr ()) s'"
  shows "wp (if rs_current s \<noteq> None then close_current_entry (env :: 'e store_env) else ok ()) Q s"
proof (cases "rs_current s")
  case None
  then show ?thesis by (simp add: wp_simps assms)
next
  case (Some i)
  have "wp (close_current_entry env) Q s" by (rule wp_close_sound) (use assms Some in auto)
  with Some show ?thesis by simp
qed

lemma sound_trans_Inr:
  assumes "sound env s (Inr x) t" and "sound env t r s'" and "rs_entries t = rs_entries s"
    and "w_files t (Path (rs_path s) MANIFEST) = w_files s (Path (rs_path s) MANIFEST)"
  shows "sound env s r s'"
  by (rule sound_after [OF assms(2)]) (use assms(1,3,4) in \<open>auto simp: sound_def\<close>)

lemma manifest_not_sidecar: "Path path MANIFEST \<notin> (\<Union>i. sidecar_paths s i)"
  using manifest_no_recording_file(2) by auto

lemma new_entry_begins:
  fixes env :: "'e store_env" and s :: "'z store_scheme"
  assumes "toml_ok env"
  shows "wp (new_entry env gps) (\<lambda>r s'. sound env s r s' \<and>
     (\<forall>p. p \<notin> manifest_paths (rs_path s) \<union> (\<Union>i. sidecar_paths s i) \<and> w_files s p \<noteq> None \<longrightarrow> w_files s' p = w_files s p) \<and>
     (case r of Inl _ \<Rightarrow> True | Inr (q, a) \<Rightarrow> w_files s' q = Some [] \<and> w_files s' a = Some [] \<and>
        (\<exists>e. rs_entries s' = rs_entries s @ [e] \<and> rs_current s' = Some (length (rs_entries s))
          \<and> q = entry_file Qmdl e (rs_path s) \<and> a = entry_file Analysis e (rs_path s) \<and> w_files s q = None))) s"
    (is "wp _ (?Q s) s")
  unfolding new_entry_def wp_bind wp_get wp_attempt
proof (rule close_then, simp only: sum.case)
  fix t :: "'z store_scheme"
  assume closed: "sound env s (Inr () :: 'e RecordingStoreError + unit) t" "rs_entries t = rs_entries s"
    and files: "\<And>p. p \<notin> (\<Union>i. sidecar_paths s i) \<Longrightarrow> w_files t p = w_files s p"
  have path: "rs_path t = rs_path s" by (rule soundD [OF closed(1)])
  have qmdl: "entry_file Qmdl e (rs_path s) \<notin> (\<Union>i. sidecar_paths s i)" for e
    using tmp_no_recording_file [of "me_name (rs_entries s ! _)" "me_compressed (rs_entries s ! _)" Qmdl "me_name e" "me_compressed e"]
    by (auto simp: sidecar_paths_def entry_file_def get_filepath_def sidecar_filename_def Let_def
        dest!: arg_cong [of _ _ "take 3 \<circ> rev"])
  show "wp (new_entry_attempts env gps MAX_ATTEMPTS) (?Q s) t"
  proof (rule wp_mono [OF new_entry_attempts_begin [OF assms]])
    fix r :: "'e RecordingStoreError + path \<times> path" and s' :: "'z store_scheme"
    assume b: "begins env t r s'"
    have "sound env s r s'"
      by (rule sound_trans_Inr [OF closed(1) _ closed(2) files [OF manifest_not_sidecar]])
         (use b in \<open>simp add: begins_def\<close>)
    then show "?Q s r s'"
      using b files qmdl by (auto simp: begins_def overwrites_nothing_def started_def path closed(2) split: sum.splits)
  qed
qed

section \<open>Changing and deleting\<close>

lemma update_entry_recordings:
  assumes "me_name (f (es ! i)) = me_name (es ! i)" "me_compressed (f (es ! i)) = me_compressed (es ! i)"
  shows "(\<lambda>e. entry_file Qmdl e base) ` set es \<subseteq> (\<lambda>e. entry_file Qmdl e base) ` set (es[i := f (es ! i)])"
proof (cases "i < length es")
  case True
  have "map (\<lambda>e. entry_file Qmdl e base) (es[i := f (es ! i)]) = map (\<lambda>e. entry_file Qmdl e base) es"
    using True assms by (intro nth_equalityI) (auto simp: entry_file_def nth_list_update)
  then show ?thesis by (metis list.set_map order_refl)
qed (simp add: list_update_beyond)

definition keeps_name :: "(ManifestEntry \<Rightarrow> ManifestEntry) \<Rightarrow> bool" where
  "keeps_name f \<longleftrightarrow> (\<forall>e. me_name (f e) = me_name e \<and> me_compressed (f e) = me_compressed e)"

lemma update_then_write:
  assumes "toml_ok env" and "keeps_name f"
    and t: "rs_path t = rs_path s" "rs_current t = rs_current s" "w_files t = w_files s"
      "rs_entries t = (rs_entries s)[i := f (rs_entries s ! i)]"
  shows "wp (write_manifest env) (sound env s) t"
  using update_entry_recordings [of f "rs_entries s" i "rs_path s"] assms
  by (intro wp_write_sound) (auto simp: index_ok_def recordings_def keeps_name_def split: option.splits)

lemma change_named_sound:
  assumes "toml_ok env" and "keeps_name f"
  shows "wp (change_named env name f) (sound env s) s"
  by (auto simp: change_named_def update_entry_def wp_simps split: option.splits
      intro!: update_then_write [OF assms, where i = "the (position name (rs_entries s))"])

lemma set_current_stop_reason_sound:
  assumes "toml_ok env"
  shows "wp (set_current_stop_reason env reason) (sound env s) s"
  by (auto simp: set_current_stop_reason_def update_entry_def wp_simps keeps_name_def split: option.splits
      intro!: update_then_write [OF assms, where i = "the (rs_current s)" and f = "\<lambda>e. e\<lparr>me_stop_reason := Some reason\<rparr>"])

lemma update_size_sound:
  assumes "toml_ok env"
  shows "wp (update_current_entry_qmdl_size env n) (sound env s) s"
proof (cases "rs_current s")
  case (Some i)
  let ?f = "\<lambda>e. e\<lparr>me_qmdl_size_bytes := n, me_last_message_time := Some (w_clock s (w_clock_reads s))\<rparr>"
  have twice: "(rs_entries s)[i := ((rs_entries s)[i := (rs_entries s ! i)\<lparr>me_qmdl_size_bytes := n\<rparr>] ! i)
      \<lparr>me_last_message_time := Some (w_clock s (w_clock_reads s))\<rparr>] = (rs_entries s)[i := ?f (rs_entries s ! i)]"
    by (cases "i < length (rs_entries s)") (simp_all add: list_update_beyond)
  show ?thesis
    by (auto simp: update_current_entry_qmdl_size_def update_entry_def wp_simps Some twice keeps_name_def
        intro!: update_then_write [OF assms, where i = i and f = ?f])
qed (simp add: update_current_entry_qmdl_size_def wp_simps)

lemma set_remove_at: "set xs \<subseteq> insert (xs ! i) (set (remove_at i xs))"
proof
  fix x assume "x \<in> set xs"
  then have "x \<in> set (take i xs @ drop i xs)" by simp
  then show "x \<in> insert (xs ! i) (set (remove_at i xs))"
    unfolding remove_at_def by (cases "i < length xs") (auto simp: Cons_nth_drop_Suc [symmetric] simp del: append_take_drop_id)
qed

lemma length_remove_at: "i < length xs \<Longrightarrow> length (remove_at i xs) = length xs - 1"
  by (simp add: remove_at_def min_def)

lemma nth_remove_at:
  "j < i \<Longrightarrow> i < length xs \<Longrightarrow> remove_at i xs ! j = xs ! j"
  "i < j \<Longrightarrow> j < length xs \<Longrightarrow> remove_at i xs ! (j - Suc 0) = xs ! j"
  by (auto simp: remove_at_def nth_append min_def)

lemma position_Some: "position name es = Some i \<Longrightarrow> i < length es \<and> me_name (es ! i) = name"
  by (auto simp: position_def Let_def split: if_splits) (metis (mono_tags, lifting) nth_length_takeWhile)

text \<open>What deleting the \<open>i\<close>-th recording does.\<close>

definition deletes :: "'e store_env \<Rightarrow> 'z store_scheme \<Rightarrow> nat \<Rightarrow> 'e RecordingStoreError + unit \<Rightarrow> 'z store_scheme \<Rightarrow> bool" where
  "deletes env s i r s' \<longleftrightarrow>
     sound env s r s'
   \<and> (case r of
        Inr _ \<Rightarrow> rs_entries s' = remove_at i (rs_entries s)
          \<and> (\<forall>p \<in> set (files_of (rs_path s) (rs_entries s ! i)). w_files s' p = None)
      | Inl (DeleteFileError _) \<Rightarrow> rs_entries s' = rs_entries s \<and> rs_current s' = rs_current s
      | Inl _ \<Rightarrow> True)
   \<and> (index_ok s \<longrightarrow> rs_current s \<noteq> Some i \<longrightarrow> map_option snd (get_current_entry s') = map_option snd (get_current_entry s))
   \<and> rs_entries s' \<in> {rs_entries s, remove_at i (rs_entries s)}
   \<and> (rs_current s \<noteq> Some i \<longrightarrow>
        (\<forall>p. p \<notin> set (files_of (rs_path s) (rs_entries s ! i)) \<union> manifest_paths (rs_path s) \<longrightarrow> w_files s' p = w_files s p))"

lemma files_of_no_manifest: "files_of base e = map (\<lambda>k. entry_file k e base) ALL_FILES"
    "Path path MANIFEST \<notin> set (files_of base e)"
  using manifest_no_recording_file(1) by (auto simp: files_of_def)

lemma write_after_delete:
  fixes s t :: "'z store_scheme" and env :: "'e store_env"
  assumes "toml_ok env" and "i < length (rs_entries s)"
    and t: "rs_path t = rs_path s" "rs_entries t = remove_at i (rs_entries s)"
    and gone: "\<And>p. p \<in> set (files_of (rs_path s) (rs_entries s ! i)) \<Longrightarrow> w_files t p = None"
    and man: "w_files t (Path (rs_path s) MANIFEST) = w_files s (Path (rs_path s) MANIFEST)"
    and rest: "\<And>p. rs_current s \<noteq> Some i \<Longrightarrow> p \<notin> set (files_of (rs_path s) (rs_entries s ! i)) \<Longrightarrow> w_files t p = w_files s p"
    and current: "index_ok s \<Longrightarrow> rs_current t =
      (case rs_current s of None \<Rightarrow> None | Some j \<Rightarrow> if j = i then None else Some (if i < j then j - 1 else j))"
  shows "wp (write_manifest env) (deletes env s i) t"
proof -
  have qmdl: "entry_file Qmdl (rs_entries s ! i) (rs_path s) \<in> set (files_of (rs_path s) (rs_entries s ! i))"
    by (simp add: files_of_def ALL_FILES_def)
  have "p \<in> recordings t" if p: "p \<in> recordings s" "w_files t p \<noteq> None" for p
  proof -
    obtain e where e: "e \<in> set (rs_entries s)" "p = entry_file Qmdl e (rs_path s)" using p(1) by (auto simp: recordings_def)
    with gone [OF qmdl] p(2) set_remove_at [of "rs_entries s" i] show ?thesis by (auto simp: recordings_def t)
  qed
  moreover have "index_ok t" if "index_ok s"
    using current [OF that] that assms(2) by (auto simp: index_ok_def t length_remove_at split: option.splits)
  ultimately have sd: "wp (write_manifest env) (sound env s) t"
    using assms by (intro wp_write_sound) auto
  have io: "wp (write_manifest env) (\<lambda>r s'. io_only (manifest_paths (rs_path s)) t s' \<and> (\<forall>e. r \<noteq> Inl (DeleteFileError e))) t"
    using confined_wp [OF confined_write_manifest_at [where path = "rs_path s" and env = env and entries = "rs_entries t"], of t]
    by (auto simp: write_manifest_def wp_simps t(1) write_manifest_at_def wp_conj)
  show ?thesis
  proof (rule wp_mono [OF wp_conj [OF sd io]])
    fix r :: "'e RecordingStoreError + unit" and s' :: "'z store_scheme"
    assume a: "sound env s r s' \<and> io_only (manifest_paths (rs_path s)) t s' \<and> (\<forall>e. r \<noteq> Inl (DeleteFileError e))"
    then have st: "rs_entries s' = rs_entries t" "rs_current s' = rs_current t" using io_only_store by blast+
    have "w_files s' p = None" if "p \<in> set (files_of (rs_path s) (rs_entries s ! i))" for p
    proof -
      have "p \<notin> manifest_paths (rs_path s)" using that manifest_path_not_entry by (auto simp: files_of_def)
      then show ?thesis using a io_only_files gone [OF that] by fastforce
    qed
    moreover have "map_option snd (get_current_entry s') = map_option snd (get_current_entry s)"
      if "index_ok s" "rs_current s \<noteq> Some i"
      using current [OF that(1)] that assms(2)
      by (auto simp: get_current_entry_def st t index_ok_def nth_remove_at split: option.splits)
    moreover have "w_files s' p = w_files s p"
      if "rs_current s \<noteq> Some i" "p \<notin> set (files_of (rs_path s) (rs_entries s ! i))" "p \<notin> manifest_paths (rs_path s)" for p
      using rest [OF that(1,2)] io_only_files [of "manifest_paths (rs_path s)" t s' p] a that(3) by simp
    ultimately show "deletes env s i r s'"
      using a by (auto simp: deletes_def st t split: sum.splits RecordingStoreError.splits)
  qed
qed

lemma close_without_sidecar:
  assumes "rs_current s = Some i" and "w_files s (entry_file Meta (rs_entries s ! i) (rs_path s)) = None"
    and "\<And>s'. rs_path s' = rs_path s \<Longrightarrow> rs_entries s' = rs_entries s \<Longrightarrow> rs_current s' = None \<Longrightarrow> w_files s' = w_files s
      \<Longrightarrow> Q (Inr ()) s'"
  shows "wp (close_current_entry env) Q s"
  using assms
  by (auto simp: close_current_entry_def finish_meta_def wp_simps entry_file_def get_filepath_def)

lemma store_delete_entry_deletes:
  fixes s :: "'z store_scheme" and env :: "'e store_env"
  assumes "toml_ok env" and "position name (rs_entries s) = Some i"
  shows "wp (store_delete_entry env name) (deletes env s i) s"
proof -
  have i: "i < length (rs_entries s)" using position_Some [OF assms(2)] by simp
  let ?files = "files_of (rs_path s) (rs_entries s ! i)"
  have step: "wp (attempt (case rs_current s of
               None \<Rightarrow> ok ()
             | Some current \<Rightarrow>
                 if current = i then close_current_entry env
                 else do { State_Monad.update (\<lambda>s. s\<lparr>rs_current := Some (if i < current then current - 1 else current)\<rparr>); ok () })
            (\<lambda>_. do {
             State_Monad.update (\<lambda>s. s\<lparr>rs_entries := remove_at i (rs_entries s)\<rparr>);
             write_manifest env })) (deletes env s i) u"
    if io: "io_only (set ?files) s u" and gone: "\<forall>p \<in> set ?files. w_files u p = None" for u
  proof -
    note st = io_only_store [OF io]
    have man: "w_files u (Path (rs_path s) MANIFEST) = w_files s (Path (rs_path s) MANIFEST)"
      by (rule io_only_files [OF io]) (rule files_of_no_manifest)
    have meta: "w_files u (entry_file Meta (rs_entries s ! i) (rs_path s)) = None"
      using gone by (simp add: files_of_def ALL_FILES_def)
    show ?thesis
    proof (cases "rs_current s = Some i")
      case True
      have "wp (close_current_entry env) (\<lambda>r s'. case r of Inl e \<Rightarrow> deletes env s i (Inl e) s'
          | Inr _ \<Rightarrow> wp (write_manifest env) (deletes env s i) (s'\<lparr>rs_entries := remove_at i (rs_entries s')\<rparr>)) u"
        by (rule close_without_sidecar)
           (use True st meta gone man in \<open>auto intro!: write_after_delete [OF assms(1) i]\<close>)
      with True show ?thesis by (simp add: wp_simps cong: sum.case_cong)
    next
      case False
      then show ?thesis
        by (auto simp: wp_simps st gone man io_only_files [OF io] split: option.split intro!: write_after_delete [OF assms(1) i])
    qed
  qed
  have fails: "deletes env s i (Inl (DeleteFileError e)) u" if "io_only (set ?files) s u" for e u
    using io_only_store [OF that] io_only_files [OF that] files_of_no_manifest(2) index_ok_cong [of u s]
    by (auto simp: deletes_def get_current_entry_def intro!: sound_unchanged)
  show ?thesis
    unfolding store_delete_entry_def wp_bind wp_get assms(2) option.case wp_attempt [where f = "\<lambda>_. attempt _ _"] wp_map_error
    by (rule wp_mono [OF remove_files_result]) (auto intro: fails step split: sum.splits)
qed

lemma sweep_entries_result:
  "wp (sweep_entries base es) (\<lambda>kept s'. io_only (\<Union>e \<in> set es. set (files_of base e)) s s' \<and> set kept \<subseteq> set es
     \<and> (\<forall>p. w_files s p = None \<longrightarrow> w_files s' p = None)
     \<and> (\<forall>e \<in> set es. e \<notin> set kept \<longrightarrow> (\<forall>p \<in> set (files_of base e). w_files s' p = None))) s"
proof (induction es arbitrary: s)
  case Nil
  then show ?case by (simp add: wp_simps)
next
  case (Cons e es)
  show ?case
    unfolding sweep_entries.simps wp_bind
  proof (rule wp_mono [OF remove_files_result], rule wp_mono [OF Cons.IH], unfold wp_return, goal_cases)
    case (1 r s1 kept s2)
    then have "io_only (set (files_of base e) \<union> (\<Union>e \<in> set es. set (files_of base e))) s s2"
      using io_only_trans by blast
    with 1 show ?case by (auto split: sum.splits)
  qed
qed

lemma sweep_then_write:
  fixes s t :: "'z store_scheme" and env :: "'e store_env"
  assumes "toml_ok env" and t: "sound env s (Inr () :: 'e RecordingStoreError + unit) t" "rs_current t = None"
      "rs_entries t = rs_entries s"
    and files: "\<And>p. p \<notin> (\<Union>i. sidecar_paths s i) \<Longrightarrow> w_files t p = w_files s p"
  shows "wp (do { kept \<leftarrow> sweep_entries (rs_path s) (rs_entries s);
      State_Monad.update (\<lambda>s. s\<lparr>rs_entries := kept\<rparr>);
      write_manifest env }) (sound env s) t"
  unfolding wp_bind wp_update
proof (rule wp_mono [OF sweep_entries_result], goal_cases)
  case (1 kept u)
  note st = io_only_store [OF conjunct1 [OF 1]]
  have "w_files u (Path (rs_path s) MANIFEST) = w_files s (Path (rs_path s) MANIFEST)"
    using io_only_files [OF conjunct1 [OF 1], of "Path (rs_path s) MANIFEST"] files [OF manifest_not_sidecar] files_of_no_manifest(2)
    by simp
  moreover have "p \<in> recordings (u\<lparr>rs_entries := kept\<rparr>)" if p: "p \<in> recordings s" "w_files u p \<noteq> None" for p
  proof -
    obtain e where e: "e \<in> set (rs_entries s)" "p = entry_file Qmdl e (rs_path s)" using p(1) by (auto simp: recordings_def)
    then have "p \<in> set (files_of (rs_path s) e)" by (simp add: files_of_def ALL_FILES_def)
    with e(1) p(2) 1 have "e \<in> set kept" by metis
    with e show ?thesis using st(1) soundD [OF t(1)] by (simp add: recordings_def)
  qed
  ultimately show ?case
    using st soundD [OF t(1)] t(2) by (intro wp_write_sound [OF assms(1)]) (auto simp: index_ok_def)
qed

lemma delete_all_sound:
  assumes "toml_ok env"
  shows "wp (store_delete_all_entries env) (sound env s) s"
  unfolding store_delete_all_entries_def wp_bind wp_get wp_attempt
  by (rule close_then, simp only: sum.case) (rule sweep_then_write [OF assms, unfolded wp_bind])

section \<open>All operations\<close>

datatype store_op =
    NewEntry GpsMode
  | CloseCurrent
  | UpdateSize nat
  | StopReason ustr
  | Annotate ustr "ustr option" "ustr option"
  | MarkUploaded ustr int
  | DeleteEntry ustr
  | DeleteAll

fun store_step :: "'e store_env \<Rightarrow> store_op \<Rightarrow> ('z store_scheme, 'e RecordingStoreError + unit) state" where
  "store_step env (NewEntry gps) = attempt (new_entry env gps) (\<lambda>_. ok ())"
| "store_step env CloseCurrent = close_current_entry env"
| "store_step env (UpdateSize n) = update_current_entry_qmdl_size env n"
| "store_step env (StopReason reason) = set_current_stop_reason env reason"
| "store_step env (Annotate name display_name notes) = set_entry_annotations env name display_name notes"
| "store_step env (MarkUploaded name t) = mark_entry_as_uploaded env name t"
| "store_step env (DeleteEntry name) = store_delete_entry env name"
| "store_step env DeleteAll = store_delete_all_entries env"

lemma store_step_sound:
  fixes s :: "'z store_scheme" and env :: "'e store_env"
  assumes "toml_ok env"
  shows "wp (store_step env op) (sound env s) s"
proof (cases op)
  case (NewEntry gps)
  show ?thesis
    unfolding NewEntry store_step.simps wp_attempt wp_ok
    by (rule wp_mono [OF new_entry_begins [OF assms]]) (auto simp: sound_def split: sum.splits)
next
  case CloseCurrent
  show ?thesis unfolding CloseCurrent store_step.simps by (rule wp_close_sound) simp_all
next
  case (DeleteEntry name)
  show ?thesis
  proof (cases "position name (rs_entries s)")
    case None
    then show ?thesis by (simp add: DeleteEntry store_delete_entry_def wp_simps)
  next
    case (Some i)
    show ?thesis
      unfolding DeleteEntry store_step.simps
      by (rule wp_mono [OF store_delete_entry_deletes [OF assms Some]]) (simp add: deletes_def)
  qed
qed (use assms in \<open>auto simp: set_entry_annotations_def mark_entry_as_uploaded_def keeps_name_def
    intro!: update_size_sound set_current_stop_reason_sound change_named_sound delete_all_sound\<close>)

fun store_run :: "'e store_env \<Rightarrow> store_op list \<Rightarrow> 'z store_scheme \<Rightarrow> 'z store_scheme" where
  "store_run env [] s = s"
| "store_run env (op # ops) s = store_run env ops (snd (run_state (store_step env op) s))"

lemma store_step_result:
  fixes s :: "'z store_scheme" and env :: "'e store_env"
  assumes "toml_ok env"
  obtains r :: "'e RecordingStoreError + unit" where "sound env s r (snd (run_state (store_step env op) s))"
  using store_step_sound [OF assms, of op s] by (auto simp: wp_def case_prod_beta)

lemma store_run_survives:
  fixes s :: "'z store_scheme" and env :: "'e store_env"
  assumes "toml_ok env"
  shows "index_ok s \<Longrightarrow> manifest_at env s (rs_path s) = Some m \<Longrightarrow>
    index_ok (store_run env ops s) \<and> rs_path (store_run env ops s) = rs_path s \<and>
    (\<exists>m'. manifest_at env (store_run env ops s) (rs_path s) = Some m' \<and>
       (m' = m \<or> (\<exists>k. m' = rs_entries (store_run env (take k ops) s))))"
proof (induction ops arbitrary: s m)
  case (Cons op ops)
  let ?t = "snd (run_state (store_step env op) s)"
  obtain r :: "'e RecordingStoreError + unit" where sd: "sound env s r ?t" by (rule store_step_result [OF assms])
  then obtain m1 where t: "index_ok ?t" "rs_path ?t = rs_path s" "manifest_at env ?t (rs_path ?t) = Some m1"
      and m1: "m1 = m \<or> m1 = rs_entries ?t"
    using Cons.prems by (auto simp: sound_def)
  from Cons.IH [OF t(1,3)] obtain m' where ih: "index_ok (store_run env ops ?t)" "rs_path (store_run env ops ?t) = rs_path s"
      "manifest_at env (store_run env ops ?t) (rs_path s) = Some m'"
      and m': "m' = m1 \<or> (\<exists>k. m' = rs_entries (store_run env (take k ops) ?t))"
    unfolding t(2) by blast
  have "m' = m \<or> (\<exists>k. m' = rs_entries (store_run env (take k (op # ops)) s))"
    using m'
  proof
    assume "m' = m1"
    with m1 show ?thesis by (auto intro: exI [of _ "Suc 0"])
  next
    assume "\<exists>k. m' = rs_entries (store_run env (take k ops) ?t)"
    then obtain k where "m' = rs_entries (store_run env (take (Suc k) (op # ops)) s)" by auto
    then show ?thesis by blast
  qed
  with ih show ?case by simp
qed simp

section \<open>A codec for the witnesses\<close>

text \<open>Any injective coding of manifests into text makes \<open>toml_ok\<close> hold; this one writes a number.\<close>

instance GpsMode :: countable
  by countable_datatype

definition entry_tuple :: "ManifestEntry \<Rightarrow> (ustr \<times> int \<times> int option \<times> nat \<times> ustr option \<times> ustr option \<times> ustr option)
    \<times> ustr option \<times> int option \<times> GpsMode option \<times> bool \<times> ustr option \<times> ustr option" where
  "entry_tuple e = ((me_name e, me_start_time e, me_last_message_time e, me_qmdl_size_bytes e, me_rayhunter_version e,
     me_system_os e, me_arch e), me_stop_reason e, me_upload_time e, me_gps_mode e, me_compressed e, me_display_name e, me_notes e)"

fun tuple_entry :: "(ustr \<times> int \<times> int option \<times> nat \<times> ustr option \<times> ustr option \<times> ustr option)
    \<times> ustr option \<times> int option \<times> GpsMode option \<times> bool \<times> ustr option \<times> ustr option \<Rightarrow> ManifestEntry" where
  "tuple_entry ((n, st, lm, sz, v, os, ar), sr, ut, gm, c, dn, no) =
     \<lparr>me_name = n, me_start_time = st, me_last_message_time = lm, me_qmdl_size_bytes = sz, me_rayhunter_version = v,
      me_system_os = os, me_arch = ar, me_stop_reason = sr, me_upload_time = ut, me_gps_mode = gm, me_compressed = c,
      me_display_name = dn, me_notes = no\<rparr>"

lemma tuple_entry_tuple: "tuple_entry (entry_tuple e) = e"
  by (simp add: entry_tuple_def)

lemma digits_to_nat_append: "digits_to_nat a (xs @ ys) = Option.bind (digits_to_nat a xs) (\<lambda>b. digits_to_nat b ys)"
  by (induction a xs rule: digits_to_nat.induct) auto

lemma decimal_digit: "n < 10 \<Longrightarrow> decimal n = [48 + n]"
  by (subst decimal.simps) simp

lemma decimal_step: "\<not> n < 10 \<Longrightarrow> decimal n = decimal (n div 10) @ [48 + n mod 10]"
  by (subst decimal.simps) simp

lemma digits_to_nat_decimal [simp]: "digits_to_nat 0 (decimal n) = Some n"
proof (induction n rule: decimal.induct)
  case (1 n)
  then show ?case
    by (cases "n < 10") (simp_all add: decimal_digit decimal_step digits_to_nat_append is_ascii_digit_def)
qed

lemma decimal_nonempty [simp]: "decimal n \<noteq> []"
  by (cases "n < 10") (simp_all add: decimal_digit decimal_step)

lemma decimal_digits: "c \<in> set (decimal n) \<Longrightarrow> 48 \<le> c \<and> c \<le> 57"
proof (induction n rule: decimal.induct)
  case (1 n)
  then show ?case by (cases "n < 10") (auto simp: decimal_digit decimal_step)
qed

lemma from_utf8_ascii: "\<forall>c \<in> set t. c < 128 \<Longrightarrow> from_utf8 (utf8_bytes t) = Some t"
proof -
  assume "\<forall>c \<in> set t. c < 128"
  then have "from_utf8_lossy (utf8_bytes t) = t"
    by (induction t) (auto simp: utf8_bytes_def utf8_char_def utf8_step_def unat_of_nat Let_def)
  then show ?thesis by (simp add: from_utf8_def)
qed

definition sample_env :: "unit store_env" where
  "sample_env = \<lparr>se_toml = (\<lambda>es. decimal (to_nat (map entry_tuple es))),
     se_untoml = (\<lambda>t. case digits_to_nat 0 t of None \<Rightarrow> Inl () | Some n \<Rightarrow> Inr (map tuple_entry (from_nat n))),
     se_runtime = (lit ''0.11.0'', lit ''Linux'', lit ''armv7l''), se_finish_meta = (\<lambda>_. None),
     se_time_ok = (\<lambda>_. True), se_modified = (\<lambda>_. Some 0)\<rparr>"

lemma sample_env_ok: "toml_ok sample_env"
proof -
  have "from_utf8 (utf8_bytes (decimal n)) = Some (decimal n)" for n
    by (rule from_utf8_ascii) (use decimal_digits in force)
  moreover have "map (tuple_entry \<circ> entry_tuple) es = es" for es
    by (simp add: map_idI tuple_entry_tuple)
  ultimately show ?thesis by (simp add: toml_ok_def sample_env_def)
qed

section \<open>The guarantees\<close>


definition sample_store :: store where
  "sample_store = \<lparr>w_files = (\<lambda>p. if p = Path (lit ''/data'') MANIFEST then Some (utf8_bytes (se_toml sample_env [])) else None),
     w_dirs = [lit ''/data''], w_faults = [None, None, Some 0], w_clock = (\<lambda>_. 1700000000 * NANOS), w_clock_reads = 0,
     w_space = (\<lambda>_. None), w_space_reads = 0, w_sequence = 0,
     rs_path = lit ''/data'', rs_entries = [], rs_current = None\<rparr>"

lemma sample_store_manifest: "manifest_at sample_env sample_store (rs_path sample_store) = Some []"
  by (rule toml_okD [OF sample_env_ok]) (simp add: sample_store_def)


text \<open>C31: No capture is forgotten. After any operation, whether it succeeds or not and whatever fails on the way,
  every capture file the store knew of is either gone or still known to it; deleting never leaves a
  capture on the disk that the unit no longer shows.\<close>

theorem captures_stay_known:
  assumes "toml_ok env" and "p \<in> recordings s"
    and "run_state (store_step env op) s = (r, s')" and "w_files s' p \<noteq> None"
  shows "p \<in> recordings s'"
  using wp_run [OF store_step_sound [OF assms(1)] assms(3)] assms(2,4) by (auto simp: sound_def)

definition one_recording :: store where
  "one_recording = sample_store\<lparr>w_files := (w_files sample_store)(Path (lit ''/data'') (lit ''1-0.qmdl.gz'') \<mapsto> [0x1f]),
     w_faults := [Some 0],
     rs_entries := [\<lparr>me_name = lit ''1-0'', me_start_time = NANOS, me_last_message_time = None, me_qmdl_size_bytes = 1,
       me_rayhunter_version = None, me_system_os = None, me_arch = None, me_stop_reason = None, me_upload_time = None,
       me_gps_mode = None, me_compressed = True, me_display_name = None, me_notes = None\<rparr>]\<rparr>"

theorem captures_stay_known_witness:
  "Path (lit ''/data'') (lit ''1-0.qmdl.gz'') \<in> recordings (snd (run_state (store_step sample_env (DeleteEntry (lit ''1-0''))) one_recording))"
proof (rule captures_stay_known [OF sample_env_ok])
  show "Path (lit ''/data'') (lit ''1-0.qmdl.gz'') \<in> recordings one_recording"
    by (simp add: recordings_def one_recording_def entry_file_def get_filepath_def sample_store_def)
  show "run_state (store_step sample_env (DeleteEntry (lit ''1-0''))) one_recording
      = (fst (run_state (store_step sample_env (DeleteEntry (lit ''1-0''))) one_recording),
         snd (run_state (store_step sample_env (DeleteEntry (lit ''1-0''))) one_recording))"
    by simp
  have "wp (store_step sample_env (DeleteEntry (lit ''1-0'')))
      (\<lambda>_ s'. w_files s' (Path (lit ''/data'') (lit ''1-0.qmdl.gz'')) \<noteq> None) one_recording"
    by (simp add: store_delete_entry_def wp_simps position_def one_recording_def sample_store_def files_of_def ALL_FILES_def
        remove_file_if_exists_def faulted_def entry_file_def get_filepath_def next_op_def)
  then show "w_files (snd (run_state (store_step sample_env (DeleteEntry (lit ''1-0''))) one_recording))
      (Path (lit ''/data'') (lit ''1-0.qmdl.gz'')) \<noteq> None"
    by (simp add: wp_def case_prod_beta)
qed



text \<open>C33: Deleting a recording is all or nothing for the list, and leaves the running one alone. If it succeeds,
  exactly that entry is gone and none of its files is left; if a file could not be removed, the list and the
  current recording are as they were. Unless it was the one deleted, the current recording is the same
  entry afterwards.\<close>

theorem delete_entry_complete:
  assumes "toml_ok env" and "position name (rs_entries s) = Some i"
    and "run_state (store_delete_entry env name) s = (r, s')"
  shows "(case r of
        Inr _ \<Rightarrow> rs_entries s' = remove_at i (rs_entries s)
          \<and> (\<forall>p \<in> set (files_of (rs_path s) (rs_entries s ! i)). w_files s' p = None)
      | Inl (DeleteFileError _) \<Rightarrow> rs_entries s' = rs_entries s \<and> rs_current s' = rs_current s
      | Inl _ \<Rightarrow> True)
   \<and> (index_ok s \<longrightarrow> rs_current s \<noteq> Some i \<longrightarrow> map_option snd (get_current_entry s') = map_option snd (get_current_entry s))"
  using wp_run [OF store_delete_entry_deletes [OF assms(1,2)] assms(3)] by (simp add: deletes_def)

theorem delete_entry_complete_witness:
  "map_option snd (get_current_entry (snd (run_state (store_delete_entry sample_env (lit ''1-0'')) one_recording))) = None"
proof -
  have "position (lit ''1-0'') (rs_entries one_recording) = Some 0" by (simp add: position_def one_recording_def)
  from delete_entry_complete [OF sample_env_ok this surjective_pairing] show ?thesis
    by (simp add: index_ok_def get_current_entry_def one_recording_def sample_store_def)
qed

end
