(* ===== verification/Recovery.thy ===== *)
theory Recovery
  imports StoreProps
begin

text \<open>
  Rebuilding a lost manifest from the files (\<open>RecordingStore::recover\<close> in \<open>daemon/src/qmdl_store.rs\<close>): the
  name a recording is given is enough to find it again. Also the display names people give.
\<close>

section \<open>Names\<close>

lemma strip_all_skip: "p \<noteq> [] \<Longrightarrow> \<not> starts_with p s \<Longrightarrow> strip_all p s = s"
  by (subst strip_all.simps) simp

lemma strip_all_once: "p \<noteq> [] \<Longrightarrow> \<not> starts_with p s \<Longrightarrow> strip_all p (p @ s) = s"
  by (subst strip_all.simps) (simp add: starts_with_iff strip_all_skip)

lemma starts_with_Cons: "starts_with (c # p) (d # s) \<longleftrightarrow> c = d \<and> starts_with p s"
  by (auto simp: starts_with_iff)

lemma last_decimal: "48 \<le> last (decimal n) \<and> last (decimal n) \<le> 57"
  using decimal_digits [of "last (decimal n)" n] by simp

lemma rev_entry_name: "\<exists>c rest. rev (entry_name now q) = c # rest \<and> 48 \<le> c \<and> c \<le> 57"
proof -
  have "rev (decimal q) = last (decimal q) # rev (butlast (decimal q))"
    by (metis append_butlast_last_id decimal_nonempty rev.simps(2) rev_rev_ident rev_append append_Cons append_Nil)
  then have "rev (entry_name now q) = last (decimal q) # rev (butlast (decimal q)) @ rev (decimal_int (now div NANOS) @ [45])"
    by (simp add: entry_name_def)
  with last_decimal show ?thesis by blast
qed

lemma stem_of_entry: "recording_stem (get_filename Qmdl (entry_name now q) True) = Some (entry_name now q, True)"
proof -
  obtain c rest where r: "rev (entry_name now q) = c # rest" "48 \<le> c" "c \<le> 57" using rev_entry_name by blast
  have rev_z: "rev (lit ''.qmdl.gz'') = [122, 103, 46, 108, 100, 109, 113, 46]" and rev_q: "rev (lit ''.qmdl'') = [108, 100, 109, 113, 46]"
    by simp_all
  have "\<not> starts_with (rev (lit ''.qmdl.gz'')) (rev (entry_name now q))"
    using r by (simp add: rev_z starts_with_Cons)
  then have "trim_end_matches (lit ''.qmdl.gz'') (entry_name now q @ lit ''.qmdl.gz'') = entry_name now q"
    unfolding trim_end_matches_def rev_append by (subst strip_all_once) simp_all
  moreover have "\<not> ends_with (lit ''.qmdl'') (entry_name now q @ lit ''.qmdl.gz'')"
    unfolding ends_with_def rev_append rev_z rev_q by (simp add: starts_with_Cons)
  moreover have "ends_with (lit ''.qmdl.gz'') (entry_name now q @ lit ''.qmdl.gz'')"
    unfolding ends_with_def rev_append starts_with_iff by blast
  ultimately show ?thesis by (simp only: recording_stem_def get_filename.simps if_True if_False)
qed

lemma start_of_entry:
  assumes "0 \<le> now" and "now div NANOS < 2 ^ 63"
  shows "start_seconds (entry_name now q) = Some (now div NANOS)"
proof -
  let ?n = "nat (now div NANOS)"
  have pos: "0 \<le> now div NANOS" using assms(1) by (simp add: NANOS_def pos_imp_zdiv_nonneg_iff)
  then have name: "entry_name now q = decimal ?n @ [45] @ decimal q"
    by (simp add: entry_name_def decimal_int_def)
  have tw: "takeWhile (\<lambda>c. c \<noteq> 45) (decimal ?n @ [45] @ decimal q) = decimal ?n"
    using decimal_digits [of 45 ?n] by (subst takeWhile_append2) auto
  obtain c cs where d: "decimal ?n = c # cs" by (cases "decimal ?n") auto
  then have "48 \<le> c" using decimal_digits [of c ?n] by simp
  moreover have "digits_to_nat 0 (c # cs) = Some ?n" using d digits_to_nat_decimal [of ?n] by simp
  ultimately show ?thesis
    unfolding start_seconds_def name tw unfolding parse_i64_def d
    using pos assms(2) by (simp add: Let_def del: digits_to_nat.simps)
qed

section \<open>Recovery finds every recording\<close>

lemma recovered_quiet:
  assumes "w_faults s = []"
  shows "wp (recovered_entry env path f) (\<lambda>_ s'. s' = s) s"
proof -
  have "next_op s = s" using assms by (cases s) (simp add: next_op_def)
  moreover have "\<not> faulted s" using assms by (simp add: faulted_def)
  ultimately show ?thesis
    by (auto simp: recovered_entry_def wp_simps split: option.splits)
qed

lemma recovered_entries_contain:
  assumes "w_faults s = []"
  shows "wp (recovered_entries env path fs) (\<lambda>es s'. s' = s \<and>
     (\<forall>f \<in> set fs. \<forall>e. wp (recovered_entry env path f) (\<lambda>r _. r = Some e) s \<longrightarrow> e \<in> set es)) s"
proof (induction fs)
  case Nil
  then show ?case by (simp add: wp_simps)
next
  case (Cons f fs)
  show ?case
    unfolding recovered_entries.simps wp_bind wp_return
  proof (rule run_wp, goal_cases)
    case (1 r s1)
    have s1: "s1 = s" using wp_run [OF recovered_quiet [OF assms] 1] .
    have "r = Some e" if "wp (recovered_entry env path f) (\<lambda>r _. r = Some e) s" for e
      using wp_run [OF that 1] .
    then show ?case unfolding s1 by (intro wp_mono [OF Cons.IH]) (auto split: option.split)
  qed
qed

lemma wp_recovered_entry:
  assumes "recording_stem f = Some (stem, compressed)" "start_seconds stem = Some seconds" "w_files s (Path path f) = Some bs"
    "se_time_ok env seconds" "se_modified env (Path path f) = Some modified" "\<not> faulted s"
  shows "wp (recovered_entry env path f) (\<lambda>r _. r = Some
      \<lparr>me_name = stem, me_start_time = seconds * NANOS, me_last_message_time = Some modified,
       me_qmdl_size_bytes = length bs, me_rayhunter_version = None, me_system_os = None,
       me_arch = None, me_stop_reason = None, me_upload_time = None, me_gps_mode = None,
       me_compressed = compressed, me_display_name = None, me_notes = None\<rparr>) s"
  using assms by (simp add: recovered_entry_def wp_simps)

text \<open>C34: A lost manifest loses no recording. On a disk that works, recovery lists every recording that was started
  by this program (at a corrected time after 1970) and whose file is in the directory: under its name, with its
  start to the second and its size; the list is in the order of the starts and is what the new manifest says.\<close>

theorem recovery_finds_recordings:
  assumes "toml_ok env" and "w_faults s = []" and "run_state (store_recover env (Inr names) path) s = (r, s')"
    and "0 \<le> now" "now div NANOS < 2 ^ 63" and "get_filename Qmdl (entry_name now q) True \<in> set names"
    and "w_files s (Path path (get_filename Qmdl (entry_name now q) True)) = Some bs"
    and "se_time_ok env (now div NANOS)"
    and "se_modified env (Path path (get_filename Qmdl (entry_name now q) True)) = Some modified"
  shows "\<exists>entries. r = Inr (path, entries) \<and> sorted (map me_start_time entries)
     \<and> manifest_at env s' path = Some entries
     \<and> (\<exists>e \<in> set entries. me_name e = entry_name now q \<and> me_start_time e = now div NANOS * NANOS
          \<and> me_qmdl_size_bytes e = length bs \<and> me_compressed e)"
proof -
  let ?f = "get_filename Qmdl (entry_name now q) True"
  have quiet: "\<not> faulted s" using assms(2) by (simp add: faulted_def)
  let ?Q = "\<lambda>r s'. \<exists>entries. r = Inr (path, entries) \<and> sorted (map me_start_time entries)
     \<and> manifest_at env s' path = Some entries
     \<and> (\<exists>e \<in> set entries. me_name e = entry_name now q \<and> me_start_time e = now div NANOS * NANOS
          \<and> me_qmdl_size_bytes e = length bs \<and> me_compressed e)"
  have "wp (store_recover env (Inr names) path) ?Q s"
    unfolding store_recover_def sum.case wp_bind
  proof (rule wp_mono [OF recovered_entries_contain [OF assms(2)]], goal_cases)
    case (1 es t)
    from 1 wp_recovered_entry [OF stem_of_entry start_of_entry [OF assms(4,5)] assms(7,8,9) quiet] assms(6)
    obtain e where e: "e \<in> set es" "me_name e = entry_name now q" "me_start_time e = now div NANOS * NANOS"
        "me_qmdl_size_bytes e = length bs" "me_compressed e"
      by (metis ManifestEntry.select_convs(1,2,4,11))
    have t: "t = s" using 1 by blast
    have free: "\<not> faulted ((next_op u)\<lparr>w_files := fs\<rparr>) \<and> w_faults ((next_op u)\<lparr>w_files := fs\<rparr>) = []" if "w_faults u = []" for u fs
      using that by (simp add: faulted_def next_op_def)
    have "wp (write_manifest_at env path (sort_key me_start_time es))
        (\<lambda>r s'. r = Inr () \<and> manifest_at env s' path = Some (sort_key me_start_time es)) s"
      using quiet free assms(2)
      by (simp add: write_manifest_at_def wp_simps faulted_def next_op_def toml_okD [OF assms(1)])
    then have "wp (write_manifest_at env path (sort_key me_start_time es))
        (\<lambda>r s'. case r of Inl x \<Rightarrow> ?Q (Inl x) s' | Inr _ \<Rightarrow> ?Q (Inr (path, sort_key me_start_time es)) s') s"
      by (rule wp_mono) (use e in \<open>auto intro!: bexI [of _ e]\<close>)
    then show ?case by (simp add: t Let_def wp_attempt wp_ok cong: sum.case_cong)
  qed
  then show ?thesis by (rule wp_run [OF _ assms(3)])
qed

definition recovery_store :: store where
  "recovery_store = one_recording\<lparr>w_faults := []\<rparr>"

theorem recovery_finds_recordings_witness:
  "\<exists>entries. fst (run_state (store_recover sample_env (Inr [lit ''1-0.qmdl.gz'', MANIFEST]) (lit ''/data'')) recovery_store)
       = Inr (lit ''/data'', entries)
     \<and> sorted (map me_start_time entries)
     \<and> manifest_at sample_env (snd (run_state (store_recover sample_env (Inr [lit ''1-0.qmdl.gz'', MANIFEST]) (lit ''/data'')) recovery_store))
         (lit ''/data'') = Some entries
     \<and> (\<exists>e \<in> set entries. me_name e = entry_name NANOS 0 \<and> me_start_time e = NANOS div NANOS * NANOS
          \<and> me_qmdl_size_bytes e = length [0x1f :: u8] \<and> me_compressed e)"
proof (rule recovery_finds_recordings [OF sample_env_ok _ surjective_pairing])
  have name: "get_filename Qmdl (entry_name NANOS 0) True = lit ''1-0.qmdl.gz''"
    by (simp add: entry_name_def decimal_int_def NANOS_def decimal_digit)
  show "w_faults recovery_store = []" by (simp add: recovery_store_def)
  show "get_filename Qmdl (entry_name NANOS 0) True \<in> set [lit ''1-0.qmdl.gz'', MANIFEST]" unfolding name by simp
  show "w_files recovery_store (Path (lit ''/data'') (get_filename Qmdl (entry_name NANOS 0) True)) = Some [0x1f]"
    unfolding name by (simp add: recovery_store_def one_recording_def)
qed (simp_all add: NANOS_def sample_env_def)

text \<open>A manifest that is not UTF-8 is an error of reading, not of parsing, and stops the opening: recovery is not
  tried, whatever recordings the directory holds.\<close>

lemma corrupt_manifest_not_recovered:
  assumes "w_faults s = []" and "path \<in> set (w_dirs s)" and "w_files s (Path path MANIFEST) = Some [0xff]"
  shows "fst (run_state (open_or_recover env listing path) s) = Inl (ReadManifestError None)"
proof -
  have "from_utf8 [0xff] = None"
    by (simp add: from_utf8_def utf8_step_def utf8_bytes_def utf8_char_def REPLACEMENT_def Let_def)
  with assms have "wp (open_or_recover env listing path) (\<lambda>r _. r = Inl (ReadManifestError None)) s"
    by (simp add: open_or_recover_def store_load_def read_manifest_def wp_simps faulted_def next_op_def)
  then show ?thesis by (simp add: wp_def case_prod_beta)
qed

section \<open>Display names\<close>

lemma sanitize_display_name_safe:
  "let n = sanitize_display_name name in
     length n \<le> MAX_DISPLAY_NAME \<and> list_all is_name_char n \<and> sanitize_display_name n = n"
proof -
  let ?strip = "\<lambda>t. rev (dropWhile (\<lambda>c. c = 95) (rev (dropWhile (\<lambda>c. c = 95) t)))"
  define cleaned where "cleaned = take MAX_DISPLAY_NAME (map (\<lambda>c. if is_name_char c then c else 95) name)"
  have ok: "\<forall>c \<in> set cleaned. is_name_char c"
    by (auto simp: cleaned_def is_name_char_def dest!: in_set_takeD)
  have sub: "set (?strip t) \<subseteq> set t" for t :: ustr by (auto dest!: set_dropWhileD)
  have len: "length (?strip t) \<le> length t" for t :: ustr
    using length_dropWhile_le [of "\<lambda>c. c = 95" "rev (dropWhile (\<lambda>c. c = 95) t)"] length_dropWhile_le [of "\<lambda>c. c = 95" t] by simp
  have twice: "?strip (?strip t) = ?strip t" for t :: ustr
  proof (cases "?strip t")
    case (Cons c cs)
    let ?d = "dropWhile (\<lambda>c. c = 95) t"
    have "?d = rev (takeWhile (\<lambda>c. c = 95) (rev ?d) @ dropWhile (\<lambda>c. c = 95) (rev ?d))" by simp
    also have "\<dots> = c # cs @ rev (takeWhile (\<lambda>c. c = 95) (rev ?d))" using Cons by (simp only: rev_append append_Cons)
    finally obtain u where d: "?d = c # u" by blast
    have "c \<noteq> 95" using hd_dropWhile [of "\<lambda>c. c = 95" t] unfolding d by simp
    then have "dropWhile (\<lambda>c. c = 95) (?strip t) = ?strip t" by (simp add: Cons)
    moreover have "dropWhile (\<lambda>c. c = 95) (rev (?strip t)) = rev (?strip t)" by simp
    ultimately show ?thesis by (simp only: rev_rev_ident)
  next
    case Nil
    show ?thesis unfolding Nil by simp
  qed
  let ?n = "?strip cleaned"
  have "map (\<lambda>c. if is_name_char c then c else 95) ?n = ?n" using ok sub [of cleaned] by (intro map_idI) auto
  moreover have n: "length ?n \<le> MAX_DISPLAY_NAME" using len [of cleaned] by (simp add: cleaned_def)
  ultimately have "sanitize_display_name ?n = ?n" by (simp add: sanitize_display_name_def twice)
  moreover have "list_all is_name_char ?n" using ok sub [of cleaned] by (auto simp: list_all_iff)
  ultimately show ?thesis using n by (simp add: sanitize_display_name_def [of name] cleaned_def Let_def)
qed

end
