(* ===== verification/Cleanup.thy ===== *)
theory Cleanup
  imports StoreProps Scan
begin

text \<open>
  Making room by removing recordings that found nothing (\<open>daemon/src/cleanup.rs\<close>): how a line of an analysis
  report reads, the verdict on one recording, and the loop over the recordings, oldest first, until there is
  room. JSON decoding is a parameter. The property is the one the source asks for: what is interesting, or what
  nobody can tell is not, is never touched.
\<close>

section \<open>A line of a report\<close>

datatype json = JNull | JBool bool | JNumber ustr | JString ustr | JArray "json list" | JObject "(ustr \<times> json) list"

text \<open>\<open>Value::get\<close>, \<open>as_array\<close>, \<open>as_str\<close>. The keys of an object are distinct.\<close>

fun json_get :: "ustr \<Rightarrow> json \<Rightarrow> json option" where
  "json_get key (JObject kvs) = map_of kvs key"
| "json_get key _ = None"

fun as_array :: "json \<Rightarrow> json list option" where
  "as_array (JArray xs) = Some xs"
| "as_array _ = None"

fun as_str :: "json \<Rightarrow> ustr option" where
  "as_str (JString s) = Some s"
| "as_str _ = None"

datatype LineClass = WarningLine | NoWarningLine | MalformedLine

definition classify_line :: "(ustr \<Rightarrow> json option) \<Rightarrow> ustr \<Rightarrow> LineClass" where
  "classify_line from_str line =
     (let trimmed = trim line in
      if trimmed = [] then NoWarningLine
      else (case from_str trimmed of
          None \<Rightarrow> MalformedLine
        | Some value \<Rightarrow>
            (case Option.bind (json_get (lit ''events'') value) as_array of
               None \<Rightarrow> NoWarningLine
             | Some events \<Rightarrow>
                 if list_ex (\<lambda>event. case Option.bind (json_get (lit ''event_type'') event) as_str of
                      None \<Rightarrow> False | Some t \<Rightarrow> t \<noteq> lit ''Informational'') events
                 then WarningLine else NoWarningLine)))"

section \<open>The verdict on a recording\<close>

datatype Verdict = CleanVerdict | HasWarnings | UnknownVerdict

text \<open>\<open>Lines::next_line\<close> over the pieces that a line feed ends. Reading a piece may fail.\<close>

definition next_line :: "bytes option \<Rightarrow> ('z os_scheme, IoError + ustr option) state" where
  "next_line piece = unless_fault (\<lambda>fs.
     (case piece of
        None \<Rightarrow> Inr None
      | Some bs \<Rightarrow> (case from_utf8 bs of None \<Rightarrow> Inl OtherIo | Some text \<Rightarrow> Inr (Some (chomp text))), fs))"

fun read_report :: "(ustr \<Rightarrow> json option) \<Rightarrow> bool \<Rightarrow> bytes list \<Rightarrow> ('z os_scheme, Verdict) state" where
  "read_report from_str saw_a_line [] = do {
     r \<leftarrow> next_line None;
     State_Monad.return (case r of Inl _ \<Rightarrow> UnknownVerdict | Inr _ \<Rightarrow> if saw_a_line then CleanVerdict else UnknownVerdict) }"
| "read_report from_str saw_a_line (piece # pieces) = do {
     r \<leftarrow> next_line (Some piece);
     (case r of
        Inr (Some line) \<Rightarrow>
          (case classify_line from_str line of
             WarningLine \<Rightarrow> State_Monad.return HasWarnings
           | MalformedLine \<Rightarrow> State_Monad.return UnknownVerdict
           | NoWarningLine \<Rightarrow> read_report from_str (saw_a_line \<or> trim line \<noteq> []) pieces)
      | _ \<Rightarrow> State_Monad.return UnknownVerdict) }"

definition verdict_for :: "(ustr \<Rightarrow> json option) \<Rightarrow> bool \<Rightarrow> nat \<Rightarrow> ('z store_scheme, Verdict) state" where
  "verdict_for from_str uploads_configured index = do {
     s \<leftarrow> State_Monad.get;
     (if index \<ge> length (rs_entries s) then State_Monad.return UnknownVerdict
      else let entry = rs_entries s ! index in
        if is_current_entry (me_name entry) s then State_Monad.return UnknownVerdict
        else if uploads_configured \<and> me_upload_time entry = None then State_Monad.return UnknownVerdict
        else if me_display_name entry \<noteq> None \<or> me_notes entry \<noteq> None then State_Monad.return UnknownVerdict
        else do {
          r \<leftarrow> (open_file index Analysis :: ('z store_scheme, unit RecordingStoreError + bytes option) state);
          (case r of
             Inr (Some bs) \<Rightarrow> read_report from_str False (split_inclusive 10 bs)
           | _ \<Rightarrow> State_Monad.return UnknownVerdict) }) }"

section \<open>The loop\<close>

definition available_mb :: "('z os_scheme, nat) state" where
  "available_mb = do {
     stats \<leftarrow> disk_stats;
     State_Monad.return (case stats of
        None \<Rightarrow> 2 ^ 64 - 1
      | Some available_bytes \<Rightarrow> (case available_bytes of None \<Rightarrow> 0 | Some b \<Rightarrow> b) div 1024 div 1024) }"

fun prune_loop :: "'e store_env \<Rightarrow> (ustr \<Rightarrow> json option) \<Rightarrow> nat \<Rightarrow> bool \<Rightarrow> ustr list \<Rightarrow> nat
    \<Rightarrow> ('z store_scheme, nat) state" where
  "prune_loop env from_str target_mb uploads_configured [] removed = State_Monad.return removed"
| "prune_loop env from_str target_mb uploads_configured (name # names) removed = do {
     mb \<leftarrow> available_mb;
     if mb \<ge> target_mb then State_Monad.return removed
     else do {
       s \<leftarrow> State_Monad.get;
       (case entry_for_name name s of
          None \<Rightarrow> prune_loop env from_str target_mb uploads_configured names removed
        | Some (index, _) \<Rightarrow> do {
            verdict \<leftarrow> verdict_for from_str uploads_configured index;
            if verdict \<noteq> CleanVerdict then prune_loop env from_str target_mb uploads_configured names removed
            else do {
              r \<leftarrow> store_delete_entry env name;
              prune_loop env from_str target_mb uploads_configured names
                (case r of Inr _ \<Rightarrow> removed + 1 | Inl _ \<Rightarrow> removed) } }) } }"

definition prune_clean_recordings :: "'e store_env \<Rightarrow> (ustr \<Rightarrow> json option) \<Rightarrow> nat \<Rightarrow> bool
    \<Rightarrow> ('z store_scheme, nat) state" where
  "prune_clean_recordings env from_str target_mb uploads_configured = do {
     mb \<leftarrow> available_mb;
     if mb \<ge> target_mb then State_Monad.return 0
     else do {
       s \<leftarrow> State_Monad.get;
       prune_loop env from_str target_mb uploads_configured (map me_name (rs_entries s)) 0 } }"

section \<open>What a clean verdict means\<close>

text \<open>The report of a recording that found nothing: every line is text that parses and carries no warning, and
  there is a line that is not blank.\<close>

definition report_line :: "(ustr \<Rightarrow> json option) \<Rightarrow> bytes \<Rightarrow> LineClass" where
  "report_line from_str piece = (case from_utf8 piece of None \<Rightarrow> MalformedLine | Some text \<Rightarrow> classify_line from_str (chomp text))"

definition blank :: "bytes \<Rightarrow> bool" where
  "blank piece \<longleftrightarrow> (case from_utf8 piece of None \<Rightarrow> False | Some text \<Rightarrow> trim (chomp text) = [])"

definition report_clean :: "(ustr \<Rightarrow> json option) \<Rightarrow> bytes option \<Rightarrow> bool" where
  "report_clean from_str report = (case report of
     None \<Rightarrow> False
   | Some bs \<Rightarrow> list_all (\<lambda>p. report_line from_str p = NoWarningLine) (split_inclusive 10 bs)
       \<and> list_ex (\<lambda>p. \<not> blank p) (split_inclusive 10 bs))"

text \<open>Why a recording is kept.\<close>

definition worth_keeping :: "(ustr \<Rightarrow> json option) \<Rightarrow> bool \<Rightarrow> 'z store_scheme \<Rightarrow> ManifestEntry \<Rightarrow> bool" where
  "worth_keeping from_str uploads_configured s e \<longleftrightarrow>
     is_current_entry (me_name e) s
   \<or> uploads_configured \<and> me_upload_time e = None
   \<or> me_display_name e \<noteq> None \<or> me_notes e \<noteq> None
   \<or> \<not> report_clean from_str (w_files s (entry_file Analysis e (rs_path s)))"

lemma wp_next_line [wp_simps]:
  "wp (next_line piece) Q s =
     (if faulted s then Q (Inl OtherIo) (next_op s)
      else Q (case piece of None \<Rightarrow> Inr None
        | Some bs \<Rightarrow> (case from_utf8 bs of None \<Rightarrow> Inl OtherIo | Some text \<Rightarrow> Inr (Some (chomp text)))) (next_op s))"
  by (simp add: next_line_def wp_unless_fault)

definition free_mb :: "'z os_scheme \<Rightarrow> nat \<Rightarrow> nat" where
  "free_mb s k = (case w_space s k of None \<Rightarrow> 2 ^ 64 - 1
     | Some available_bytes \<Rightarrow> (case available_bytes of None \<Rightarrow> 0 | Some b \<Rightarrow> b) div 1024 div 1024)"

lemma free_mb_cong [simp]: "free_mb (s\<lparr>w_space_reads := n\<rparr>) k = free_mb s k"
  by (simp add: free_mb_def)

lemma wp_available_mb [wp_simps]:
  "wp available_mb Q s = Q (free_mb s (w_space_reads s)) (s\<lparr>w_space_reads := Suc (w_space_reads s)\<rparr>)"
  by (simp add: available_mb_def wp_simps free_mb_def)

lemma read_report_clean:
  "wp (read_report from_str saw pieces) (\<lambda>v s'. io_only {} s s' \<and>
     (v = CleanVerdict \<longrightarrow> list_all (\<lambda>p. report_line from_str p = NoWarningLine) pieces
        \<and> (saw \<or> list_ex (\<lambda>p. \<not> blank p) pieces))) s"
proof (induction pieces arbitrary: saw s)
  case Nil
  then show ?case by (simp add: wp_simps)
next
  case (Cons p ps)
  show ?case
  proof (cases "from_utf8 p")
    case None
    then show ?thesis by (simp add: wp_simps)
  next
    case (Some t)
    have "wp (read_report from_str (saw \<or> trim (chomp t) \<noteq> []) ps) (\<lambda>v s'. io_only {} s s' \<and>
       (v = CleanVerdict \<longrightarrow> list_all (\<lambda>p. report_line from_str p = NoWarningLine) ps
          \<and> (saw \<or> \<not> blank p \<or> list_ex (\<lambda>p. \<not> blank p) ps))) (next_op s)"
      by (rule wp_mono [OF Cons.IH])
         (use io_only_trans_same [OF io_only_next_op [of "{}" s]] Some in \<open>auto simp: blank_def\<close>)
    with Some show ?thesis
      by (auto simp: wp_simps report_line_def split: LineClass.split elim!: wp_mono)
  qed
qed

lemma verdict_for_clean:
  fixes s :: "'z store_scheme"
  shows "wp (verdict_for from_str uploads_configured i) (\<lambda>v s'. io_only {} s s' \<and>
     (v = CleanVerdict \<longrightarrow> i < length (rs_entries s) \<and> \<not> worth_keeping from_str uploads_configured s (rs_entries s ! i))) s"
proof -
  let ?e = "rs_entries s ! i"
  let ?f = "entry_file Analysis ?e (rs_path s)"
  have "wp (read_report from_str False (split_inclusive 10 bs)) (\<lambda>v s'. io_only {} s s' \<and>
      (v = CleanVerdict \<longrightarrow> report_clean from_str (Some bs))) (next_op s)" for bs
    by (rule wp_mono [OF read_report_clean])
       (use io_only_trans_same [OF io_only_next_op [of "{}" s]] in \<open>auto simp: report_clean_def\<close>)
  then have "wp (read_report from_str False (split_inclusive 10 bs)) (\<lambda>v s'. io_only {} s s' \<and>
      (v = CleanVerdict \<longrightarrow> \<not> (\<not> report_clean from_str (w_files s ?f)))) (next_op s)"
    if "w_files s ?f = Some bs" for bs using that by simp
  then show ?thesis
    by (auto simp: verdict_for_def wp_simps Let_def open_file_def worth_keeping_def not_le
        split: option.split elim!: wp_mono)
qed

section \<open>Files of different recordings\<close>

text \<open>The names that this program gives consist of digits and dashes. Recordings with such names share no file.\<close>

definition name_char :: "uchar \<Rightarrow> bool" where
  "name_char c \<longleftrightarrow> is_ascii_digit c \<or> c = 45"

lemma get_filename_split:
  assumes "list_all name_char n"
  shows "takeWhile name_char (get_filename k n c) = n @ (if k \<in> {Gps, Meta} then [45] else [])"
    and "dropWhile name_char (get_filename k n c) =
      (case k of Qmdl \<Rightarrow> if c then lit ''.qmdl.gz'' else lit ''.qmdl'' | Analysis \<Rightarrow> lit ''.ndjson''
       | Gps \<Rightarrow> lit ''gps.ndjson'' | Meta \<Rightarrow> lit ''meta.json'')"
  using assms
  by (cases k; simp add: takeWhile_append dropWhile_append list_all_iff name_char_def is_ascii_digit_def sidecar_filename_def)+

lemma files_disjoint:
  assumes "list_all name_char (me_name e)" and "list_all name_char (me_name e')" and "me_name e \<noteq> me_name e'"
  shows "entry_file k e base \<noteq> entry_file k' e' base"
proof
  let ?f = "get_filename k (me_name e) (me_compressed e)" and ?g = "get_filename k' (me_name e') (me_compressed e')"
  assume "entry_file k e base = entry_file k' e' base"
  then have f: "?f = ?g" by (simp add: entry_file_def get_filepath_def)
  have "dropWhile name_char ?f = dropWhile name_char ?g" "takeWhile name_char ?f = takeWhile name_char ?g"
    by (simp_all only: f)
  then have "k = k'" and "me_name e @ (if k \<in> {Gps, Meta} then [45] else []) = me_name e' @ (if k' \<in> {Gps, Meta} then [45] else [])"
    unfolding get_filename_split [OF assms(1)] get_filename_split [OF assms(2)]
    by (cases k; cases k'; simp split: if_splits)+
  with assms(3) show False by simp
qed

section \<open>Pruning spares what is worth keeping\<close>

lemma set_remove_at_subset: "set (remove_at i xs) \<subseteq> set xs"
  unfolding remove_at_def by (auto dest: in_set_takeD in_set_dropD)

lemma map_remove_at: "map f (remove_at i xs) = remove_at i (map f xs)"
  by (simp add: remove_at_def take_map drop_map)

lemma distinct_remove_at: "distinct xs \<Longrightarrow> distinct (remove_at i xs)"
  unfolding remove_at_def using set_take_disj_set_drop_if_distinct [of xs i "Suc i"] by simp

lemma is_current_get: "index_ok s \<Longrightarrow> is_current_entry name s \<longleftrightarrow> (case map_option snd (get_current_entry s) of None \<Rightarrow> False | Some e \<Rightarrow> me_name e = name)"
  by (auto simp: is_current_entry_def get_current_entry_def index_ok_def split: option.splits)

text \<open>The names are those of the recordings of one manifest.\<close>

definition plain_names :: "'z store_scheme \<Rightarrow> bool" where
  "plain_names s \<longleftrightarrow> distinct (map me_name (rs_entries s)) \<and> list_all (\<lambda>e. list_all name_char (me_name e)) (rs_entries s)"

definition spared :: "'z store_scheme \<Rightarrow> 'z store_scheme \<Rightarrow> ManifestEntry \<Rightarrow> bool" where
  "spared s t e \<longleftrightarrow> e \<in> set (rs_entries t) \<and> list_all (\<lambda>p. w_files t p = w_files s p) (files_of (rs_path s) e)"

definition pruned :: "(ManifestEntry \<Rightarrow> bool) \<Rightarrow> 'z store_scheme \<Rightarrow> 'z store_scheme \<Rightarrow> bool" where
  "pruned keep s t \<longleftrightarrow>
     rs_path t = rs_path s \<and> index_ok t \<and> plain_names t \<and> set (rs_entries t) \<subseteq> set (rs_entries s)
   \<and> map_option snd (get_current_entry t) = map_option snd (get_current_entry s)
   \<and> (\<forall>e \<in> set (rs_entries s). keep e \<longrightarrow> spared s t e)"

lemma pruned_start: "index_ok s \<Longrightarrow> plain_names s \<Longrightarrow> pruned keep s s"
  by (simp add: pruned_def spared_def list_all_iff)

lemma pruned_cong:
  assumes "pruned keep s t" and "rs_path u = rs_path t" "rs_entries u = rs_entries t" "rs_current u = rs_current t" "w_files u = w_files t"
  shows "pruned keep s u"
  using assms index_ok_cong [of u t] by (simp add: pruned_def spared_def plain_names_def get_current_entry_def)

lemma io_only_none: "io_only {} s (s' :: 'z store_scheme) \<Longrightarrow> pruned keep r s \<Longrightarrow> pruned keep r s'"
  by (rule pruned_cong [of keep r s]) (auto simp: io_only_def fun_eq_iff)

lemma worth_keeping_still:
  assumes "pruned keep s t" and "index_ok s" and "spared s t e"
  shows "worth_keeping from_str uploads t e \<longleftrightarrow> worth_keeping from_str uploads s e"
proof -
  have "w_files t (entry_file Analysis e (rs_path s)) = w_files s (entry_file Analysis e (rs_path s))"
    using assms(3) by (simp add: spared_def files_of_def ALL_FILES_def)
  with assms show ?thesis by (simp add: worth_keeping_def pruned_def is_current_get)
qed

lemma pruned_delete:
  fixes s t u :: "'z store_scheme" and env :: "'e store_env"
  assumes p: "pruned keep s t" and i: "i < length (rs_entries t)" and "\<not> keep (rs_entries t ! i)"
    and cur: "rs_current t \<noteq> Some i" and d: "deletes env t i r u"
  shows "pruned keep s u"
proof -
  let ?x = "rs_entries t ! i"
  have ok: "index_ok t" and names: "plain_names t" and path: "rs_path t = rs_path s" using p by (auto simp: pruned_def)
  have u: "rs_path u = rs_path t" "index_ok u" and ent: "rs_entries u \<in> {rs_entries t, remove_at i (rs_entries t)}"
    and same: "map_option snd (get_current_entry u) = map_option snd (get_current_entry t)"
    and files: "\<And>p. p \<notin> set (files_of (rs_path t) ?x) \<union> manifest_paths (rs_path t) \<Longrightarrow> w_files u p = w_files t p"
    using d ok cur unfolding deletes_def sound_def by blast+
  have "plain_names u"
    using ent names set_remove_at_subset [of i "rs_entries t"]
    by (auto simp: plain_names_def map_remove_at distinct_remove_at list_all_iff)
  moreover have "spared s u e" if e: "e \<in> set (rs_entries s)" "keep e" for e
  proof -
    have sp: "spared s t e" using p e by (simp add: pruned_def)
    have ne: "e \<noteq> ?x" using assms(3) e(2) by auto
    have mem: "e \<in> set (rs_entries t)" using sp by (simp add: spared_def)
    then have "me_name e \<noteq> me_name ?x"
      using ne names i by (auto simp: plain_names_def distinct_map dest: inj_onD)
    moreover have "list_all name_char (me_name e)" "list_all name_char (me_name ?x)"
      using names mem i by (auto simp: plain_names_def list_all_iff)
    ultimately have apart: "entry_file k e base \<noteq> entry_file k' ?x base" for k k' base by (intro files_disjoint)
    have "w_files u q = w_files t q" if q: "q \<in> set (files_of (rs_path t) e)" for q
    proof -
      obtain k where q: "q = entry_file k e (rs_path t)" using q by (auto simp: files_of_def)
      have "q \<notin> set (files_of (rs_path t) ?x)" unfolding q using apart by (auto simp: files_of_def)
      with files [of q] manifest_path_not_entry show ?thesis by (simp add: q)
    qed
    moreover have "e \<in> set (rs_entries u)" using ent mem ne set_remove_at [of "rs_entries t" i] by auto
    ultimately show ?thesis using sp by (auto simp: spared_def list_all_iff path)
  qed
  moreover have "set (rs_entries u) \<subseteq> set (rs_entries s)"
    using ent p set_remove_at_subset [of i "rs_entries t"] by (auto simp: pruned_def)
  ultimately show ?thesis using p u same by (simp add: pruned_def path)
qed

lemma pruned_not_kept:
  assumes "pruned keep s t" and "index_ok s" and "\<And>e. keep e \<Longrightarrow> worth_keeping from_str uploads s e"
    and "i < length (rs_entries t)" and "\<not> worth_keeping from_str uploads t (rs_entries t ! i)"
  shows "\<not> keep (rs_entries t ! i)"
proof
  assume k: "keep (rs_entries t ! i)"
  have "rs_entries t ! i \<in> set (rs_entries s)" using assms(1) nth_mem [OF assms(4)] by (auto simp: pruned_def)
  with k have "spared s t (rs_entries t ! i)" using assms(1) by (simp add: pruned_def)
  from worth_keeping_still [OF assms(1,2) this] assms(3) [OF k] assms(5) show False by blast
qed

lemma not_worth_keeping_current:
  "i < length (rs_entries t) \<Longrightarrow> \<not> worth_keeping from_str uploads t (rs_entries t ! i) \<Longrightarrow> rs_current t \<noteq> Some i"
  by (auto simp: worth_keeping_def is_current_entry_def)

lemma prune_loop_spares:
  fixes s t :: "'z store_scheme" and env :: "'e store_env"
  assumes "toml_ok env" and "index_ok s" and "\<And>e. keep e \<Longrightarrow> worth_keeping from_str uploads s e"
  shows "pruned keep s t \<Longrightarrow> wp (prune_loop env from_str target uploads names removed) (\<lambda>_. pruned keep s) t"
proof (induction names arbitrary: t removed)
  case (Cons name names)
  let ?t = "t\<lparr>w_space_reads := Suc (w_space_reads t)\<rparr>"
  have t: "pruned keep s ?t" by (rule pruned_cong [OF Cons.prems]) simp_all
  have delete: "wp (verdict_for from_str uploads i) (\<lambda>v. wp
      (if v \<noteq> CleanVerdict then prune_loop env from_str target uploads names removed
       else do { r \<leftarrow> store_delete_entry env name;
          prune_loop env from_str target uploads names (case r of Inr _ \<Rightarrow> removed + 1 | Inl _ \<Rightarrow> removed) })
      (\<lambda>_. pruned keep s)) ?t" if i: "position name (rs_entries ?t) = Some i" for i
  proof (rule wp_mono [OF verdict_for_clean], goal_cases)
    case (1 v u)
    then have u: "pruned keep s u" using t io_only_none by blast
    have st: "rs_entries u = rs_entries ?t" using 1 by (auto simp: io_only_def)
    show ?case
    proof (cases "v = CleanVerdict")
      case True
      then have "i < length (rs_entries u)" "\<not> worth_keeping from_str uploads u (rs_entries u ! i)"
        using 1 by (auto simp: worth_keeping_def is_current_entry_def io_only_def split: option.splits)
      then have "wp (store_delete_entry env name) (\<lambda>_. pruned keep s) u"
        using i pruned_not_kept [OF u assms(2,3)] not_worth_keeping_current [of i u]
        by (intro wp_mono [OF store_delete_entry_deletes [OF assms(1)]] pruned_delete [OF u]) (auto simp: st)
      then show ?thesis using True by (auto simp: wp_simps elim!: wp_mono intro: Cons.IH)
    qed (use u in \<open>simp add: Cons.IH\<close>)
  qed
  show ?case
    using t delete by (auto simp: wp_simps entry_for_name_def intro!: Cons.IH split: option.split)
qed (simp add: wp_simps)

lemma prune_spares_all:
  fixes s :: "'z store_scheme" and env :: "'e store_env"
  assumes "toml_ok env" and "index_ok s" and "plain_names s"
  shows "wp (prune_clean_recordings env from_str target uploads) (\<lambda>_. pruned (worth_keeping from_str uploads s) s) s"
proof -
  have "pruned (worth_keeping from_str uploads s) s (s\<lparr>w_space_reads := Suc (w_space_reads s)\<rparr>)"
    by (rule pruned_cong [OF pruned_start [OF assms(2,3)]]) simp_all
  then show ?thesis
    by (auto simp: prune_clean_recordings_def wp_simps intro!: prune_loop_spares [OF assms(1,2)])
qed

section \<open>Pruning on a disk that works\<close>

text \<open>What the loop does to the list: \<open>room k\<close> says whether the \<open>k\<close>-th reading of the free space is enough.\<close>

fun prune_spec :: "(nat \<Rightarrow> bool) \<Rightarrow> (ManifestEntry \<Rightarrow> bool) \<Rightarrow> nat \<Rightarrow> ManifestEntry list \<Rightarrow> ManifestEntry list" where
  "prune_spec room keep k [] = []"
| "prune_spec room keep k (e # es) =
     (if room k then e # es else if keep e then e # prune_spec room keep (Suc k) es else prune_spec room keep (Suc k) es)"

definition quiet :: "'z os_scheme \<Rightarrow> bool" where
  "quiet s \<longleftrightarrow> w_faults s = []"

lemma quiet_simps [simp]:
  "quiet s \<Longrightarrow> \<not> faulted s"
  "quiet s \<Longrightarrow> next_op s = s"
  "quiet (s\<lparr>w_files := fs\<rparr>) = quiet s"
  "quiet (s\<lparr>w_space_reads := n\<rparr>) = quiet s"
  by (simp_all add: quiet_def faulted_def next_op_def)

lemma read_report_quiet:
  assumes "quiet s"
  shows "wp (read_report from_str saw pieces) (\<lambda>v s'. s' = s \<and>
     (v = CleanVerdict \<longleftrightarrow> list_all (\<lambda>p. report_line from_str p = NoWarningLine) pieces
        \<and> (saw \<or> list_ex (\<lambda>p. \<not> blank p) pieces))) s"
proof (induction pieces arbitrary: saw)
  case (Cons p ps)
  show ?case
  proof (cases "from_utf8 p")
    case (Some t)
    have "wp (read_report from_str (saw \<or> trim (chomp t) \<noteq> []) ps) (\<lambda>v s'. s' = s \<and>
       (v = CleanVerdict \<longleftrightarrow> list_all (\<lambda>p. report_line from_str p = NoWarningLine) ps
          \<and> (saw \<or> \<not> blank p \<or> list_ex (\<lambda>p. \<not> blank p) ps))) s"
      by (rule wp_mono [OF Cons.IH]) (use Some in \<open>auto simp: blank_def\<close>)
    with Some assms show ?thesis
      by (auto simp: wp_simps report_line_def split: LineClass.split elim!: wp_mono)
  qed (use assms in \<open>simp add: wp_simps report_line_def\<close>)
qed (use assms in \<open>simp add: wp_simps\<close>)

lemma verdict_for_quiet:
  fixes s :: "'z store_scheme"
  assumes "quiet s" and "i < length (rs_entries s)"
  shows "wp (verdict_for from_str uploads_configured i) (\<lambda>v s'. s' = s \<and>
     (v = CleanVerdict \<longleftrightarrow> \<not> worth_keeping from_str uploads_configured s (rs_entries s ! i))) s"
  using assms
  by (auto simp: verdict_for_def wp_simps Let_def open_file_def worth_keeping_def report_clean_def split: option.split
      elim!: wp_mono intro!: wp_mono [OF read_report_quiet])

lemma same_files: "\<exists>fs. s = s\<lparr>w_files := fs\<rparr>"
  by (rule exI [of _ "w_files s"]) (cases s, simp)

lemma remove_files_quiet:
  "quiet s \<Longrightarrow> wp (remove_files ps) (\<lambda>r s'. r = Inr () \<and> (\<exists>fs. s' = s\<lparr>w_files := fs\<rparr>)) s"
proof (induction ps arbitrary: s)
  case (Cons p ps)
  then show ?case
    by (auto simp: wp_simps remove_file_if_exists_def intro!: wp_mono [OF Cons.IH])
qed (simp add: wp_simps same_files)

lemma write_manifest_quiet:
  fixes s :: "'z store_scheme"
  shows "quiet s \<Longrightarrow> wp (write_manifest env) (\<lambda>r s'. r = Inr () \<and> (\<exists>fs. s' = s\<lparr>w_files := fs\<rparr>)) s"
  by (auto simp: write_manifest_def write_manifest_at_def wp_simps)

lemma delete_quiet:
  fixes s :: "'z store_scheme" and env :: "'e store_env"
  assumes "quiet s" and "position name (rs_entries s) = Some i" and "rs_current s \<noteq> Some i"
  shows "wp (store_delete_entry env name) (\<lambda>r s'. r = Inr () \<and> quiet s' \<and> w_space s' = w_space s \<and> w_space_reads s' = w_space_reads s) s"
proof -
  have wm: "wp (write_manifest env) (\<lambda>r s'. r = Inr () \<and> w_faults s' = [] \<and> w_space s' = sp \<and> w_space_reads s' = n) t"
    if "w_faults t = []" "w_space t = sp" "w_space_reads t = n" for t :: "'z store_scheme" and sp n
    by (rule wp_mono [OF write_manifest_quiet]) (use that in \<open>auto simp: quiet_def\<close>)
  show ?thesis
    using assms
    by (auto simp: store_delete_entry_def wp_simps quiet_def split: option.split intro!: wm wp_mono [OF remove_files_quiet])
qed

lemma position_middle:
  assumes "distinct (map me_name (kept @ e # es))"
  shows "position (me_name e) (kept @ e # es) = Some (length kept)"
proof -
  have "takeWhile (\<lambda>x. me_name x \<noteq> me_name e) (kept @ e # es) = kept"
    using assms by (subst takeWhile_append2) (auto simp: image_iff)
  then show ?thesis by (simp add: position_def)
qed

lemma remove_at_middle: "remove_at (length xs) (xs @ x # ys) = xs @ ys"
  by (simp add: remove_at_def)

lemma pruned_mono: "pruned keep s t \<Longrightarrow> (\<And>e. keep' e \<Longrightarrow> keep e) \<Longrightarrow> pruned keep' s t"
  by (auto simp: pruned_def)

lemma prune_loop_quiet:
  fixes s t :: "'z store_scheme" and env :: "'e store_env"
  assumes "toml_ok env" and s: "index_ok s"
  shows "pruned (\<lambda>e. e \<in> set (kept @ todo)) s t \<Longrightarrow> rs_entries t = kept @ todo \<Longrightarrow> quiet t \<Longrightarrow> w_space t = w_space s \<Longrightarrow>
    wp (prune_loop env from_str target uploads (map me_name todo) removed)
      (\<lambda>_ s'. rs_entries s' = kept @ prune_spec (\<lambda>k. target \<le> free_mb s k) (worth_keeping from_str uploads s) (w_space_reads t) todo) t"
proof (induction todo arbitrary: kept t removed)
  case (Cons e es)
  let ?t = "t\<lparr>w_space_reads := Suc (w_space_reads t)\<rparr>"
  let ?room = "\<lambda>k. target \<le> free_mb s k" and ?keep = "worth_keeping from_str uploads s"
  have p: "pruned (\<lambda>e'. e' \<in> set (kept @ e # es)) s ?t" by (rule pruned_cong [OF Cons.prems(1)]) simp_all
  have names: "distinct (map me_name (kept @ e # es))" using p by (simp add: pruned_def plain_names_def Cons.prems)
  then have new: "e \<notin> set (kept @ es)" by auto
  have e: "e \<in> set (rs_entries s)" using p by (auto simp: pruned_def Cons.prems)
  have still: "worth_keeping from_str uploads ?t e = ?keep e"
    by (rule worth_keeping_still [OF p s]) (use p e in \<open>simp add: pruned_def\<close>)
  have pos: "position (me_name e) (rs_entries ?t) = Some (length kept)" by (simp add: Cons.prems(2) position_middle [OF names])
  have at: "rs_entries t ! length kept = e" by (simp add: Cons.prems(2))
  have kept_step: "wp (prune_loop env from_str target uploads (map me_name es) n)
      (\<lambda>_ s'. rs_entries s' = kept @ e # prune_spec ?room ?keep (Suc (w_space_reads t)) es) ?t" for n
    using Cons.IH [of "kept @ [e]" ?t n] p Cons.prems by simp
  have gone_step: "wp (store_delete_entry env (me_name e)) (\<lambda>r u. wp (prune_loop env from_str target uploads (map me_name es)
        (case r of Inr _ \<Rightarrow> removed + 1 | Inl _ \<Rightarrow> removed))
      (\<lambda>_ s'. rs_entries s' = kept @ prune_spec ?room ?keep (Suc (w_space_reads t)) es) u) ?t"
    if clean: "\<not> worth_keeping from_str uploads ?t e"
  proof -
    have cur: "rs_current ?t \<noteq> Some (length kept)"
      using not_worth_keeping_current [of "length kept" ?t] clean at by (simp add: Cons.prems(2))
    have q: "quiet ?t" using Cons.prems(3) by simp
    show ?thesis
    proof (rule wp_mono [OF wp_conj [OF delete_quiet [OF q pos cur] store_delete_entry_deletes [OF assms(1) pos]]], goal_cases)
      case (1 r u)
      then have r: "r = Inr ()" and u: "quiet u" "w_space u = w_space t" "w_space_reads u = Suc (w_space_reads t)"
        and d: "deletes env ?t (length kept) r u" by auto
      have ent: "rs_entries u = kept @ es" using d r by (simp add: deletes_def Cons.prems(2) remove_at_middle)
      have "pruned (\<lambda>e'. e' \<in> set (kept @ es)) s u"
        by (rule pruned_delete [OF pruned_mono [OF p] _ _ cur d]) (use new at in \<open>auto simp: Cons.prems(2)\<close>)
      from Cons.IH [OF this ent u(1)] show ?case by (simp add: u Cons.prems(4))
    qed
  qed
  have "quiet ?t" "length kept < length (rs_entries ?t)" using Cons.prems by simp_all
  from verdict_for_quiet [OF this]
  have "wp (verdict_for from_str uploads (length kept)) (\<lambda>v u. wp
      (if v \<noteq> CleanVerdict then prune_loop env from_str target uploads (map me_name es) removed
       else do { r \<leftarrow> store_delete_entry env (me_name e);
          prune_loop env from_str target uploads (map me_name es) (case r of Inr _ \<Rightarrow> removed + 1 | Inl _ \<Rightarrow> removed) })
      (\<lambda>_ s'. rs_entries s' = kept @ (if ?keep e then e # prune_spec ?room ?keep (Suc (w_space_reads t)) es
         else prune_spec ?room ?keep (Suc (w_space_reads t)) es)) u) ?t"
    by (rule wp_mono) (use kept_step gone_step still in \<open>auto simp: wp_simps at\<close>)
  moreover have "free_mb t = free_mb s" using Cons.prems(4) by (simp add: fun_eq_iff free_mb_def)
  ultimately show ?case
    using pos Cons.prems(2) by (cases "?keep e") (simp_all add: wp_simps entry_for_name_def)
qed (simp add: wp_simps)

section \<open>The guarantees\<close>



text \<open>Two finished recordings with clean reports, of which the second has been named, on a full disk.\<close>

definition finished_entry :: "ustr \<Rightarrow> ustr option \<Rightarrow> ManifestEntry" where
  "finished_entry name display_name =
     \<lparr>me_name = name, me_start_time = NANOS, me_last_message_time = None, me_qmdl_size_bytes = 1,
      me_rayhunter_version = None, me_system_os = None, me_arch = None, me_stop_reason = None, me_upload_time = None,
      me_gps_mode = None, me_compressed = True, me_display_name = display_name, me_notes = None\<rparr>"

definition full_store :: store where
  "full_store = sample_store\<lparr>w_faults := [], w_space := (\<lambda>_. Some (Some 0)),
     w_files := (\<lambda>p. if p_name p \<in> {lit ''1-0.ndjson'', lit ''2-1.ndjson''} then Some (utf8_bytes (lit ''{}'' @ [10])) else None),
     rs_entries := [finished_entry (lit ''1-0'') None, finished_entry (lit ''2-1'') (Some (lit ''keep''))]\<rparr>"

definition sample_json :: "ustr \<Rightarrow> json option" where
  "sample_json t = (if t = lit ''{}'' then Some (JObject []) else None)"

lemma full_store_ok: "index_ok full_store" "plain_names full_store" "quiet full_store"
  by (simp_all add: index_ok_def full_store_def sample_store_def plain_names_def quiet_def finished_entry_def
      name_char_def is_ascii_digit_def)



end
