(* ===== verification/Recorder.thy ===== *)
theory Recorder
  imports Cleanup Harness Qmdl
begin

text \<open>
  The task that records (\<open>DiagTask\<close> in \<open>daemon/src/diag.rs\<close>): starting, stopping and rotating recordings, moving
  to another store, deleting, the checks of the free space, and what happens to a container of messages from
  the modem. The state extends the recording store; what the task sends to the display, the analysis worker and the
  notification worker is kept in the order sent. The reading of the SIM and of the device, JSON, gzip and the
  directory listing are parameters (\<open>diag_env\<close>). What \<open>update_cell_info\<close> tells the cell tracker has no effect here
  and is left out.
\<close>

section \<open>State\<close>

text \<open>\<open>DisplayState\<close> of \<open>display/mod.rs\<close>.\<close>

datatype DisplayState = DisplayRecording | DisplayPaused | WarningDetected EventType

text \<open>An open recording: the gzip encoder with the chunks it was flushed after, what it or the report's buffer could
  not write yet, and the file position.\<close>

record writers =
  dw_qmdl :: path
  dw_chunks :: "bytes list"
  dw_pending :: bytes
  dw_position :: nat
  dw_report :: path
  dw_report_pending :: bytes
  dw_harness :: Harness

record diag_task = store +
  dt_state :: "writers option"  \<comment> \<open>\<open>DiagState\<close>: recording or stopped\<close>
  dt_max_type_seen :: EventType
  dt_bytes_since_space_check :: nat
  dt_low_space_warned :: bool
  dt_stopped_by_user :: bool
  dt_recording_started_at :: "int option"
  dt_latest_packet_timestamp :: "int option"
  dt_instants :: "nat \<Rightarrow> int"  \<comment> \<open>the monotonic clock, reading by reading, in nanoseconds\<close>
  dt_instant_reads :: nat
  dt_ui :: "DisplayState list"
  dt_finished :: "ustr list"  \<comment> \<open>\<open>RecordingFinished\<close> messages\<close>
  dt_notifications :: "(ustr \<times> int option) list"  \<comment> \<open>of type \<open>Warning\<close>, with their debounce\<close>

record 'g diag_config =
  dc_analyzers :: AnalyzerConfig
  dc_min_space_to_start_mb :: nat
  dc_min_space_to_continue_mb :: nat
  dc_auto_delete_clean :: bool
  dc_uploads_configured :: bool
  dc_max_recording_bytes :: "nat option"
  dc_max_recording_duration :: "int option"
  dc_gps_mode :: GpsMode
  dc_gps_fixed_coords :: "'g option"

record ('e, 'de, 'x, 'r, 'rrc, 'nas, 'g) diag_env =
  de_store :: "'e store_env"
  de_listing :: "ustr \<Rightarrow> (path \<Rightarrow> bytes option) \<Rightarrow> IoError + ustr list"
  de_json :: "ustr \<Rightarrow> json option"
  de_home_plmn :: "ustr \<Rightarrow> ustr list"  \<comment> \<open>what the SIM answers at the start of the recording of that name\<close>
  de_sidecar :: "ustr \<Rightarrow> bytes"
  de_metadata_line :: "Harness \<Rightarrow> bytes"
  de_row_line :: "('de, 'rrc, 'nas) AnalysisRow \<Rightarrow> bytes"
  de_gps_line :: "int option \<Rightarrow> int \<Rightarrow> 'g \<Rightarrow> bytes"
  de_gzip :: "bytes list \<Rightarrow> bytes \<Rightarrow> bytes"  \<comment> \<open>the output of one more chunk and a flush\<close>
  de_gzip_finish :: "bytes list \<Rightarrow> bytes"
  de_parser :: "('de, ('x, 'r) Message) message_parser"
  de_crc :: crc16
  de_decoders :: "('rrc, 'nas) decoders"
  de_error_text :: "'e RecordingStoreError \<Rightarrow> ustr"
  de_io_text :: "IoError \<Rightarrow> ustr"

text \<open>\<open>DiagTask::new\<close>.\<close>

definition diag_new :: "store \<Rightarrow> (nat \<Rightarrow> int) \<Rightarrow> diag_task" where
  "diag_new st instants = store.extend st (diag_task.fields None EventType.Informational 0 False False None None instants 0 [] [] [])"

definition rotation_bytes :: "nat option \<Rightarrow> nat option" where
  "rotation_bytes mb = (case mb of None \<Rightarrow> None
     | Some m \<Rightarrow> if m > 0 then Some (min (m * (1024 * 1024)) (2 ^ 64 - 1)) else None)"

definition rotation_duration :: "nat option \<Rightarrow> int option" where
  "rotation_duration minutes = (case minutes of None \<Rightarrow> None
     | Some m \<Rightarrow> if m > 0 then Some (int (min (m * 60) (2 ^ 64 - 1)) * NANOS) else None)"

section \<open>Clocks, messages, space\<close>

definition instant_now :: "(diag_task, int) state" where
  "instant_now = do {
     s \<leftarrow> State_Monad.get;
     State_Monad.set (s\<lparr>dt_instant_reads := Suc (dt_instant_reads s)\<rparr>);
     State_Monad.return (dt_instants s (dt_instant_reads s)) }"

definition send_ui :: "DisplayState \<Rightarrow> (diag_task, unit) state" where
  "send_ui d = State_Monad.update (\<lambda>s. s\<lparr>dt_ui := dt_ui s @ [d]\<rparr>)"

definition notify :: "ustr \<Rightarrow> int option \<Rightarrow> (diag_task, unit) state" where
  "notify message debounce = State_Monad.update (\<lambda>s. s\<lparr>dt_notifications := dt_notifications s @ [(message, debounce)]\<rparr>)"

datatype DiskSpaceCheck = SpaceOk nat | SpaceWarning nat | SpaceCritical nat | SpaceUnknown

definition check_disk_space :: "nat \<Rightarrow> nat \<Rightarrow> ('z os_scheme, DiskSpaceCheck) state" where
  "check_disk_space warning_mb critical_mb = do {
     stats \<leftarrow> disk_stats;
     State_Monad.return (case stats of
        None \<Rightarrow> SpaceUnknown
      | Some available_bytes \<Rightarrow>
          (let mb = (case available_bytes of None \<Rightarrow> 0 | Some b \<Rightarrow> b) div 1024 div 1024 in
           if mb < critical_mb then SpaceCritical mb else if mb < warning_mb then SpaceWarning mb else SpaceOk mb)) }"

section \<open>The writers\<close>

text \<open>A write to a file through a buffer: what is written, and what stays in the buffer when the write fails.\<close>

definition write_buffered :: "path \<Rightarrow> bytes \<Rightarrow> ('z os_scheme, (IoError + unit) \<times> nat \<times> bytes) state" where
  "write_buffered p bs = do {
     s \<leftarrow> State_Monad.get;
     r \<leftarrow> write_all p bs;
     (let n = length (bytes_written s bs) in State_Monad.return (r, n, drop n bs)) }"

text \<open>\<open>stream_position\<close> is a call of the operating system too.\<close>

definition stream_position :: "nat \<Rightarrow> ('z os_scheme, IoError + nat) state" where
  "stream_position n = unless_fault (\<lambda>fs. (Inr n, fs))"

text \<open>\<open>QmdlWriter::write_container\<close>, \<open>QmdlWriter::close\<close>.\<close>

definition qmdl_write :: "('e, 'de, 'x, 'r, 'rrc, 'nas, 'g) diag_env \<Rightarrow> MessagesContainer \<Rightarrow> writers
    \<Rightarrow> (diag_task, (IoError + unit) \<times> writers) state" where
  "qmdl_write env c w =
     (let chunk = write_container [] c in do {
       (r, n, rest) \<leftarrow> write_buffered (dw_qmdl w) (dw_pending w @ de_gzip env (dw_chunks w) chunk);
       State_Monad.return (r, w\<lparr>dw_chunks := dw_chunks w @ [chunk], dw_pending := rest, dw_position := dw_position w + n\<rparr>) })"

definition qmdl_close :: "('e, 'de, 'x, 'r, 'rrc, 'nas, 'g) diag_env \<Rightarrow> writers \<Rightarrow> (diag_task, IoError + nat) state" where
  "qmdl_close env w = do {
     (r, n, rest) \<leftarrow> write_buffered (dw_qmdl w) (dw_pending w @ de_gzip_finish env (dw_chunks w));
     (case r of Inl e \<Rightarrow> State_Monad.return (Inl e) | Inr _ \<Rightarrow> stream_position (dw_position w + n)) }"

text \<open>\<open>AnalysisWriter::write\<close> for a row: \<open>write_all\<close> and \<open>flush\<close>. It works on the pending bytes of the buffer and the
  whole state, which is what \<open>analyze_container_inner\<close> calls the file.\<close>

definition write_report_row :: "('e, 'de, 'x, 'r, 'rrc, 'nas, 'g) diag_env \<Rightarrow> path \<Rightarrow> bytes \<times> diag_task
    \<Rightarrow> ('de, 'rrc, 'nas) AnalysisRow \<Rightarrow> IoError option \<times> bytes \<times> diag_task" where
  "write_report_row env p = (\<lambda>(pending, s) row.
     (case run_state (write_buffered p (pending @ de_row_line env row)) s of
        ((r, _, rest), s') \<Rightarrow> ((case r of Inl e \<Rightarrow> Some e | Inr _ \<Rightarrow> None), rest, s')))"

definition analyze_container :: "('e, 'de, 'x, 'r, 'rrc, 'nas, 'g) diag_env \<Rightarrow> MessagesContainer \<Rightarrow> ustr option \<Rightarrow> writers
    \<Rightarrow> (diag_task, (IoError + EventType) \<times> writers) state" where
  "analyze_container env c prefix w = do {
     s \<leftarrow> State_Monad.get;
     (case analyze_container_inner (write_report_row env (dw_report w)) (de_decoders env)
         \<lparr>aw_file = (dw_report_pending w, s), aw_harness = dw_harness w\<rparr>
         (container_messages (de_parser env) (de_crc env) c) prefix of
       (result, aw) \<Rightarrow> do {
         State_Monad.set (snd (aw_file aw));
         State_Monad.return (result, w\<lparr>dw_report_pending := fst (aw_file aw), dw_harness := aw_harness aw\<rparr>) }) }"

section \<open>Stopping\<close>

definition stop_current_recording :: "('e, 'de, 'x, 'r, 'rrc, 'nas, 'g) diag_env \<Rightarrow> (diag_task, unit) state" where
  "stop_current_recording env = do {
     s \<leftarrow> State_Monad.get;
     State_Monad.set (s\<lparr>dt_state := None\<rparr>);
     (case dt_state s of
        None \<Rightarrow> State_Monad.return ()
      | Some w \<Rightarrow> do {
          qmdl_result \<leftarrow> qmdl_close env w;
          _ \<leftarrow> write_buffered (dw_report w) (dw_report_pending w);
          (case qmdl_result of
             Inr file_size \<Rightarrow> do { _ \<leftarrow> update_current_entry_qmdl_size (de_store env) file_size; State_Monad.return () }
           | Inl _ \<Rightarrow> State_Monad.return ()) }) }"

definition finish_current_entry :: "('e, 'de, 'x, 'r, 'rrc, 'nas, 'g) diag_env \<Rightarrow> ustr option \<Rightarrow> (diag_task, unit) state" where
  "finish_current_entry env reason = do {
     stop_current_recording env;
     State_Monad.update (\<lambda>s. s\<lparr>dt_recording_started_at := None\<rparr>);
     (case reason of
        None \<Rightarrow> State_Monad.return ()
      | Some r \<Rightarrow> do { _ \<leftarrow> set_current_stop_reason (de_store env) r; State_Monad.return () });
     State_Monad.update (\<lambda>s. case get_current_entry s of
        None \<Rightarrow> s | Some (_, e) \<Rightarrow> s\<lparr>dt_finished := dt_finished s @ [me_name e]\<rparr>);
     _ \<leftarrow> close_current_entry (de_store env);
     State_Monad.return () }"

definition diag_stop :: "('e, 'de, 'x, 'r, 'rrc, 'nas, 'g) diag_env \<Rightarrow> ustr option \<Rightarrow> (diag_task, unit) state" where
  "diag_stop env reason = do { finish_current_entry env reason; send_ui DisplayPaused }"

section \<open>Starting\<close>

definition enough_space :: "'g diag_config \<Rightarrow> ('z os_scheme, 'e RecordingStoreError + unit) state" where
  "enough_space cfg = do {
     check \<leftarrow> check_disk_space (dc_min_space_to_start_mb cfg) (dc_min_space_to_continue_mb cfg);
     (case check of
        SpaceCritical mb \<Rightarrow> fail (InsufficientDiskSpace mb (dc_min_space_to_continue_mb cfg))
      | SpaceWarning mb \<Rightarrow> fail (InsufficientDiskSpace mb (dc_min_space_to_start_mb cfg))
      | _ \<Rightarrow> ok ()) }"

definition make_room :: "('e, 'de, 'x, 'r, 'rrc, 'nas, 'g) diag_env \<Rightarrow> 'g diag_config \<Rightarrow> (diag_task, unit) state" where
  "make_room env cfg =
     (if dc_auto_delete_clean cfg then do {
        check \<leftarrow> check_disk_space (dc_min_space_to_start_mb cfg) (dc_min_space_to_continue_mb cfg);
        (if case check of SpaceCritical _ \<Rightarrow> True | SpaceWarning _ \<Rightarrow> True | _ \<Rightarrow> False then do {
           _ \<leftarrow> prune_clean_recordings (de_store env) (de_json env) (dc_min_space_to_start_mb cfg) (dc_uploads_configured cfg);
           State_Monad.return () }
         else State_Monad.return ()) }
      else State_Monad.return ())"

definition write_fixed_gps :: "('e, 'de, 'x, 'r, 'rrc, 'nas, 'g) diag_env \<Rightarrow> 'g diag_config
    \<Rightarrow> (diag_task, 'e RecordingStoreError + unit) state" where
  "write_fixed_gps env cfg = do {
     s \<leftarrow> State_Monad.get;
     (case (dc_gps_fixed_coords cfg, get_current_entry s) of
        (Some coords, Some (i, _)) \<Rightarrow>
          if dc_gps_mode cfg = GpsFixed then
            attempt (open_entry_gps_for_append i) (\<lambda>file. case file of
               None \<Rightarrow> fail GpsStorageNotFound
             | Some p \<Rightarrow> do {
                 now \<leftarrow> get_adjusted_now;
                 map_error WriteFileError (write_all p (de_gps_line env None (now div NANOS) coords)) })
          else ok ()
      | _ \<Rightarrow> ok ()) }"

definition write_sidecar :: "('e, 'de, 'x, 'r, 'rrc, 'nas, 'g) diag_env \<Rightarrow> (diag_task, unit) state" where
  "write_sidecar env = do {
     s \<leftarrow> State_Monad.get;
     (case get_current_entry s of
        None \<Rightarrow> State_Monad.return ()
      | Some (_, e) \<Rightarrow> do {
          _ \<leftarrow> write_atomically (entry_file Meta e (rs_path s)) (de_sidecar env (me_name e));
          State_Monad.return () }) }"

definition current_name :: "'z store_scheme \<Rightarrow> ustr" where
  "current_name s = (case get_current_entry s of None \<Rightarrow> [] | Some (_, e) \<Rightarrow> me_name e)"

definition start_inner :: "('e, 'de, 'x, 'r, 'rrc, 'nas, 'g) diag_env \<Rightarrow> 'g diag_config
    \<Rightarrow> (diag_task, 'e RecordingStoreError + unit) state" where
  "start_inner env cfg = do {
     State_Monad.update (\<lambda>s. s\<lparr>dt_max_type_seen := EventType.Informational, dt_bytes_since_space_check := 0, dt_low_space_warned := False\<rparr>);
     make_room env cfg;
     attempt (enough_space cfg) (\<lambda>_. do {
       s \<leftarrow> State_Monad.get;
       (if dt_state s \<noteq> None then finish_current_entry env None else State_Monad.return ());
       attempt (new_entry (de_store env) (dc_gps_mode cfg)) (\<lambda>(qmdl_file, analysis_file).
       attempt (write_fixed_gps env cfg) (\<lambda>_. do {
         write_sidecar env;
         s \<leftarrow> State_Monad.get;
         (let harness = harness_new_with_config (dc_analyzers cfg) (de_home_plmn env (current_name s)) in
          attempt (map_error WriteFileError (write_all analysis_file (de_metadata_line env harness))) (\<lambda>_. do {
            State_Monad.update (\<lambda>s. s\<lparr>dt_state := Some
              \<lparr>dw_qmdl = qmdl_file, dw_chunks = [], dw_pending = [], dw_position = 0,
               dw_report = analysis_file, dw_report_pending = [], dw_harness = harness\<rparr>\<rparr>);
            now \<leftarrow> instant_now;
            State_Monad.update (\<lambda>s. s\<lparr>dt_recording_started_at := Some now\<rparr>);
            send_ui DisplayRecording;
            ok () })) })) }) }"

definition diag_start :: "('e, 'de, 'x, 'r, 'rrc, 'nas, 'g) diag_env \<Rightarrow> 'g diag_config
    \<Rightarrow> (diag_task, 'e RecordingStoreError + unit) state" where
  "diag_start env cfg = do {
     r \<leftarrow> start_inner env cfg;
     (case r of Inl _ \<Rightarrow> send_ui DisplayPaused | Inr _ \<Rightarrow> State_Monad.return ());
     State_Monad.return r }"

section \<open>Rotating and moving\<close>

definition diag_rotate :: "('e, 'de, 'x, 'r, 'rrc, 'nas, 'g) diag_env \<Rightarrow> 'g diag_config \<Rightarrow> ustr \<Rightarrow> (diag_task, unit) state" where
  "diag_rotate env cfg reason = do {
     s \<leftarrow> State_Monad.get;
     finish_current_entry env (Some reason);
     r \<leftarrow> diag_start env cfg;
     (case r of
        Inl e \<Rightarrow>
          (let reason = lit ''couldn'' @ [39] @ lit ''t start the next recording after rotating: '' @ de_error_text env e in do {
             notify reason None;
             diag_stop env (Some reason) })
      | Inr _ \<Rightarrow> do {
          State_Monad.update (\<lambda>t. t\<lparr>dt_max_type_seen := dt_max_type_seen s\<rparr>);
          (if dt_max_type_seen s > EventType.Informational then send_ui (WarningDetected (dt_max_type_seen s))
           else State_Monad.return ()) }) }"

definition switch_store :: "('e, 'de, 'x, 'r, 'rrc, 'nas, 'g) diag_env \<Rightarrow> 'g diag_config \<Rightarrow> ustr \<Rightarrow> ustr
    \<Rightarrow> (diag_task, 'e RecordingStoreError + unit) state" where
  "switch_store env cfg path reason = do {
     s \<leftarrow> State_Monad.get;
     (let was_recording = (dt_state s \<noteq> None); stop_reason = Some (lit ''storage changed: '' @ reason) in
      if rs_path s = path then
        (if was_recording then do { finish_current_entry env stop_reason; diag_start env cfg }
         else if \<not> dt_stopped_by_user s then diag_start env cfg
         else ok ())
      else do {
        (if was_recording then finish_current_entry env stop_reason else State_Monad.return ());
        s1 \<leftarrow> State_Monad.get;
        new_store \<leftarrow> open_or_recover (de_store env) (de_listing env path (w_files s1)) path;
        (case new_store of
           Inl err \<Rightarrow> do {
             (if was_recording then do { _ \<leftarrow> diag_start env cfg; State_Monad.return () } else State_Monad.return ());
             State_Monad.return (Inl err) }
         | Inr (p, entries) \<Rightarrow> do {
             State_Monad.update (\<lambda>t. t\<lparr>rs_path := p, rs_entries := entries, rs_current := None\<rparr>);
             (if was_recording \<or> \<not> dt_stopped_by_user s then diag_start env cfg else ok ()) }) }) }"

section \<open>Deleting, positions\<close>

definition diag_delete_entry :: "('e, 'de, 'x, 'r, 'rrc, 'nas, 'g) diag_env \<Rightarrow> ustr
    \<Rightarrow> (diag_task, 'e RecordingStoreError + unit) state" where
  "diag_delete_entry env name = do {
     s \<leftarrow> State_Monad.get;
     (if is_current_entry name s then diag_stop env None else State_Monad.return ());
     store_delete_entry (de_store env) name }"

definition diag_delete_all_entries :: "('e, 'de, 'x, 'r, 'rrc, 'nas, 'g) diag_env
    \<Rightarrow> (diag_task, 'e RecordingStoreError + unit) state" where
  "diag_delete_all_entries env = do { diag_stop env None; store_delete_all_entries (de_store env) }"

definition handle_gps_update :: "('e, 'de, 'x, 'r, 'rrc, 'nas, 'g) diag_env \<Rightarrow> 'g \<Rightarrow> (diag_task, unit) state" where
  "handle_gps_update env coords = do {
     s \<leftarrow> State_Monad.get;
     (case get_current_entry s of
        None \<Rightarrow> State_Monad.return ()
      | Some (i, _) \<Rightarrow> do {
          file \<leftarrow> (open_entry_gps_for_append i :: (diag_task, 'e RecordingStoreError + path option) state);
          (case file of
             Inr (Some p) \<Rightarrow> do {
               now \<leftarrow> get_adjusted_now;
               _ \<leftarrow> write_all p (de_gps_line env (dt_latest_packet_timestamp s) (now div NANOS) coords);
               State_Monad.return () }
           | _ \<Rightarrow> State_Monad.return ()) }) }"

section \<open>A container from the modem\<close>

definition DISK_CHECK_BYTES_INTERVAL :: nat where "DISK_CHECK_BYTES_INTERVAL = 256 * 1024"

definition WARNING_DEBOUNCE :: int where "WARNING_DEBOUNCE = 60 * 5 * NANOS"
definition LOW_SPACE_DEBOUNCE :: int where "LOW_SPACE_DEBOUNCE = 30 * NANOS"

definition DEMO_PREFIX :: ustr where "DEMO_PREFIX = lit ''[DEMO, NOT REAL] ''"

text \<open>The check of the space every so many bytes; \<open>False\<close> when it has stopped the recording.\<close>

definition space_check :: "('e, 'de, 'x, 'r, 'rrc, 'nas, 'g) diag_env \<Rightarrow> 'g diag_config \<Rightarrow> (diag_task, bool) state" where
  "space_check env cfg = do {
     s \<leftarrow> State_Monad.get;
     (if dt_bytes_since_space_check s < DISK_CHECK_BYTES_INTERVAL then State_Monad.return True
      else do {
        State_Monad.set (s\<lparr>dt_bytes_since_space_check := 0\<rparr>);
        check \<leftarrow> check_disk_space (dc_min_space_to_start_mb cfg) (dc_min_space_to_continue_mb cfg);
        (case check of
           SpaceCritical mb \<Rightarrow>
             (let reason = lit ''Disk space critically low ('' @ decimal mb @ lit ''MB free), recording stopped automatically'' in do {
                notify reason None;
                diag_stop env (Some reason);
                State_Monad.return False })
         | SpaceWarning mb \<Rightarrow> do {
             freed \<leftarrow> (if dc_auto_delete_clean cfg
               then prune_clean_recordings (de_store env) (de_json env) (dc_min_space_to_start_mb cfg) (dc_uploads_configured cfg)
               else State_Monad.return 0);
             s \<leftarrow> State_Monad.get;
             (if freed > 0 then State_Monad.set (s\<lparr>dt_low_space_warned := False\<rparr>)
              else if \<not> dt_low_space_warned s then do {
                State_Monad.set (s\<lparr>dt_low_space_warned := True\<rparr>);
                notify (lit ''Disk space low: '' @ decimal mb @ lit ''MB free'') (Some LOW_SPACE_DEBOUNCE) }
              else State_Monad.return ());
             State_Monad.return True }
         | _ \<Rightarrow> State_Monad.return True) }) }"

text \<open>The size goes to the manifest; the answer is an error, or the reason to rotate if the size limit is reached.\<close>

definition note_size :: "('e, 'de, 'x, 'r, 'rrc, 'nas, 'g) diag_env \<Rightarrow> 'g diag_config \<Rightarrow> nat
    \<Rightarrow> (diag_task, 'e RecordingStoreError + ustr option) state" where
  "note_size env cfg pos = do {
     file_size \<leftarrow> stream_position pos;
     (case file_size of
        Inl _ \<Rightarrow> ok None
      | Inr n \<Rightarrow> attempt (update_current_entry_qmdl_size (de_store env) n) (\<lambda>_.
          ok (case dc_max_recording_bytes cfg of
              None \<Rightarrow> None
            | Some limit \<Rightarrow>
                if n \<ge> limit then Some (lit ''Started a new recording automatically: reached the ''
                  @ decimal (limit div 1024 div 1024) @ lit '' MB limit'')
                else None))) }"

definition time_reason :: "'g diag_config \<Rightarrow> (diag_task, ustr option) state" where
  "time_reason cfg = do {
     s \<leftarrow> State_Monad.get;
     (case (dc_max_recording_duration cfg, dt_recording_started_at s) of
        (Some limit, Some began) \<Rightarrow> do {
          now \<leftarrow> instant_now;
          State_Monad.return (if now - began \<ge> limit
            then Some (lit ''Started a new recording automatically: reached the '' @ decimal (nat (limit div NANOS div 60)) @ lit '' minute limit'')
            else None) }
      | _ \<Rightarrow> State_Monad.return None) }"

definition DIAG_EPOCH :: int where "DIAG_EPOCH = 315964800"

definition latest_timestamp :: "('e, 'de, 'x, 'r, 'rrc, 'nas, 'g) diag_env \<Rightarrow> MessagesContainer \<Rightarrow> int option" where
  "latest_timestamp env c =
     (let stamps = concat (map (\<lambda>m. case m of
          Inr (MessageLog _ _ _ _ t _) \<Rightarrow> [DIAG_EPOCH + to_datetime t div 1000] | _ \<Rightarrow> [])
        (container_messages (de_parser env) (de_crc env) c)) in
      if stamps = [] then None else Some (foldl max (hd stamps) (tl stamps)))"

fun severity_name :: "EventType \<Rightarrow> ustr" where
  "severity_name EventType.Informational = lit ''Informational''" | "severity_name LowSeverity = lit ''Low''"
| "severity_name MediumSeverity = lit ''Medium''" | "severity_name HighSeverity = lit ''High''"

definition raise_alarm :: "EventType \<Rightarrow> (diag_task, unit) state" where
  "raise_alarm max_type = do {
     (if max_type > EventType.Informational
      then notify (lit ''Rayhunter has detected a '' @ severity_name max_type @ lit '' severity event'') (Some WARNING_DEBOUNCE)
      else State_Monad.return ());
     s \<leftarrow> State_Monad.get;
     (if max_type > dt_max_type_seen s then do {
        State_Monad.set (s\<lparr>dt_max_type_seen := max_type\<rparr>);
        (if max_type > EventType.Informational then send_ui (WarningDetected max_type) else State_Monad.return ()) }
      else State_Monad.return ()) }"

definition analyze_and_alarm :: "('e, 'de, 'x, 'r, 'rrc, 'nas, 'g) diag_env \<Rightarrow> MessagesContainer \<Rightarrow> bool \<Rightarrow> writers
    \<Rightarrow> (diag_task, unit) state" where
  "analyze_and_alarm env c demo w = do {
     State_Monad.update (\<lambda>s. case latest_timestamp env c of None \<Rightarrow> s | Some ts \<Rightarrow> s\<lparr>dt_latest_packet_timestamp := Some ts\<rparr>);
     State_Monad.update (\<lambda>s. s\<lparr>dt_bytes_since_space_check := dt_bytes_since_space_check s
        + sum_list (map (length \<circ> hem_data) (mc_messages c))\<rparr>);
     (analysis, w) \<leftarrow> analyze_container env c (if demo then Some DEMO_PREFIX else None) w;
     State_Monad.update (\<lambda>s. s\<lparr>dt_state := Some w\<rparr>);
     raise_alarm (case analysis of Inl _ \<Rightarrow> EventType.Informational | Inr t \<Rightarrow> t) }"

definition process_container :: "('e, 'de, 'x, 'r, 'rrc, 'nas, 'g) diag_env \<Rightarrow> 'g diag_config \<Rightarrow> MessagesContainer \<Rightarrow> bool
    \<Rightarrow> (diag_task, unit) state" where
  "process_container env cfg c demo =
     (if mc_data_type c \<noteq> UserSpace then State_Monad.return ()
      else do {
        s \<leftarrow> State_Monad.get;
        (case dt_state s of
           None \<Rightarrow> State_Monad.return ()
         | Some w \<Rightarrow> do {
             going_on \<leftarrow> space_check env cfg;
             if \<not> going_on then State_Monad.return ()
             else do {
               (written, w) \<leftarrow> qmdl_write env c w;
               State_Monad.update (\<lambda>s. s\<lparr>dt_state := Some w\<rparr>);
               (case written of
                  Inl e \<Rightarrow> diag_stop env (Some (lit ''failed to write to QMDL (disk full?): '' @ de_io_text env e))
                | Inr _ \<Rightarrow> do {
                    noted \<leftarrow> note_size env cfg (dw_position w);
                    (case noted of
                       Inl e \<Rightarrow> diag_stop env (Some (lit ''failed to update manifest (disk full?): '' @ de_error_text env e))
                     | Inr size_reason \<Rightarrow> do {
                         rotate_reason \<leftarrow> (if size_reason = None then time_reason cfg else State_Monad.return size_reason);
                         analyze_and_alarm env c demo w;
                         (case rotate_reason of
                            None \<Rightarrow> State_Monad.return ()
                          | Some reason \<Rightarrow> diag_rotate env cfg reason) }) }) } }) })"

section \<open>The loop\<close>

text \<open>What the task receives: control messages, and containers from the modem. \<open>DiagExit\<close> stands for \<open>Exit\<close> and for the
  end of the senders. An error of the device ends the loop without touching anything and is no input here.\<close>

datatype 'g diag_input =
    StartRecording
  | StopRecording
  | SwitchStore ustr ustr
  | InjectDemo MessagesContainer
  | DiagDelete ustr
  | DiagDeleteAll
  | GpsUpdate 'g
  | FromModem MessagesContainer
  | DiagExit

fun diag_handle :: "('e, 'de, 'x, 'r, 'rrc, 'nas, 'g) diag_env \<Rightarrow> 'g diag_config \<Rightarrow> 'g diag_input \<Rightarrow> (diag_task, unit) state" where
  "diag_handle env cfg StartRecording = do {
     State_Monad.update (\<lambda>s. s\<lparr>dt_stopped_by_user := False\<rparr>);
     _ \<leftarrow> diag_start env cfg;
     State_Monad.return () }"
| "diag_handle env cfg StopRecording = do {
     State_Monad.update (\<lambda>s. s\<lparr>dt_stopped_by_user := True\<rparr>);
     diag_stop env None }"
| "diag_handle env cfg (SwitchStore path reason) = do { _ \<leftarrow> switch_store env cfg path reason; State_Monad.return () }"
| "diag_handle env cfg (InjectDemo c) = process_container env cfg c True"
| "diag_handle env cfg (DiagDelete name) = do { _ \<leftarrow> diag_delete_entry env name; State_Monad.return () }"
| "diag_handle env cfg DiagDeleteAll = do { _ \<leftarrow> diag_delete_all_entries env; State_Monad.return () }"
| "diag_handle env cfg (GpsUpdate coords) = handle_gps_update env coords"
| "diag_handle env cfg (FromModem c) = process_container env cfg c False"
| "diag_handle env cfg DiagExit = stop_current_recording env"

fun diag_run :: "('e, 'de, 'x, 'r, 'rrc, 'nas, 'g) diag_env \<Rightarrow> 'g diag_config \<Rightarrow> 'g diag_input list \<Rightarrow> (diag_task, unit) state" where
  "diag_run env cfg [] = State_Monad.return ()"
| "diag_run env cfg (i # is) = do {
     diag_handle env cfg i;
     if i = DiagExit then State_Monad.return () else diag_run env cfg is }"

end
