(* ===== verification/RecorderProps.thy ===== *)
theory RecorderProps
  imports Recorder
begin

text \<open>
  What the recording task guarantees: what the screen shows, that the open files belong to the current recording,
  that alarms survive a rotation, and when a recording is refused for want of space. \<open>keeps v m\<close> says that a
  program of the store leaves what extends the store as it is.
\<close>

section \<open>Operations of the store leave the task alone\<close>

named_theorems keeping "programs of the store that leave its extension alone"

definition keeps :: "'z \<Rightarrow> ('z store_scheme, 'a) state \<Rightarrow> bool" where
  "keeps v m \<longleftrightarrow> (\<forall>s. store.more s = v \<longrightarrow> wp m (\<lambda>_ s'. store.more s' = v) s)"

lemma keeps_return [keeping]: "keeps v (State_Monad.return x)" "keeps v (ok y)" "keeps v (fail e)"
  by (simp_all add: keeps_def wp_simps)

lemma keeps_bind [keeping]: "keeps v m \<Longrightarrow> (\<And>x. keeps v (k x)) \<Longrightarrow> keeps v (State_Monad.bind m k)"
  by (simp add: keeps_def wp_def case_prod_beta)

lemma keeps_get: "(\<And>s. store.more s = v \<Longrightarrow> keeps v (k s)) \<Longrightarrow> keeps v (State_Monad.bind State_Monad.get k)"
  by (simp add: keeps_def wp_simps)

lemma keeps_attempt [keeping]: "keeps v m \<Longrightarrow> (\<And>x. keeps v (k x)) \<Longrightarrow> keeps v (attempt m k)"
  unfolding attempt_def by (intro keeping) (auto intro: keeping split: sum.splits)

lemma keeps_map_error [keeping]: "keeps v m \<Longrightarrow> keeps v (map_error g m)"
  unfolding map_error_def by (intro keeping)

lemma keeps_if [keeping]: "keeps v m \<Longrightarrow> keeps v n \<Longrightarrow> keeps v (if c then m else n)"
  by simp

lemma keeps_set [keeping]: "store.more t = v \<Longrightarrow> keeps v (State_Monad.set t)"
  by (simp add: keeps_def wp_simps)

lemma keeps_update [keeping]: "(\<And>s. store.more (g s) = store.more s) \<Longrightarrow> keeps v (State_Monad.update g)"
  by (simp add: keeps_def wp_simps)

lemma confined_keeps:
  fixes m :: "('z store_scheme, 'a) state"
  assumes "confined_to UNIV m"
  shows "keeps v m"
  unfolding keeps_def
proof (intro allI impI)
  fix s :: "'z store_scheme"
  assume "store.more s = v"
  then show "wp m (\<lambda>_ s'. store.more s' = v) s"
    by (intro wp_mono [OF confined_wp [OF assms]]) (auto simp: io_only_def)
qed

lemma keeps_files [keeping]:
  "keeps v (create_new p)" "keeps v (open_append p)" "keeps v (read_file p)" "keeps v (remove_file p)"
  "keeps v (write_atomically p bs)" "keeps v (finish_meta env p)"
  by (rule confined_keeps; rule confined; simp)+

lemma keeps_write_at [keeping]: "keeps v (write_manifest_at env path entries)"
  unfolding write_manifest_at_def by (rule confined_keeps) (intro confined; simp)

lemma keeps_clocks [keeping]: "keeps v get_adjusted_now" "keeps v available_mb"
  by (simp_all add: keeps_def wp_simps)

lemma keeps_write_manifest [keeping]: "keeps v (write_manifest env)"
  unfolding write_manifest_def by (intro keeps_get keeping)

lemma keeps_close [keeping]: "keeps v (close_current_entry env)"
  unfolding close_current_entry_def by (rule keeps_get) (auto intro!: keeping split: option.split)

lemma keeps_change [keeping]:
  "keeps v (update_current_entry_qmdl_size env n)"
  "keeps v (set_current_stop_reason env reason)"
  unfolding update_current_entry_qmdl_size_def set_current_stop_reason_def update_entry_def
  by (rule keeps_get; auto intro!: keeping split: option.split)+

lemma keeps_entry_new [keeping]: "keeps v (manifest_entry_new env gps)"
  unfolding manifest_entry_new_def by (intro keeping keeps_get) (simp_all split: prod.split add: keeping)

lemma keeps_claim [keeping]: "keeps v (claim_entry env e)"
  unfolding claim_entry_def by (rule keeps_get) (auto intro!: keeping)

lemma keeps_attempts [keeping]: "keeps v (new_entry_attempts env gps n)"
proof (induction n)
  case (Suc n)
  then show ?case
    by (auto intro!: keeping keeps_get split: sum.split IoError.split)
qed (simp add: keeping)

lemma keeps_new_entry [keeping]: "keeps v (new_entry env gps)"
  unfolding new_entry_def by (rule keeps_get) (auto intro!: keeping)

lemma keeps_gps [keeping]: "keeps v (open_entry_gps_for_append i)"
  unfolding open_entry_gps_for_append_def Let_def
  by (rule keeps_get) (auto intro!: keeping split: sum.split IoError.split)

lemma keeps_remove_files [keeping]: "keeps v (remove_files ps)"
  by (induction ps) (auto intro!: keeping simp: remove_file_if_exists_def)

lemma keeps_sweep [keeping]: "keeps v (sweep_entries base es)"
  by (induction es) (auto intro!: keeping)

lemma keeps_delete [keeping]: "keeps v (store_delete_entry env name)" "keeps v (store_delete_all_entries env)"
  unfolding store_delete_entry_def store_delete_all_entries_def
  by (rule keeps_get; auto intro!: keeping split: option.split)+

lemma keeps_read_report [keeping]: "keeps v (read_report from_str saw ps)"
proof (induction ps arbitrary: saw)
  case Nil
  show ?case by (rule confined_keeps) (auto simp: next_line_def intro!: confined)
next
  case (Cons p ps)
  have "keeps v (next_line piece)" for piece :: "bytes option"
    unfolding next_line_def by (rule confined_keeps) (auto intro!: confined)
  with Cons show ?case by (auto intro!: keeping split: sum.split option.split LineClass.split)
qed

lemma keeps_verdict [keeping]: "keeps v (verdict_for from_str uploads i)"
  unfolding verdict_for_def open_file_def Let_def
  by (intro keeps_get) (auto intro!: keeping keeps_get split: sum.split option.split IoError.split)

lemma keeps_prune [keeping]: "keeps v (prune_clean_recordings env from_str target uploads)"
proof -
  have "keeps v (prune_loop env from_str target uploads names removed)" for names removed
    by (induction names arbitrary: removed) (auto intro!: keeping keeps_get split: option.split)
  then show ?thesis unfolding prune_clean_recordings_def by (auto intro!: keeping keeps_get)
qed

lemma keepsD: "keeps (store.more s) m \<Longrightarrow> wp m (\<lambda>_ s'. store.more s' = store.more s) s"
  by (simp add: keeps_def)

section \<open>The current recording\<close>

text \<open>What names the files of the current recording.\<close>

definition current_key :: "'z store_scheme \<Rightarrow> (ustr \<times> bool) option" where
  "current_key s = map_option (\<lambda>(_, e). (me_name e, me_compressed e)) (get_current_entry s)"

definition same_current :: "'z store_scheme \<Rightarrow> 'z store_scheme \<Rightarrow> bool" where
  "same_current s s' \<longleftrightarrow> rs_path s' = rs_path s \<and> current_key s' = current_key s \<and> (rs_current s' = None \<longleftrightarrow> rs_current s = None)
     \<and> (index_ok s \<longrightarrow> index_ok s')"

lemma same_current_refl [simp]: "same_current s s"
  by (simp add: same_current_def)

lemma same_current_trans: "same_current s t \<Longrightarrow> same_current t u \<Longrightarrow> same_current s u"
  by (simp add: same_current_def)

lemma same_currentI:
  "rs_path s' = rs_path s \<Longrightarrow> rs_entries s' = rs_entries s \<Longrightarrow> rs_current s' = rs_current s \<Longrightarrow> same_current s s'"
  using index_ok_cong [of s' s] by (simp add: same_current_def current_key_def get_current_entry_def)

lemma io_only_current: "io_only P s (s' :: 'z store_scheme) \<Longrightarrow> same_current s s'"
  by (rule same_currentI) (auto simp: io_only_def)

lemma confined_current:
  fixes m :: "('z store_scheme, 'a) state"
  shows "confined_to P m \<Longrightarrow> wp m (\<lambda>_. same_current s) s"
  by (rule wp_mono [OF confined_wp]) (auto intro: io_only_current)

lemma write_manifest_io:
  fixes s :: "'z store_scheme"
  shows "wp (write_manifest env) (\<lambda>_ s'. io_only (manifest_paths (rs_path s)) s s') s"
  by (simp add: write_manifest_def wp_simps confined_wp [OF confined_write_manifest_at])

lemma update_entry_current:
  assumes "me_name (f (rs_entries s ! i)) = me_name (rs_entries s ! i)" "me_compressed (f (rs_entries s ! i)) = me_compressed (rs_entries s ! i)"
  shows "same_current s (s\<lparr>rs_entries := (rs_entries s)[i := f (rs_entries s ! i)]\<rparr>)"
proof -
  have "me_name ((rs_entries s)[i := f (rs_entries s ! i)] ! j) = me_name (rs_entries s ! j)
      \<and> me_compressed ((rs_entries s)[i := f (rs_entries s ! i)] ! j) = me_compressed (rs_entries s ! j)" for j
    using assms by (cases "i < length (rs_entries s)"; cases "i = j") (simp_all add: list_update_beyond)
  then show ?thesis
    by (auto simp: same_current_def current_key_def get_current_entry_def index_ok_def split: option.splits)
qed

lemma write_manifest_current:
  fixes s t :: "'z store_scheme"
  assumes "same_current s t"
  shows "wp (write_manifest env) (\<lambda>_. same_current s) t"
  by (rule wp_mono [OF write_manifest_io]) (use assms in \<open>auto intro: same_current_trans io_only_current\<close>)

lemma update_size_current: "wp (update_current_entry_qmdl_size env n) (\<lambda>_. same_current s) s"
  unfolding update_current_entry_qmdl_size_def
proof (cases "rs_current s")
  case (Some i)
  let ?f = "\<lambda>e. e\<lparr>me_qmdl_size_bytes := n\<rparr>"
  let ?s1 = "s\<lparr>rs_entries := (rs_entries s)[i := ?f (rs_entries s ! i)]\<rparr>"
  let ?s2 = "?s1\<lparr>w_clock_reads := Suc (w_clock_reads s)\<rparr>"
  let ?g = "\<lambda>e. e\<lparr>me_last_message_time := Some (w_clock s (w_clock_reads s))\<rparr>"
  have "same_current s ?s1" by (rule update_entry_current) simp_all
  moreover have "same_current ?s1 ?s2" by (rule same_currentI) simp_all
  moreover have "same_current ?s2 (?s2\<lparr>rs_entries := (rs_entries ?s2)[i := ?g (rs_entries ?s2 ! i)]\<rparr>)"
    by (rule update_entry_current) simp_all
  ultimately have "same_current s (?s2\<lparr>rs_entries := (rs_entries ?s2)[i := ?g (rs_entries ?s2 ! i)]\<rparr>)"
    by (blast intro: same_current_trans)
  from write_manifest_current [OF this] Some
  show "wp (do { s \<leftarrow> State_Monad.get;
     (case rs_current s of
        None \<Rightarrow> fail NoCurrentEntry
      | Some i \<Rightarrow> do {
          update_entry i (\<lambda>e. e\<lparr>me_qmdl_size_bytes := n\<rparr>);
          now \<leftarrow> get_adjusted_now;
          update_entry i (\<lambda>e. e\<lparr>me_last_message_time := Some now\<rparr>);
          write_manifest env }) }) (\<lambda>_. same_current s) s"
    by (simp add: wp_simps update_entry_def)
qed (simp add: wp_simps)

lemma stop_reason_current: "wp (set_current_stop_reason env reason) (\<lambda>_. same_current s) s"
  by (auto simp: set_current_stop_reason_def wp_simps update_entry_def split: option.split
      intro!: write_manifest_current update_entry_current)

lemma close_current: "wp (close_current_entry env) (\<lambda>_ s'. rs_path s' = rs_path s \<and> rs_current s' = None) s"
  by (rule wp_close_current_entry) (auto simp: io_only_def)

lemma current_key_get:
  "map_option snd (get_current_entry s') = map_option snd (get_current_entry s) \<Longrightarrow> current_key s' = current_key s"
  unfolding current_key_def by (cases "get_current_entry s"; cases "get_current_entry s'") auto

lemma deletes_current:
  assumes "deletes env s i r s'" and "index_ok s" and "rs_current s \<noteq> Some i"
  shows "same_current s s'"
proof -
  have "map_option snd (get_current_entry s') = map_option snd (get_current_entry s)" "rs_path s' = rs_path s" "index_ok s'"
    using assms unfolding deletes_def sound_def by blast+
  then show ?thesis
    using current_key_get [of s' s] by (auto simp: same_current_def get_current_entry_def split: option.splits)
qed

lemma prune_loop_current:
  fixes s t :: "'z store_scheme" and env :: "'e store_env"
  assumes "toml_ok env"
  shows "index_ok s \<Longrightarrow> wp (prune_loop env from_str target uploads names removed) (\<lambda>_. same_current s) s"
proof (induction names arbitrary: s removed)
  case (Cons name names)
  let ?s = "s\<lparr>w_space_reads := Suc (w_space_reads s)\<rparr>"
  have s: "same_current s ?s" by (rule same_currentI) simp_all
  have again: "wp (prune_loop env from_str target uploads names n) (\<lambda>_. same_current s) t" if "same_current s t" for t n
    by (rule wp_mono [OF Cons.IH]) (use that Cons.prems in \<open>auto simp: same_current_def intro: same_current_trans\<close>)
  have delete: "wp (verdict_for from_str uploads i) (\<lambda>v. wp
      (if v \<noteq> CleanVerdict then prune_loop env from_str target uploads names removed
       else do { r \<leftarrow> store_delete_entry env name;
          prune_loop env from_str target uploads names (case r of Inr _ \<Rightarrow> removed + 1 | Inl _ \<Rightarrow> removed) })
      (\<lambda>_. same_current s)) ?s" if i: "position name (rs_entries ?s) = Some i" for i
  proof (rule wp_mono [OF verdict_for_clean], goal_cases)
    case (1 v u)
    then have u: "same_current s u" using io_only_current [of "{}" ?s u] s same_current_trans by blast
    show ?case
    proof (cases "v = CleanVerdict")
      case True
      have st: "rs_entries u = rs_entries ?s" "rs_current u = rs_current ?s" using 1 by (auto simp: io_only_def)
      have cur: "rs_current u \<noteq> Some i" using True 1 not_worth_keeping_current [of i ?s] st by auto
      have ok: "index_ok u" using u Cons.prems by (simp add: same_current_def)
      have "wp (store_delete_entry env name) (\<lambda>_. same_current s) u"
        using i by (intro wp_mono [OF store_delete_entry_deletes [OF assms]])
          (auto simp: st intro: same_current_trans [OF u] deletes_current [OF _ ok cur])
      then show ?thesis using True by (auto simp: wp_simps elim!: wp_mono intro: again)
    qed (use u in \<open>simp add: again\<close>)
  qed
  show ?case
    using s delete by (auto simp: wp_simps entry_for_name_def intro!: again split: option.split)
qed (simp add: wp_simps)

lemma prune_current:
  fixes s :: "'z store_scheme"
  assumes "toml_ok env" and "index_ok s"
  shows "wp (prune_clean_recordings env from_str target uploads) (\<lambda>_. same_current s) s"
proof -
  let ?s = "s\<lparr>w_space_reads := Suc (w_space_reads s)\<rparr>"
  have s: "same_current s ?s" by (rule same_currentI) simp_all
  then have "index_ok ?s" using assms(2) by (simp add: same_current_def)
  then have "wp (prune_loop env from_str target uploads (map me_name (rs_entries s)) 0) (\<lambda>_. same_current s) ?s"
    by (intro wp_mono [OF prune_loop_current [OF assms(1)]]) (use s in \<open>auto intro: same_current_trans\<close>)
  with s show ?thesis by (simp add: prune_clean_recordings_def wp_simps)
qed

section \<open>Stopping\<close>

definition untouched :: "'z store_scheme \<Rightarrow> 'z store_scheme \<Rightarrow> bool" where
  "untouched s s' \<longleftrightarrow> same_current s s' \<and> store.more s' = store.more s"

lemma untouched_refl [simp]: "untouched s s"
  by (simp add: untouched_def)

lemma untouched_trans: "untouched s t \<Longrightarrow> untouched t u \<Longrightarrow> untouched s u"
  by (auto simp: untouched_def intro: same_current_trans)

lemma untouchedI: "wp m (\<lambda>_. same_current s) s \<Longrightarrow> keeps (store.more s) m \<Longrightarrow> wp m (\<lambda>_. untouched s) s"
  unfolding untouched_def by (intro wp_conj keepsD)

lemma untouched_confined:
  fixes m :: "('z store_scheme, 'a) state"
  shows "confined_to P m \<Longrightarrow> wp m (\<lambda>_. untouched s) s"
  by (rule wp_mono [OF confined_wp]) (auto simp: untouched_def intro: io_only_current, auto simp: io_only_def)

lemma untouched_update_size: "wp (update_current_entry_qmdl_size env n) (\<lambda>_. untouched s) s"
  by (intro untouchedI update_size_current keeping)

lemma untouched_stop_reason: "wp (set_current_stop_reason env reason) (\<lambda>_. untouched s) s"
  by (intro untouchedI stop_reason_current keeping)

lemma untouched_prune:
  "toml_ok env \<Longrightarrow> index_ok s \<Longrightarrow> wp (prune_clean_recordings env from_str target uploads) (\<lambda>_. untouched s) s"
  by (intro untouchedI prune_current keeping)

lemma wp_update_fun: "wp (State_Monad.update f) Q = (\<lambda>s. Q () (f s))"
  by (rule ext) (rule wp_update)

lemma wp_get_fun: "wp State_Monad.get Q = (\<lambda>s. Q s s)"
  by (rule ext) (rule wp_get)

lemma wp_step:
  assumes "\<And>u. wp m (\<lambda>_. untouched u) u" and "untouched s t" and "\<And>x u. untouched s u \<Longrightarrow> Q x u"
  shows "wp m Q t"
  by (rule wp_mono [OF assms(1)]) (use assms(2,3) untouched_trans in blast)

lemma wp_step_then:
  assumes "\<And>u. wp m (\<lambda>_. untouched u) u" and "untouched s t" and "\<And>x u. untouched s u \<Longrightarrow> wp (k x) Q u"
  shows "wp (State_Monad.bind m k) Q t"
  using wp_step [OF assms] by (simp add: wp_simps)

lemma confined_buffered [confined]: "p \<in> P \<Longrightarrow> confined_to P (write_buffered p bs)"
  unfolding confined_to_def
proof
  fix s :: "'a os_scheme"
  assume "p \<in> P"
  from confined_wp [OF confined_write_all [OF this], of bs s]
  show "wp (write_buffered p bs) (\<lambda>_. io_only P s) s"
    by (simp add: write_buffered_def wp_bind wp_get Let_def wp_return)
qed

lemma confined_position [confined]: "confined_to P (stream_position n)"
  unfolding stream_position_def by (auto intro!: confined)

lemma confined_qmdl_close [confined]: "dw_qmdl w \<in> P \<Longrightarrow> confined_to P (qmdl_close env w)"
  unfolding qmdl_close_def by (auto intro!: confined split: prod.split sum.split)

lemma confined_qmdl_write [confined]: "dw_qmdl w \<in> P \<Longrightarrow> confined_to P (qmdl_write env c w)"
  unfolding qmdl_write_def Let_def by (auto intro!: confined split: prod.split)

lemma stop_current_recording_ends:
  "wp (stop_current_recording env) (\<lambda>_. untouched (s\<lparr>dt_state := None\<rparr>)) s"
proof (cases "dt_state s")
  case (Some w)
  show ?thesis
    unfolding stop_current_recording_def wp_bind [where m = State_Monad.get] wp_get wp_bind [where m = "State_Monad.set _"] wp_set Some option.case
    by (intro wp_step_then [OF untouched_confined [OF confined_qmdl_close [OF UNIV_I]] untouched_refl]
        wp_step_then [OF untouched_confined [OF confined_buffered [OF UNIV_I]]])
      (auto simp: wp_return split: sum.split intro!: wp_step_then [OF untouched_update_size])
qed (simp add: stop_current_recording_def wp_simps)

definition finished :: "diag_task \<Rightarrow> diag_task \<Rightarrow> bool" where
  "finished s s' \<longleftrightarrow> dt_state s' = None \<and> rs_current s' = None \<and> rs_path s' = rs_path s \<and> dt_ui s' = dt_ui s
     \<and> dt_max_type_seen s' = dt_max_type_seen s \<and> dt_stopped_by_user s' = dt_stopped_by_user s
     \<and> dt_finished s' = dt_finished s @ (case current_key s of None \<Rightarrow> [] | Some (name, _) \<Rightarrow> [name])"

lemma more_task:
  assumes "store.more (s' :: diag_task) = store.more s"
  shows "dt_state s' = dt_state s" "dt_ui s' = dt_ui s" "dt_max_type_seen s' = dt_max_type_seen s"
    "dt_stopped_by_user s' = dt_stopped_by_user s" "dt_finished s' = dt_finished s"
    "dt_low_space_warned s' = dt_low_space_warned s" "dt_bytes_since_space_check s' = dt_bytes_since_space_check s"
    "dt_recording_started_at s' = dt_recording_started_at s"
  using assms by (cases s; cases s'; simp)+

lemma finish_current_entry_finishes: "wp (finish_current_entry env reason) (\<lambda>_. finished s) s"
proof -
  let ?s = "s\<lparr>dt_state := None, dt_recording_started_at := None\<rparr>"
  let ?key = "case current_key s of None \<Rightarrow> [] | Some (name, _) \<Rightarrow> [name]"
  let ?note = "\<lambda>s. case get_current_entry s of None \<Rightarrow> s | Some (_, e) \<Rightarrow> s\<lparr>dt_finished := dt_finished s @ [me_name e]\<rparr>"
  have keys: "current_key ?s = current_key s" "rs_path ?s = rs_path s" by (simp_all add: current_key_def get_current_entry_def)
  have close: "wp (close_current_entry (de_store env)) (\<lambda>_. finished s) (?note u)" if u: "untouched ?s u" for u
  proof -
    have task: "dt_state u = None" "dt_ui u = dt_ui s" "dt_max_type_seen u = dt_max_type_seen s"
        "dt_stopped_by_user u = dt_stopped_by_user s" "dt_finished u = dt_finished s"
      using u more_task [of u ?s] by (simp_all add: untouched_def)
    have path: "rs_path u = rs_path s" using u by (simp add: untouched_def same_current_def)
    have key: "current_key u = current_key s" using u keys by (simp add: untouched_def same_current_def)
    have n: "dt_finished (?note u) = dt_finished s @ ?key"
      unfolding key [symmetric] by (simp add: current_key_def task split: option.split prod.split)
    have same: "dt_state (?note u) = None" "dt_ui (?note u) = dt_ui s" "dt_max_type_seen (?note u) = dt_max_type_seen s"
        "dt_stopped_by_user (?note u) = dt_stopped_by_user s" "rs_path (?note u) = rs_path s"
      by (simp_all add: task path split: option.split prod.split)
    show ?thesis
    proof (rule wp_mono [OF wp_conj [OF close_current keepsD [OF keeps_close]]], goal_cases)
      case (1 r s')
      then show ?case using n same more_task [of s' "?note u"] by (simp add: finished_def)
    qed
  qed
  have rest: "wp (do {
     (case reason of
        None \<Rightarrow> State_Monad.return ()
      | Some r \<Rightarrow> do { _ \<leftarrow> set_current_stop_reason (de_store env) r; State_Monad.return () });
     State_Monad.update ?note;
     _ \<leftarrow> close_current_entry (de_store env);
     State_Monad.return () }) (\<lambda>_. finished s) u" if u: "untouched ?s u" for u
  proof (cases reason)
    case (Some r)
    have "wp (set_current_stop_reason (de_store env) r) (\<lambda>_ v. wp (close_current_entry (de_store env)) (\<lambda>_. finished s) (?note v)) u"
      by (rule wp_step [OF untouched_stop_reason u]) (rule close)
    then show ?thesis by (simp add: Some wp_bind wp_return wp_update_fun)
  qed (use close [OF u] in \<open>simp add: wp_simps\<close>)
  have started: "untouched ?s (u\<lparr>dt_recording_started_at := None\<rparr>)" if "untouched (s\<lparr>dt_state := None\<rparr>) u" for u
    using that by (cases s; cases u) (auto simp: untouched_def same_current_def current_key_def get_current_entry_def index_ok_def)
  show ?thesis
    unfolding finish_current_entry_def wp_bind [where m = "stop_current_recording env"]
    by (rule wp_mono [OF stop_current_recording_ends]) (simp add: wp_bind [where m = "State_Monad.update _"] wp_update rest started)
qed

lemma diag_stop_stops:
  "wp (diag_stop env reason) (\<lambda>_ s'. \<exists>t. finished s t \<and> s' = t\<lparr>dt_ui := dt_ui t @ [DisplayPaused]\<rparr>) s"
  unfolding diag_stop_def send_ui_def wp_bind wp_update
  by (rule wp_mono [OF finish_current_entry_finishes]) auto

section \<open>Starting\<close>

definition writing_to :: "writers \<Rightarrow> ustr \<Rightarrow> (ustr \<times> bool) option \<Rightarrow> bool" where
  "writing_to w path key \<longleftrightarrow> (case key of None \<Rightarrow> False | Some (name, compressed) \<Rightarrow>
     dw_qmdl w = get_filepath Qmdl name path compressed \<and> dw_report w = get_filepath Analysis name path compressed)"

text \<open>The files being written are those of the current recording.\<close>

definition bound :: "diag_task \<Rightarrow> bool" where
  "bound s \<longleftrightarrow> index_ok s \<and> (case dt_state s of None \<Rightarrow> True | Some w \<Rightarrow> writing_to w (rs_path s) (current_key s))"

lemma new_entry_key:
  fixes s :: "'z store_scheme" and env :: "'e store_env"
  assumes "toml_ok env"
  shows "wp (new_entry env gps) (\<lambda>r s'. store.more s' = store.more s \<and> rs_path s' = rs_path s \<and> (index_ok s \<longrightarrow> index_ok s')
     \<and> (case r of Inl _ \<Rightarrow> True | Inr (q, a) \<Rightarrow> \<exists>name c. current_key s' = Some (name, c)
          \<and> q = get_filepath Qmdl name (rs_path s) c \<and> a = get_filepath Analysis name (rs_path s) c)) s"
proof (rule wp_mono [OF wp_conj [OF keepsD [OF keeps_new_entry] new_entry_begins [OF assms]]], goal_cases)
  case (1 r s')
  show ?case
  proof (cases r)
    case (Inr files)
    then obtain q a e where e: "r = Inr (q, a)" "rs_entries s' = rs_entries s @ [e]" "rs_current s' = Some (length (rs_entries s))"
        "q = entry_file Qmdl e (rs_path s)" "a = entry_file Analysis e (rs_path s)"
      using 1 by (cases files) auto
    then have "current_key s' = Some (me_name e, me_compressed e)" by (simp add: current_key_def get_current_entry_def)
    with 1 e show ?thesis by (auto simp: sound_def entry_file_def)
  qed (use 1 in \<open>auto simp: sound_def\<close>)
qed

lemma untouched_entry_gps: "wp (open_entry_gps_for_append i) (\<lambda>_. untouched s) s"
  unfolding open_entry_gps_for_append_def wp_bind wp_get Let_def
  by (rule wp_step [OF untouched_confined untouched_refl])
     (auto intro: confined simp: wp_simps split: sum.split IoError.split)

lemma wp_attempt_step:
  assumes "\<And>u. wp m (\<lambda>_. untouched u) u" and "untouched s t"
    and "\<And>e u. untouched s u \<Longrightarrow> Q (Inl e) u" and "\<And>x u. untouched s u \<Longrightarrow> wp (k x) Q u"
  shows "wp (attempt m k) Q t"
  unfolding wp_attempt
  by (rule wp_step [OF assms(1,2)]) (auto intro: assms(3,4) split: sum.split)

lemma untouched_clock: "untouched s (s\<lparr>w_clock_reads := n\<rparr>)" "untouched s (s\<lparr>w_space_reads := n\<rparr>)"
  by (auto simp: untouched_def intro: same_currentI)

lemma untouched_fixed_gps: "wp (write_fixed_gps env cfg) (\<lambda>_. untouched s) s"
proof -
  have now: "wp (do { now \<leftarrow> get_adjusted_now; map_error WriteFileError (write_all p (de_gps_line env None (now div NANOS) coords)) })
      (\<lambda>_. untouched s) u" if "untouched s u" for p coords u
    unfolding wp_bind wp_get_adjusted_now
    by (rule wp_step [OF untouched_confined [OF confined_map_error [OF confined_write_all [OF UNIV_I]]] untouched_trans [OF that untouched_clock(1)]])
  have fixed: "wp (attempt (open_entry_gps_for_append i) (\<lambda>file. case file of
               None \<Rightarrow> fail GpsStorageNotFound
             | Some p \<Rightarrow> do {
                 now \<leftarrow> get_adjusted_now;
                 map_error WriteFileError (write_all p (de_gps_line env None (now div NANOS) coords)) })) (\<lambda>_. untouched s) s" for i coords
    by (rule wp_attempt_step [OF untouched_entry_gps untouched_refl]) (auto simp: wp_fail now split: option.split)
  show ?thesis
    unfolding write_fixed_gps_def wp_bind [where m = State_Monad.get] wp_get
    by (auto simp: wp_ok fixed split: option.split)
qed

lemma untouched_sidecar: "wp (write_sidecar env) (\<lambda>_. untouched s) s"
  unfolding write_sidecar_def wp_bind [where m = State_Monad.get] wp_get
  by (auto simp: wp_return split: option.split
      intro!: wp_step_then [OF untouched_confined [OF confined_write_atomically [OF UNIV_I UNIV_I]]])

lemma untouched_space: "wp (check_disk_space a b) (\<lambda>_. untouched s) s"
  by (simp add: check_disk_space_def wp_simps untouched_clock)

lemma untouched_make_room:
  assumes "toml_ok (de_store env)" and "index_ok s"
  shows "wp (make_room env cfg) (\<lambda>_. untouched s) s"
proof -
  have "wp (prune_clean_recordings (de_store env) (de_json env) (dc_min_space_to_start_mb cfg) (dc_uploads_configured cfg)) (\<lambda>_. untouched s) u"
    if "untouched s u" for u
    using that assms(2) by (intro wp_mono [OF untouched_prune [OF assms(1)]])
      (auto simp: untouched_def same_current_def intro: untouched_trans)
  then show ?thesis
    unfolding make_room_def by (auto simp: wp_simps intro!: wp_step [OF untouched_space untouched_refl])
qed

lemma untouched_enough: "wp (enough_space cfg) (\<lambda>_. untouched s) s"
  unfolding enough_space_def by (auto simp: wp_simps split: DiskSpaceCheck.split intro!: wp_step [OF untouched_space untouched_refl])

text \<open>How a start ends: recording into the files of a new recording, with the alarms reset, or not started; in
  the latter case a recording that was running may still be.\<close>

definition startable :: "diag_task \<Rightarrow> 'e + unit \<Rightarrow> diag_task \<Rightarrow> bool" where
  "startable s r s' \<longleftrightarrow> rs_path s' = rs_path s \<and> dt_stopped_by_user s' = dt_stopped_by_user s \<and> bound s' \<and>
     (case r of
        Inr _ \<Rightarrow> dt_state s' \<noteq> None \<and> dt_ui s' = dt_ui s @ [DisplayRecording] \<and> dt_max_type_seen s' = EventType.Informational
      | Inl _ \<Rightarrow> dt_ui s' = dt_ui s \<and> (dt_state s = None \<longrightarrow> dt_state s' = None))"

lemma start_inner_starts:
  fixes env :: "('e, 'de, 'x, 'r, 'rrc, 'nas, 'g) diag_env"
  assumes toml: "toml_ok (de_store env)" and "bound s"
  shows "wp (start_inner env cfg) (startable s) s"
proof -
  let ?s = "s\<lparr>dt_max_type_seen := EventType.Informational, dt_bytes_since_space_check := 0, dt_low_space_warned := False\<rparr>"
  have ok: "index_ok ?s" using assms(2) index_ok_cong [of ?s s] by (simp add: bound_def)
  have s: "bound ?s" "dt_state ?s = dt_state s" "dt_ui ?s = dt_ui s" "rs_path ?s = rs_path s" "dt_stopped_by_user ?s = dt_stopped_by_user s"
    using assms(2) ok by (auto simp: bound_def current_key_def get_current_entry_def split: option.splits)
  have refused: "startable s (Inl e) u" if "untouched ?s u" for u and e :: "'e RecordingStoreError"
    using that s more_task [of u ?s] by (auto simp: startable_def untouched_def same_current_def bound_def split: option.splits)
  have rest: "wp (attempt (new_entry (de_store env) (dc_gps_mode cfg)) (\<lambda>(qmdl_file, analysis_file).
       attempt (write_fixed_gps env cfg) (\<lambda>_. do {
         write_sidecar env;
         s \<leftarrow> State_Monad.get;
         (let harness = harness_new_with_config (dc_analyzers cfg) (de_home_plmn env (current_name s)) in
          attempt (map_error WriteFileError (write_all analysis_file (de_metadata_line env harness))) (\<lambda>_. do {
            State_Monad.update (\<lambda>s. s\<lparr>dt_state := Some
              \<lparr>dw_qmdl = qmdl_file, dw_chunks = [], dw_pending = [], dw_position = 0,
               dw_report = analysis_file, dw_report_pending = [], dw_harness = harness\<rparr>\<rparr>);
            now \<leftarrow> instant_now;
            State_Monad.update (\<lambda>s. s\<lparr>dt_recording_started_at := Some now\<rparr>);
            send_ui DisplayRecording;
            ok () })) }))) (startable s) t"
    if t: "dt_state t = None" "dt_ui t = dt_ui s" "rs_path t = rs_path s" "dt_stopped_by_user t = dt_stopped_by_user s"
      "dt_max_type_seen t = EventType.Informational" "index_ok t" for t
    unfolding wp_attempt [where m = "new_entry _ _"]
  proof (rule wp_mono [OF new_entry_key [OF toml]], goal_cases)
    case (1 r u)
    then have u: "dt_state u = None" "dt_ui u = dt_ui s" "rs_path u = rs_path s" "dt_stopped_by_user u = dt_stopped_by_user s"
      "dt_max_type_seen u = EventType.Informational" "index_ok u" "rs_path u = rs_path t"
      using t more_task [of u t] by simp_all
    have fails: "startable s (Inl e) v" if "untouched u v" for v and e :: "'e RecordingStoreError"
      using that u more_task [of v u] by (auto simp: startable_def untouched_def same_current_def bound_def)
    have starts: "startable s (Inr ()) (v\<lparr>dt_state := Some
              \<lparr>dw_qmdl = q, dw_chunks = [], dw_pending = [], dw_position = 0,
               dw_report = a, dw_report_pending = [], dw_harness = h\<rparr>, dt_instant_reads := i,
               dt_recording_started_at := now, dt_ui := dt_ui v @ [DisplayRecording]\<rparr>)"
      if "untouched u v" "r = Inr (q, a)" for v q a h i now
    proof -
      have v: "dt_ui v = dt_ui s" "rs_path v = rs_path s" "dt_stopped_by_user v = dt_stopped_by_user s"
          "dt_max_type_seen v = EventType.Informational" "index_ok v" "current_key v = current_key u"
        using that(1) u more_task [of v u] by (auto simp: untouched_def same_current_def)
      with 1 that(2) u show ?thesis
        by (auto simp: startable_def bound_def writing_to_def index_ok_def current_key_def get_current_entry_def split: option.splits)
    qed
    show ?case
    proof (cases r)
      case (Inr files)
      then obtain q a where r: "r = Inr (q, a)" by (cases files) auto
      show ?thesis
        unfolding r sum.case prod.case
        apply (rule wp_attempt_step [OF untouched_fixed_gps untouched_refl])
         apply (erule fails)
        apply (rule wp_step_then [OF untouched_sidecar])
         apply assumption
        apply (unfold wp_bind [where m = State_Monad.get] wp_get Let_def)
        apply (rule wp_attempt_step [OF untouched_confined [OF confined_map_error [OF confined_write_all [OF UNIV_I]]]])
          apply assumption
         apply (erule fails)
        apply (simp add: wp_bind wp_update_fun wp_ok instant_now_def wp_get wp_set wp_return send_ui_def starts [OF _ r])
        done
    qed (use fails in simp)
  qed
  have go: "wp (do {
       s \<leftarrow> State_Monad.get;
       (if dt_state s \<noteq> None then finish_current_entry env None else State_Monad.return ());
       attempt (new_entry (de_store env) (dc_gps_mode cfg)) (\<lambda>(qmdl_file, analysis_file).
       attempt (write_fixed_gps env cfg) (\<lambda>_. do {
         write_sidecar env;
         s \<leftarrow> State_Monad.get;
         (let harness = harness_new_with_config (dc_analyzers cfg) (de_home_plmn env (current_name s)) in
          attempt (map_error WriteFileError (write_all analysis_file (de_metadata_line env harness))) (\<lambda>_. do {
            State_Monad.update (\<lambda>s. s\<lparr>dt_state := Some
              \<lparr>dw_qmdl = qmdl_file, dw_chunks = [], dw_pending = [], dw_position = 0,
               dw_report = analysis_file, dw_report_pending = [], dw_harness = harness\<rparr>\<rparr>);
            now \<leftarrow> instant_now;
            State_Monad.update (\<lambda>s. s\<lparr>dt_recording_started_at := Some now\<rparr>);
            send_ui DisplayRecording;
            ok () })) })) }) (startable s) u" if u: "untouched ?s u" for u
  proof -
    have tu: "dt_ui u = dt_ui s" "rs_path u = rs_path s" "dt_stopped_by_user u = dt_stopped_by_user s"
      "dt_max_type_seen u = EventType.Informational" "index_ok u"
      using u s ok more_task [of u ?s] by (auto simp: untouched_def same_current_def)
    show ?thesis
    proof (cases "dt_state u")
      case None
      then show ?thesis using rest [of u] tu by (simp add: wp_bind wp_get wp_return)
    next
      case (Some w)
      have "wp (finish_current_entry env None) (\<lambda>_ t. dt_state t = None \<and> dt_ui t = dt_ui s \<and> rs_path t = rs_path s
          \<and> dt_stopped_by_user t = dt_stopped_by_user s \<and> dt_max_type_seen t = EventType.Informational \<and> index_ok t) u"
        by (rule wp_mono [OF finish_current_entry_finishes]) (use tu in \<open>auto simp: finished_def index_ok_def\<close>)
      then show ?thesis
        unfolding wp_bind [where m = State_Monad.get] wp_get wp_bind [where m = "If _ _ _"] Some
        by (simp only: option.distinct not_False_eq_True if_True) (erule wp_mono, rule rest, simp_all)
    qed
  qed
  show ?thesis
    unfolding start_inner_def wp_bind [where m = "State_Monad.update _"] wp_update_fun wp_bind [where m = "make_room _ _"]
    apply (rule wp_mono [OF untouched_make_room [OF toml ok]])
    apply (rule wp_attempt_step [OF untouched_enough])
      apply assumption
     apply (erule refused)
    apply (erule go)
    done
qed

lemma diag_start_starts:
  fixes env :: "('e, 'de, 'x, 'r, 'rrc, 'nas, 'g) diag_env"
  assumes "toml_ok (de_store env)" and "bound s"
  shows "wp (diag_start env cfg) (\<lambda>r s'. \<exists>t. startable s r t \<and> s' =
     (case r of Inl _ \<Rightarrow> t\<lparr>dt_ui := dt_ui t @ [DisplayPaused]\<rparr> | Inr _ \<Rightarrow> t)) s"
  unfolding diag_start_def wp_bind [where m = "start_inner _ _"]
  by (rule wp_mono [OF start_inner_starts [OF assms]]) (auto simp: wp_simps send_ui_def split: sum.split)

section \<open>The screen tells the truth\<close>

definition shown :: "EventType \<Rightarrow> DisplayState" where
  "shown t = (if t > EventType.Informational then WarningDetected t else DisplayRecording)"

text \<open>Stopped, the last thing sent to the screen is the pause (or nothing was sent yet); recording, it is the
  highest severity seen.\<close>

definition truthful :: "diag_task \<Rightarrow> bool" where
  "truthful s \<longleftrightarrow> bound s \<and> (case dt_state s of
       None \<Rightarrow> dt_ui s = [] \<or> last (dt_ui s) = DisplayPaused
     | Some _ \<Rightarrow> dt_ui s \<noteq> [] \<and> last (dt_ui s) = shown (dt_max_type_seen s))"

lemma bound_cong:
  assumes "same_current s s'" and "dt_state s' = dt_state s"
  shows "bound s \<Longrightarrow> bound s'"
  using assms by (auto simp: bound_def same_current_def split: option.splits)

lemma truthful_cong:
  assumes "truthful s" and "same_current s s'" and "dt_state s' = dt_state s" "dt_ui s' = dt_ui s" "dt_max_type_seen s' = dt_max_type_seen s"
  shows "truthful s'"
  using assms bound_cong [of s s'] by (auto simp: truthful_def split: option.splits)

lemma truthful_untouched: "truthful s \<Longrightarrow> untouched s s' \<Longrightarrow> truthful s'"
  using more_task [of s' s] by (auto simp: untouched_def intro: truthful_cong)

lemma truthful_paused:
  "rs_current s = None \<or> index_ok s \<Longrightarrow> dt_state s = None \<Longrightarrow> last (dt_ui s) = DisplayPaused \<Longrightarrow> truthful s"
  by (auto simp: truthful_def bound_def index_ok_def)

lemma diag_stop_truthful:
  "wp (diag_stop env reason) (\<lambda>_ s'. truthful s' \<and> dt_state s' = None \<and> rs_current s' = None \<and> rs_path s' = rs_path s) s"
  by (rule wp_mono [OF diag_stop_stops]) (auto simp: finished_def intro!: truthful_paused)

lemma finished_bound: "finished s t \<Longrightarrow> bound t"
  by (simp add: finished_def bound_def index_ok_def)

lemma diag_start_truthful:
  fixes env :: "('e, 'de, 'x, 'r, 'rrc, 'nas, 'g) diag_env"
  assumes "toml_ok (de_store env)" and "bound s" and "dt_state s = None"
  shows "wp (diag_start env cfg) (\<lambda>r s'. truthful s' \<and>
     (case r of Inl _ \<Rightarrow> dt_state s' = None | Inr _ \<Rightarrow> dt_state s' \<noteq> None \<and> dt_max_type_seen s' = EventType.Informational)) s"
proof (rule wp_mono [OF diag_start_starts [OF assms(1,2)]], goal_cases)
  case (1 r s')
  then obtain t where t: "startable s r t" "s' = (case r of Inl _ \<Rightarrow> t\<lparr>dt_ui := dt_ui t @ [DisplayPaused]\<rparr> | Inr _ \<Rightarrow> t)" by blast
  have "bound (t\<lparr>dt_ui := u\<rparr>) = bound t" for u
    by (simp add: bound_def current_key_def get_current_entry_def index_ok_def split: option.split)
  with t assms(3) show ?case
    by (auto simp: startable_def truthful_def shown_def split: sum.splits)
qed

lemma diag_rotate_truthful:
  fixes env :: "('e, 'de, 'x, 'r, 'rrc, 'nas, 'g) diag_env"
  assumes "toml_ok (de_store env)"
  shows "wp (diag_rotate env cfg reason) (\<lambda>_ s'. truthful s' \<and> (dt_state s' \<noteq> None \<longrightarrow> dt_max_type_seen s' = dt_max_type_seen s)) s"
proof -
  have failed: "wp (do { notify r None; diag_stop env (Some r) }) (\<lambda>_ s'. truthful s' \<and> (dt_state s' \<noteq> None \<longrightarrow> dt_max_type_seen s' = dt_max_type_seen s)) t"
    for r t
    by (simp add: wp_bind notify_def wp_update_fun) (rule wp_mono [OF diag_stop_truthful], simp)
  have carried: "truthful (t\<lparr>dt_max_type_seen := m, dt_ui := dt_ui t @ (if m > EventType.Informational then [WarningDetected m] else [])\<rparr>)"
    if t: "truthful t" "dt_state t \<noteq> None" "dt_max_type_seen t = EventType.Informational" for t m
  proof -
    have "m = EventType.Informational" if "\<not> m > EventType.Informational" using that by (cases m) (simp_all add: less_EventType_def)
    with t show ?thesis
      by (auto simp: truthful_def shown_def bound_def current_key_def get_current_entry_def index_ok_def split: option.splits)
  qed
  show ?thesis
    unfolding diag_rotate_def wp_bind [where m = State_Monad.get] wp_get wp_bind [where m = "finish_current_entry _ _"]
  proof (rule wp_mono [OF finish_current_entry_finishes], goal_cases)
    case (1 x t)
    then have t: "bound t" "dt_state t = None" using finished_bound by (auto simp: finished_def)
    show ?case
      unfolding wp_bind [where m = "diag_start _ _"]
    proof (rule wp_mono [OF diag_start_truthful [OF assms t]], goal_cases)
      case (1 r u)
      then show ?case
        using carried [of u "dt_max_type_seen s"] failed
        by (cases r) (auto simp: wp_simps wp_update_fun send_ui_def Let_def split: if_splits)
    qed
  qed
qed

lemma opened_untouched:
  fixes s :: "'z store_scheme" and env :: "'e store_env"
  shows "wp (open_or_recover env listing path) (\<lambda>_. untouched s) s"
proof -
  have entries: "confined_to UNIV (recovered_entries env path names :: ('z store_scheme, ManifestEntry list) state)" for names
    by (induction names) (auto simp: recovered_entry_def intro!: confined split: option.split sum.split)
  have wrote: "confined_to UNIV (write_manifest_at env path es :: ('z store_scheme, 'e RecordingStoreError + unit) state)" for es
    unfolding write_manifest_at_def by (intro confined; simp)
  have recover: "wp (store_recover env listing path) (\<lambda>_. untouched s) t" if "untouched s t" for t :: "'z store_scheme"
    by (rule wp_step [OF untouched_confined [of UNIV] that])
       (auto simp: store_recover_def Let_def intro!: confined entries wrote split: sum.split)
  have load: "wp (store_load env path) (\<lambda>_. untouched t) t" for t :: "'z store_scheme"
    by (rule untouched_confined [of UNIV]) (auto simp: store_load_def read_manifest_def intro!: confined split: option.split sum.split)
  have same: "untouched s t \<Longrightarrow> untouched s (next_op t)" for t :: "'z store_scheme"
    by (rule untouched_trans) (auto simp: untouched_def next_op_def intro: same_currentI)
  have created: "wp (store_create env path) (\<lambda>_. untouched s) t" if "untouched s t" for t :: "'z store_scheme"
  proof -
    have dirs: "untouched s ((next_op t)\<lparr>w_dirs := d\<rparr>)" for d
      by (rule untouched_trans [OF that]) (auto simp: untouched_def next_op_def intro: same_currentI)
    show ?thesis
      using that same dirs by (auto simp: store_create_def wp_attempt wp_map_error wp_create_dir_all wp_ok
          intro!: wp_step [OF untouched_confined [OF wrote]] split: sum.split)
  qed
  show ?thesis
    using same [OF untouched_refl] same [OF same [OF untouched_refl]]
    by (auto simp: open_or_recover_def wp_attempt wp_map_error wp_exists wp_bind wp_ok wp_fail
        intro!: wp_step [OF load] recover created split: sum.split RecordingStoreError.split)
qed

lemma switch_store_truthful:
  fixes env :: "('e, 'de, 'x, 'r, 'rrc, 'nas, 'g) diag_env"
  assumes "toml_ok (de_store env)" and "truthful s"
  shows "wp (switch_store env cfg path reason) (\<lambda>_. truthful) s"
proof -
  have start: "wp (diag_start env cfg) (\<lambda>_. truthful) t" if "bound t" "dt_state t = None" for t
    by (rule wp_mono [OF diag_start_truthful [OF assms(1) that]]) simp
  have finish: "wp (finish_current_entry env r) (\<lambda>_ t. bound t \<and> dt_state t = None) s" for r
    by (rule wp_mono [OF finish_current_entry_finishes]) (auto simp: finished_def intro: finished_bound)
  have moved: "bound (t\<lparr>rs_path := p, rs_entries := es, rs_current := None\<rparr>)" if "dt_state t = None" for t p es
    using that by (simp add: bound_def index_ok_def)
  have moved_truthful: "truthful (t\<lparr>rs_path := p, rs_entries := es, rs_current := None\<rparr>)" if "truthful t" "dt_state t = None" for t p es
    using that by (auto simp: truthful_def bound_def index_ok_def)
  have opened: "wp (open_or_recover (de_store env) listing path) (\<lambda>r u. bound u \<and> dt_state u = None \<and> (truthful t \<longrightarrow> truthful u)) t"
    if "bound t" "dt_state t = None" for t listing
  proof (rule wp_mono [OF opened_untouched], goal_cases)
    case (1 r u)
    then show ?case using that more_task [of u t] bound_cong [of t u] truthful_untouched [of t u] by (auto simp: untouched_def)
  qed
  let ?then = "\<lambda>was_recording. do {
        s1 \<leftarrow> State_Monad.get;
        new_store \<leftarrow> open_or_recover (de_store env) (de_listing env path (w_files s1)) path;
        (case new_store of
           Inl err \<Rightarrow> do {
             (if was_recording then do { _ \<leftarrow> diag_start env cfg; State_Monad.return () } else State_Monad.return ());
             State_Monad.return (Inl err) }
         | Inr (p, entries) \<Rightarrow> do {
             State_Monad.update (\<lambda>t. t\<lparr>rs_path := p, rs_entries := entries, rs_current := None\<rparr>);
             (if was_recording \<or> \<not> dt_stopped_by_user s then diag_start env cfg else ok ()) }) }"
  have go: "wp (?then was_recording) (\<lambda>_. truthful) t"
    if "bound t" "dt_state t = None" "was_recording \<or> truthful t" for t was_recording
    unfolding wp_bind [where m = State_Monad.get] wp_get wp_bind [where m = "open_or_recover _ _ _"]
    by (rule wp_mono [OF opened [OF that(1,2)]])
       (use that(3) in \<open>auto simp: wp_bind wp_return wp_update_fun wp_ok moved moved_truthful split: sum.split prod.split
         intro!: start\<close>)
  show ?thesis
  proof (cases "dt_state s")
    case None
    then have b: "bound s" using assms(2) by (simp add: truthful_def)
    then show ?thesis
      unfolding switch_store_def wp_bind [where m = State_Monad.get] wp_get Let_def
      using None start [OF b None] go [OF b None, of False] assms(2) by (simp add: wp_ok wp_bind wp_return)
  next
    case (Some w)
    have "wp (finish_current_entry env r) (\<lambda>_. wp (diag_start env cfg) (\<lambda>_. truthful)) s"
      "wp (finish_current_entry env r) (\<lambda>_. wp (?then True) (\<lambda>_. truthful)) s" for r
      by (rule wp_mono [OF finish]; use start go [where was_recording = True] in blast)+
    then show ?thesis
      unfolding switch_store_def wp_bind [where m = State_Monad.get] wp_get Let_def wp_bind [where m = "If _ _ _"]
      using Some by (simp add: wp_bind wp_get_fun)
  qed
qed

lemma delete_all_current:
  fixes s :: "'z store_scheme"
  assumes "rs_current s = None"
  shows "wp (store_delete_all_entries env) (\<lambda>_ s'. rs_current s' = None) s"
  unfolding store_delete_all_entries_def wp_bind [where m = State_Monad.get] wp_get
  using assms
  by (auto simp: wp_simps intro!: wp_mono [OF sweep_entries_result] wp_mono [OF write_manifest_io])
     (auto simp: io_only_def)

lemma diag_delete_truthful:
  fixes env :: "('e, 'de, 'x, 'r, 'rrc, 'nas, 'g) diag_env"
  assumes toml: "toml_ok (de_store env)" and "truthful s"
  shows "wp (diag_delete_entry env name) (\<lambda>_. truthful) s"
    and "wp (diag_delete_all_entries env) (\<lambda>_. truthful) s"
proof -
  have del: "wp (store_delete_entry (de_store env) name) (\<lambda>_. truthful) t"
    if t: "truthful t" "\<not> is_current_entry name t" for t
  proof (cases "position name (rs_entries t)")
    case None
    then show ?thesis using t by (simp add: store_delete_entry_def wp_simps)
  next
    case (Some i)
    have ok: "index_ok t" using t by (simp add: truthful_def bound_def)
    have cur: "rs_current t \<noteq> Some i" using t(2) position_Some [OF Some] by (auto simp: is_current_entry_def)
    show ?thesis
      by (rule wp_mono [OF wp_conj [OF store_delete_entry_deletes [OF toml Some] keepsD [OF keeps_delete(1)]]])
         (auto intro!: truthful_untouched [OF t(1)] deletes_current [OF _ ok cur] simp: untouched_def)
  qed
  show "wp (diag_delete_entry env name) (\<lambda>_. truthful) s"
    unfolding diag_delete_entry_def wp_bind [where m = State_Monad.get] wp_get
    by (auto simp: wp_bind wp_return assms(2) intro!: del wp_mono [OF diag_stop_truthful])
       (simp add: is_current_entry_def)
  show "wp (diag_delete_all_entries env) (\<lambda>_. truthful) s"
    unfolding diag_delete_all_entries_def wp_bind
  proof (rule wp_mono [OF diag_stop_truthful], goal_cases)
    case (1 x t)
    then have t: "truthful t" "dt_state t = None" "rs_current t = None" by simp_all
    show ?case
    proof (rule wp_mono [OF wp_conj [OF delete_all_current [OF t(3)] keepsD [OF keeps_delete(2)]]], goal_cases)
      case (1 y u)
      then show ?case using t more_task [of u t] by (auto simp: truthful_def bound_def index_ok_def)
    qed
  qed
qed

section \<open>A container\<close>

lemma write_report_row_io:
  "io_only {p} s (snd (snd (write_report_row env p (pending, s) row)))"
  using confined_wp [OF confined_buffered [of p "{p}" "pending @ de_row_line env row"], of s]
  by (simp add: write_report_row_def wp_def case_prod_beta)

lemma write_rows_io:
  "io_only {p} s (snd (snd (write_rows (write_report_row env p) prefix m rows (pending, s))))"
proof (induction rows arbitrary: m pending s)
  case (Cons row rows)
  have "io_only {p} s (snd (snd (write_row (write_report_row env p) (pending, s) r)))" for r
    by (simp add: write_row_def write_report_row_io)
  then show ?case
    by (auto simp: Let_def split: prod.split option.split intro!: Cons.IH io_only_trans_same [OF _ Cons.IH])
       (metis snd_conv io_only_trans_same [OF _ Cons.IH])+
qed simp

lemma analyze_container_io:
  "wp (analyze_container env c prefix w) (\<lambda>(r, w') s'. io_only {dw_report w} s s'
     \<and> w' = w\<lparr>dw_report_pending := dw_report_pending w', dw_harness := dw_harness w'\<rparr>) s"
  using write_rows_io [of "dw_report w" s env prefix EventType.Informational _ "dw_report_pending w"]
  by (auto simp: analyze_container_def wp_simps analyze_container_inner_def Let_def split: prod.split)
     (metis snd_conv)

text \<open>Going on: still truthful, and a recording that goes on shows at least the alarms it did.\<close>

definition forward :: "EventType \<Rightarrow> diag_task \<Rightarrow> bool" where
  "forward m s \<longleftrightarrow> truthful s \<and> (dt_state s \<noteq> None \<longrightarrow> m \<le> dt_max_type_seen s)"

lemma forward_untouched: "forward m s \<Longrightarrow> untouched s s' \<Longrightarrow> forward m s'"
  using more_task [of s' s] truthful_untouched [of s s'] by (auto simp: forward_def untouched_def)

definition alarmed :: "EventType \<Rightarrow> diag_task \<Rightarrow> bool" where
  "alarmed m s \<longleftrightarrow> truthful s \<and> dt_state s \<noteq> None \<and> m \<le> dt_max_type_seen s"

lemma raise_alarm_forward:
  assumes "truthful s" and "dt_state s \<noteq> None" and "m \<le> dt_max_type_seen s"
  shows "wp (raise_alarm t) (\<lambda>_. alarmed m) s"
proof -
  have quiet: "truthful (s\<lparr>dt_notifications := n\<rparr>)" for n
    by (rule truthful_cong [OF assms(1)]) (auto intro: same_currentI)
  have alarm: "truthful (s\<lparr>dt_notifications := n, dt_max_type_seen := t, dt_ui := dt_ui s @ [WarningDetected t]\<rparr>)"
    if "t > EventType.Informational" for n
    using assms(1,2) that
    by (auto simp: truthful_def shown_def bound_def current_key_def get_current_entry_def index_ok_def split: option.splits)
  have "t > EventType.Informational" if "t > dt_max_type_seen s"
    using that by (cases t; cases "dt_max_type_seen s") (simp_all add: less_EventType_def)
  then show ?thesis
    using quiet alarm assms
    by (auto simp: raise_alarm_def wp_simps wp_update_fun wp_get_fun notify_def send_ui_def alarmed_def)
qed

lemma analyze_and_alarm_forward:
  assumes "truthful s" and "dt_state s = Some w" and "m \<le> dt_max_type_seen s"
  shows "wp (analyze_and_alarm env c demo w) (\<lambda>_. alarmed m) s"
proof -
  let ?stamp = "\<lambda>s. case latest_timestamp env c of None \<Rightarrow> s | Some ts \<Rightarrow> s\<lparr>dt_latest_packet_timestamp := Some ts\<rparr>"
  let ?count = "\<lambda>s. s\<lparr>dt_bytes_since_space_check := dt_bytes_since_space_check s + sum_list (map (length \<circ> hem_data) (mc_messages c))\<rparr>"
  let ?s = "?count (?stamp s)"
  have s: "truthful ?s" "dt_state ?s = Some w" "dt_max_type_seen ?s = dt_max_type_seen s"
    by (rule truthful_cong [OF assms(1)]; auto intro: same_currentI split: option.split)
       (simp_all add: assms(2) split: option.split)
  have "wp (analyze_container env c prefix w) (\<lambda>x. wp (do {
      State_Monad.update (\<lambda>s. s\<lparr>dt_state := Some (snd x)\<rparr>);
      raise_alarm (case fst x of Inl _ \<Rightarrow> EventType.Informational | Inr t \<Rightarrow> t) }) (\<lambda>_. alarmed m)) ?s" for prefix
  proof (rule wp_mono [OF analyze_container_io], goal_cases)
    case (1 x u)
    let ?u = "u\<lparr>dt_state := Some (snd x)\<rparr>"
    have u: "io_only {dw_report w} ?s u" and w: "dw_qmdl (snd x) = dw_qmdl w" "dw_report (snd x) = dw_report w"
      using 1 by (auto split: prod.splits) (metis writers.select_convs writers.surjective writers.update_convs)+
    have eq: "dt_state u = Some w" "dt_ui u = dt_ui ?s" "dt_max_type_seen u = dt_max_type_seen s" "same_current ?s u"
      using u s io_only_current [OF u] by (auto simp: io_only_def)
    have "same_current u ?u" by (rule same_currentI) simp_all
    with eq(4) have cur: "same_current ?s ?u" by (rule same_current_trans)
    then have "truthful ?u"
      using s eq w by (auto simp: truthful_def bound_def writing_to_def same_current_def split: option.splits)
    then show ?case
      unfolding wp_bind wp_update by (rule raise_alarm_forward) (use eq assms(3) in simp_all)
  qed
  then show ?thesis
    by (simp add: analyze_and_alarm_def wp_bind wp_update_fun case_prod_beta)
qed

lemma space_check_forward:
  fixes env :: "('e, 'de, 'x, 'r, 'rrc, 'nas, 'g) diag_env"
  assumes "toml_ok (de_store env)" and "truthful s"
  shows "wp (space_check env cfg) (\<lambda>going_on s'. truthful s' \<and>
     (if going_on then dt_state s' = dt_state s \<and> dt_max_type_seen s' = dt_max_type_seen s else dt_state s' = None)) s"
proof -
  let ?s = "s\<lparr>dt_bytes_since_space_check := 0\<rparr>"
  let ?ok = "\<lambda>s'. truthful s' \<and> dt_state s' = dt_state s \<and> dt_max_type_seen s' = dt_max_type_seen s"
  have s: "truthful ?s" by (rule truthful_cong [OF assms(2)]) (auto intro: same_currentI)
  have ok: "?ok u" if "untouched ?s u" for u
    using truthful_untouched [OF s that] that more_task [of u ?s] by (simp add: untouched_def)
  have ok_low: "?ok (u\<lparr>dt_low_space_warned := b, dt_notifications := n\<rparr>)" "?ok (u\<lparr>dt_low_space_warned := b\<rparr>)" if "?ok u" for u b n
    using that by (auto intro!: truthful_cong [of u] same_currentI)
  have stopped: "wp (do { notify r None; diag_stop env (Some r); State_Monad.return False }) (\<lambda>going_on s'. truthful s' \<and>
     (if going_on then dt_state s' = dt_state s \<and> dt_max_type_seen s' = dt_max_type_seen s else dt_state s' = None)) u" for r u
    unfolding wp_bind notify_def wp_update by (rule wp_mono [OF diag_stop_truthful]) (simp add: wp_return)
  have freed: "wp (if dc_auto_delete_clean cfg
               then prune_clean_recordings (de_store env) (de_json env) (dc_min_space_to_start_mb cfg) (dc_uploads_configured cfg)
               else State_Monad.return 0) (\<lambda>_. ?ok) u" if u: "untouched ?s u" for u
  proof -
    have "index_ok u" using ok [OF u] by (simp add: truthful_def bound_def)
    have "wp (prune_clean_recordings (de_store env) (de_json env) (dc_min_space_to_start_mb cfg) (dc_uploads_configured cfg)) (\<lambda>_. ?ok) u"
      by (rule wp_mono [OF untouched_prune [OF assms(1) \<open>index_ok u\<close>]]) (rule ok, erule untouched_trans [OF u])
    then show ?thesis using ok [OF u] by (simp add: wp_return)
  qed
  have low: "wp (do {
             freed \<leftarrow> (if dc_auto_delete_clean cfg
               then prune_clean_recordings (de_store env) (de_json env) (dc_min_space_to_start_mb cfg) (dc_uploads_configured cfg)
               else State_Monad.return 0);
             s \<leftarrow> State_Monad.get;
             (if freed > 0 then State_Monad.set (s\<lparr>dt_low_space_warned := False\<rparr>)
              else if \<not> dt_low_space_warned s then do {
                State_Monad.set (s\<lparr>dt_low_space_warned := True\<rparr>);
                notify (lit ''Disk space low: '' @ decimal mb @ lit ''MB free'') (Some LOW_SPACE_DEBOUNCE) }
              else State_Monad.return ());
             State_Monad.return True }) (\<lambda>going_on s'. truthful s' \<and>
     (if going_on then dt_state s' = dt_state s \<and> dt_max_type_seen s' = dt_max_type_seen s else dt_state s' = None)) u"
    if u: "untouched ?s u" for u mb
    unfolding wp_bind [where m = "If (dc_auto_delete_clean cfg) _ _"]
    by (rule wp_mono [OF freed [OF u]])
       (use ok_low in \<open>auto simp: wp_bind wp_get_fun wp_set wp_return notify_def wp_update_fun\<close>)
  have go_on: "wp (State_Monad.return True) (\<lambda>going_on s'. truthful s' \<and>
     (if going_on then dt_state s' = dt_state s \<and> dt_max_type_seen s' = dt_max_type_seen s else dt_state s' = None)) u"
    if "?ok u" for u using that by (simp add: wp_return)
  show ?thesis
    unfolding space_check_def wp_bind [where m = State_Monad.get] wp_get
  proof (cases "dt_bytes_since_space_check s < DISK_CHECK_BYTES_INTERVAL", simp_all only: if_True if_False, goal_cases)
    case 1
    show ?case by (rule go_on) (simp add: assms(2))
  next
    case 2
    show ?case
      unfolding wp_bind [where m = "State_Monad.set _"] wp_set
    proof (rule wp_step_then [OF untouched_space untouched_refl], goal_cases)
      case (1 check u)
      show ?case
      proof (cases check)
        case (SpaceWarning mb)
        show ?thesis unfolding SpaceWarning DiskSpaceCheck.case by (rule low [OF 1])
      next
        case (SpaceCritical mb)
        show ?thesis unfolding SpaceCritical DiskSpaceCheck.case Let_def by (rule stopped)
      next
        case (SpaceOk mb)
        show ?thesis unfolding SpaceOk DiskSpaceCheck.case by (rule go_on) (rule ok [OF 1])
      next
        case SpaceUnknown
        show ?thesis unfolding SpaceUnknown DiskSpaceCheck.case by (rule go_on) (rule ok [OF 1])
      qed
    qed
  qed
qed

lemma note_size_untouched: "wp (note_size env cfg n) (\<lambda>_. untouched s) s"
  unfolding note_size_def
proof (rule wp_step_then [OF untouched_confined [OF confined_position] untouched_refl], goal_cases)
  case (1 r u)
  then show ?case
    by (cases r) (auto simp: wp_ok intro!: wp_attempt_step [OF untouched_update_size])
qed

lemma truthful_instants: "truthful s \<Longrightarrow> truthful (s\<lparr>dt_instant_reads := n\<rparr>)"
  by (rule truthful_cong) (auto intro: same_currentI)

lemma process_container_forward:
  fixes env :: "('e, 'de, 'x, 'r, 'rrc, 'nas, 'g) diag_env"
  assumes toml: "toml_ok (de_store env)" and s: "truthful s"
  shows "wp (process_container env cfg c demo) (\<lambda>_. forward (dt_max_type_seen s)) s"
proof (cases "mc_data_type c \<noteq> UserSpace \<or> dt_state s = None")
  case True
  then show ?thesis using s by (auto simp: process_container_def wp_return wp_bind wp_get forward_def)
next
  case False
  then obtain w where c: "mc_data_type c = UserSpace" and w: "dt_state s = Some w" by auto
  let ?m = "dt_max_type_seen s"
  have halt: "wp (diag_stop env r) (\<lambda>_. forward ?m) u" for r u
    by (rule wp_mono [OF diag_stop_truthful]) (simp add: forward_def)
  have rotate: "wp (diag_rotate env cfg r) (\<lambda>_. forward ?m) u" if "alarmed ?m u" for r u
    by (rule wp_mono [OF diag_rotate_truthful [OF toml]]) (use that in \<open>auto simp: forward_def alarmed_def\<close>)
  have finish: "wp (do {
      rotate_reason \<leftarrow> (if size_reason = None then time_reason cfg else State_Monad.return size_reason);
      analyze_and_alarm env c demo v;
      (case rotate_reason of None \<Rightarrow> State_Monad.return () | Some reason \<Rightarrow> diag_rotate env cfg reason) }) (\<lambda>_. forward ?m) u"
    if u: "truthful u" "dt_state u = Some v" "dt_max_type_seen u = ?m" for u v size_reason
  proof -
    have an: "wp (do { analyze_and_alarm env c demo v;
      (case reason of None \<Rightarrow> State_Monad.return () | Some reason \<Rightarrow> diag_rotate env cfg reason) }) (\<lambda>_. forward ?m) t"
      if t: "truthful t" "dt_state t = Some v" "dt_max_type_seen t = ?m" for t reason
      unfolding wp_bind
    proof (rule wp_mono [OF analyze_and_alarm_forward [OF t(1,2), of "?m"]], goal_cases)
      case (2 x t')
      then show ?case
        by (cases reason) (auto simp: wp_return alarmed_def forward_def intro!: rotate)
    qed (use t in simp)
    have "wp (time_reason cfg) (\<lambda>_ t. truthful t \<and> dt_state t = Some v \<and> dt_max_type_seen t = ?m) u"
      using u truthful_instants by (auto simp: time_reason_def wp_simps wp_get_fun instant_now_def split: option.split)
    then show ?thesis
      using an u by (auto simp: wp_bind [where m = "If _ _ _"] wp_return elim!: wp_mono)
  qed
  have wrote: "wp (qmdl_write env c w) (\<lambda>x u. io_only {dw_qmdl w} t u \<and> dw_qmdl (snd x) = dw_qmdl w \<and> dw_report (snd x) = dw_report w) t" for t
  proof -
    have files: "wp (qmdl_write env c w) (\<lambda>x u. dw_qmdl (snd x) = dw_qmdl w \<and> dw_report (snd x) = dw_report w) t"
      by (simp add: qmdl_write_def wp_def case_prod_beta Let_def)
    have "wp (qmdl_write env c w) (\<lambda>_ u. io_only {dw_qmdl w} t u) t"
      by (rule confined_wp [OF confined_qmdl_write]) simp
    from wp_conj [OF this files] show ?thesis by simp
  qed
  have noted: "wp (do {
      noted \<leftarrow> note_size env cfg n;
      (case noted of
         Inl e \<Rightarrow> diag_stop env (Some (lit ''failed to update manifest (disk full?): '' @ de_error_text env e))
       | Inr size_reason \<Rightarrow> do {
           rotate_reason \<leftarrow> (if size_reason = None then time_reason cfg else State_Monad.return size_reason);
           analyze_and_alarm env c demo v;
           (case rotate_reason of None \<Rightarrow> State_Monad.return () | Some reason \<Rightarrow> diag_rotate env cfg reason) }) }) (\<lambda>_. forward ?m) u"
    if u: "truthful u" "dt_state u = Some v" "dt_max_type_seen u = ?m" for u v n
  proof (rule wp_step_then [OF note_size_untouched untouched_refl], goal_cases)
    case (1 r t)
    have "truthful t" "dt_state t = Some v" "dt_max_type_seen t = ?m"
      using u 1 truthful_untouched [OF u(1)] more_task [of t u] by (auto simp: untouched_def)
    then show ?case by (cases r) (simp_all only: sum.case halt finish)
  qed
  show ?thesis
    unfolding process_container_def wp_bind [where m = State_Monad.get] wp_get
    apply (simp only: c w if_False not_True_eq_False simp_thms option.case)
    apply (unfold wp_bind [where m = State_Monad.get] wp_get w option.case wp_bind [where m = "space_check _ _"])
  proof (rule wp_mono [OF space_check_forward [OF toml s]], goal_cases)
    case (1 going_on t)
    show ?case
    proof (cases going_on)
      case False
      then show ?thesis using 1 by (simp add: wp_return forward_def)
    next
      case True
      with 1 have t: "truthful t" "dt_state t = Some w" "dt_max_type_seen t = ?m" by (simp_all add: w)
      show ?thesis
        using True
        apply (simp only: simp_thms if_False)
        apply (unfold wp_bind [where m = "qmdl_write _ _ _"])
      proof (rule wp_mono [OF wrote], goal_cases)
        case (1 x u)
        let ?u = "u\<lparr>dt_state := Some (snd x)\<rparr>"
        have eq: "dt_ui u = dt_ui t" "dt_max_type_seen u = ?m" "same_current t u"
          using 1 t io_only_current [of "{dw_qmdl w}" t u] by (auto simp: io_only_def)
        have "same_current u ?u" by (rule same_currentI) simp_all
        with eq(3) have cur: "same_current t ?u" by (rule same_current_trans)
        then have u: "truthful ?u" "dt_state ?u = Some (snd x)" "dt_max_type_seen ?u = ?m"
          using t eq 1 by (auto simp: truthful_def bound_def writing_to_def same_current_def split: option.splits)
        show ?case
          unfolding case_prod_beta wp_bind [where m = "State_Monad.update _"] wp_update
          by (cases "fst x") (simp_all only: sum.case halt noted [OF u])
      qed
    qed
  qed
qed

section \<open>Every input\<close>

lemma handle_gps_update_untouched: "wp (handle_gps_update env coords) (\<lambda>_. untouched s) s"
proof -
  have now: "wp (do { now \<leftarrow> get_adjusted_now; _ \<leftarrow> write_all p (de_gps_line env stamp (now div NANOS) coords); State_Monad.return () })
      (\<lambda>_. untouched s) u" if "untouched s u" for p u stamp
    unfolding wp_bind [where m = get_adjusted_now] wp_get_adjusted_now
    by (rule wp_step_then [OF untouched_confined [OF confined_write_all [OF UNIV_I]] untouched_trans [OF that untouched_clock(1)]])
       (simp add: wp_return)
  show ?thesis
    unfolding handle_gps_update_def wp_bind [where m = State_Monad.get] wp_get
    by (auto simp: wp_return now split: option.split sum.split
        intro!: wp_step_then [OF untouched_entry_gps untouched_refl])
qed

lemma diag_handle_truthful:
  fixes env :: "('e, 'de, 'x, 'r, 'rrc, 'nas, 'g) diag_env"
  assumes toml: "toml_ok (de_store env)" and s: "truthful s"
    and "i \<noteq> DiagExit" and "i = StartRecording \<Longrightarrow> dt_state s = None"
  shows "wp (diag_handle env cfg i) (\<lambda>_. truthful) s"
proof (cases i)
  case StartRecording
  have "truthful (s\<lparr>dt_stopped_by_user := False\<rparr>)" by (rule truthful_cong [OF s]) (auto intro: same_currentI)
  then have "wp (diag_start env cfg) (\<lambda>_. truthful) (s\<lparr>dt_stopped_by_user := False\<rparr>)"
    using assms(4) StartRecording by (intro wp_mono [OF diag_start_truthful [OF toml]]) (simp_all add: truthful_def)
  then show ?thesis by (simp add: StartRecording wp_bind wp_return wp_update_fun)
next
  case StopRecording
  show ?thesis
    unfolding StopRecording diag_handle.simps wp_bind wp_update_fun by (rule wp_mono [OF diag_stop_truthful]) simp
next
  case (SwitchStore path reason)
  then show ?thesis using switch_store_truthful [OF toml s] by (simp add: wp_bind wp_return)
next
  case (InjectDemo c)
  then show ?thesis by (auto simp: forward_def intro: wp_mono [OF process_container_forward [OF toml s]])
next
  case (DiagDelete name)
  then show ?thesis using diag_delete_truthful(1) [OF toml s] by (simp add: wp_bind wp_return)
next
  case DiagDeleteAll
  then show ?thesis using diag_delete_truthful(2) [OF toml s] by (simp add: wp_bind wp_return)
next
  case (GpsUpdate coords)
  then show ?thesis by (auto intro: wp_mono [OF handle_gps_update_untouched] truthful_untouched [OF s])
next
  case (FromModem c)
  then show ?thesis by (auto simp: forward_def intro: wp_mono [OF process_container_forward [OF toml s]])
qed (use assms(3) in simp)

text \<open>A run whose starts come while nothing is being recorded, and that has not been told to exit.\<close>

definition after :: "('e, 'de, 'x, 'r, 'rrc, 'nas, 'g) diag_env \<Rightarrow> 'g diag_config \<Rightarrow> 'g diag_input \<Rightarrow> diag_task \<Rightarrow> diag_task" where
  "after env cfg i s = snd (run_state (diag_handle env cfg i) s)"

fun orderly :: "('e, 'de, 'x, 'r, 'rrc, 'nas, 'g) diag_env \<Rightarrow> 'g diag_config \<Rightarrow> 'g diag_input list \<Rightarrow> diag_task \<Rightarrow> bool" where
  "orderly env cfg [] s = True"
| "orderly env cfg (i # is) s \<longleftrightarrow> i \<noteq> DiagExit \<and> (if i = StartRecording then dt_state s = None else True)
     \<and> orderly env cfg is (after env cfg i s)"

lemma wp_after: "wp (diag_handle env cfg i) (\<lambda>_. P) s \<longleftrightarrow> P (after env cfg i s)"
  by (simp add: wp_def after_def case_prod_beta)

lemma run_cons:
  "i \<noteq> DiagExit \<Longrightarrow> run_state (diag_run env cfg (i # is)) s = run_state (diag_run env cfg is) (after env cfg i s)"
  by (simp add: after_def case_prod_beta)

lemma orderly_truthful:
  fixes env :: "('e, 'de, 'x, 'r, 'rrc, 'nas, 'g) diag_env"
  assumes "toml_ok (de_store env)"
  shows "truthful s \<Longrightarrow> orderly env cfg is s \<Longrightarrow> truthful (snd (run_state (diag_run env cfg is) s))"
proof (induction "is" arbitrary: s)
  case (Cons i "is")
  then have i: "i \<noteq> DiagExit" "i = StartRecording \<Longrightarrow> dt_state s = None" "orderly env cfg is (after env cfg i s)"
    by (auto split: if_splits)
  have "truthful (after env cfg i s)"
    using diag_handle_truthful [OF assms Cons.prems(1) i(1,2)] by (simp add: wp_after)
  from Cons.IH [OF this i(3)] show ?case by (simp only: run_cons [OF i(1)])
qed simp

text \<open>What happens without the owner.\<close>

fun automatic :: "'g diag_input \<Rightarrow> bool" where
  "automatic (FromModem _) = True" | "automatic (InjectDemo _) = True" | "automatic (GpsUpdate _) = True"
| "automatic _ = False"

lemma automatic_forward:
  fixes env :: "('e, 'de, 'x, 'r, 'rrc, 'nas, 'g) diag_env"
  assumes "toml_ok (de_store env)" and "forward m s" and "automatic i"
  shows "forward m (after env cfg i s)"
proof -
  have pc: "wp (process_container env cfg c demo) (\<lambda>_. forward m) s" for c demo
  proof (cases "dt_state s")
    case None
    then show ?thesis using assms(2) by (simp add: process_container_def wp_return wp_bind wp_get)
  next
    case (Some w)
    then have "truthful s" "m \<le> dt_max_type_seen s" using assms(2) by (simp_all add: forward_def)
    then show ?thesis by (intro wp_mono [OF process_container_forward [OF assms(1)]]) (auto simp: forward_def)
  qed
  have "wp (diag_handle env cfg i) (\<lambda>_. forward m) s"
    using assms(3) pc by (cases i) (auto intro: wp_mono [OF handle_gps_update_untouched] forward_untouched [OF assms(2)])
  then show ?thesis by (simp add: wp_after)
qed

lemma automatic_run_forward:
  fixes env :: "('e, 'de, 'x, 'r, 'rrc, 'nas, 'g) diag_env"
  assumes "toml_ok (de_store env)"
  shows "forward m s \<Longrightarrow> list_all automatic is \<Longrightarrow> forward m (snd (run_state (diag_run env cfg is) s))"
proof (induction "is" arbitrary: s)
  case (Cons i "is")
  then have i: "i \<noteq> DiagExit" "automatic i" by auto
  from Cons.IH [OF automatic_forward [OF assms Cons.prems(1) i(2)]] Cons.prems(2)
  show ?case by (simp only: run_cons [OF i(1)] list.pred_inject)
qed simp

section \<open>The guarantees\<close>

lemma diag_new_simps [simp]:
  "dt_state (diag_new st instants) = None" "dt_ui (diag_new st instants) = []"
  "rs_current (diag_new st instants) = rs_current st" "rs_entries (diag_new st instants) = rs_entries st"
  "rs_path (diag_new st instants) = rs_path st" "dt_max_type_seen (diag_new st instants) = EventType.Informational"
  "w_space (diag_new st instants) = w_space st" "w_space_reads (diag_new st instants) = w_space_reads st"
  by (cases st; simp add: diag_new_def store.defs diag_task.defs)+

lemma diag_new_truthful: "index_ok st \<Longrightarrow> truthful (diag_new st instants)"
  using index_ok_cong [of "diag_new st instants"] by (auto simp: truthful_def bound_def index_ok_def)


definition sample_diag :: "(unit, unit, unit, unit, unit, unit, unit) diag_env" where
  "sample_diag = \<lparr>de_store = sample_env, de_listing = (\<lambda>_ _. Inr []), de_json = (\<lambda>_. None), de_home_plmn = (\<lambda>_. []),
     de_sidecar = (\<lambda>_. []), de_metadata_line = (\<lambda>_. []), de_row_line = (\<lambda>_. []), de_gps_line = (\<lambda>_ _ _. []),
     de_gzip = (\<lambda>_ bs. bs), de_gzip_finish = (\<lambda>_. []), de_parser = (\<lambda>_. Inl ()), de_crc = (\<lambda>_. 0),
     de_decoders = sample_decoders, de_error_text = (\<lambda>_. []), de_io_text = (\<lambda>_. [])\<rparr>"

definition sample_cfg :: "unit diag_config" where
  "sample_cfg = \<lparr>dc_analyzers = analyzer_config_default, dc_min_space_to_start_mb = 10, dc_min_space_to_continue_mb = 5,
     dc_auto_delete_clean = False, dc_uploads_configured = False, dc_max_recording_bytes = None,
     dc_max_recording_duration = None, dc_gps_mode = GpsDisabled, dc_gps_fixed_coords = None\<rparr>"

definition sample_container :: MessagesContainer where
  "sample_container = \<lparr>mc_data_type = UserSpace, mc_num_messages = 1, mc_messages = [\<lparr>hem_len = 1, hem_data = [0x7e]\<rparr>]\<rparr>"

definition sample_task :: diag_task where
  "sample_task = diag_new sample_store (\<lambda>_. 0)"

lemma sample_task_truthful: "truthful sample_task"
  by (simp add: sample_task_def diag_new_truthful index_ok_def sample_store_def)




text \<open>What the first reading of the space says when a recording is started.\<close>

lemma start_refused:
  fixes env :: "('e, 'de, 'x, 'r, 'rrc, 'nas, 'g) diag_env"
  assumes "\<not> dc_auto_delete_clean cfg" and "w_space s (w_space_reads s) = Some available"
    and "mb = (case available of None \<Rightarrow> 0 | Some b \<Rightarrow> b) div 1024 div 1024"
    and "mb < dc_min_space_to_start_mb cfg \<or> mb < dc_min_space_to_continue_mb cfg"
  shows "wp (diag_start env cfg) (\<lambda>r s'.
      r = Inl (InsufficientDiskSpace mb (if mb < dc_min_space_to_continue_mb cfg then dc_min_space_to_continue_mb cfg else dc_min_space_to_start_mb cfg))
    \<and> w_files s' = w_files s \<and> rs_entries s' = rs_entries s \<and> rs_current s' = rs_current s \<and> dt_state s' = dt_state s
    \<and> dt_max_type_seen s' = EventType.Informational \<and> dt_ui s' = dt_ui s @ [DisplayPaused]) s"
  using assms
  by (auto simp: diag_start_def start_inner_def make_room_def enough_space_def check_disk_space_def send_ui_def wp_simps wp_update_fun)

text \<open>C27: Nothing is started without room. If the free space is below one of the limits (and automatic deletion
  is off), a start is refused with the limit that was not met, changes no file and no entry, and shows the pause.\<close>

theorem start_needs_space:
  assumes "\<not> dc_auto_delete_clean cfg" and "w_space s (w_space_reads s) = Some available"
    and "mb = (case available of None \<Rightarrow> 0 | Some b \<Rightarrow> b) div 1024 div 1024"
    and "mb < dc_min_space_to_start_mb cfg \<or> mb < dc_min_space_to_continue_mb cfg"
    and "run_state (diag_start env cfg) s = (r, s')"
  shows "r = Inl (InsufficientDiskSpace mb (if mb < dc_min_space_to_continue_mb cfg then dc_min_space_to_continue_mb cfg else dc_min_space_to_start_mb cfg))
    \<and> w_files s' = w_files s \<and> rs_entries s' = rs_entries s \<and> last (dt_ui s') = DisplayPaused"
  using wp_run [OF start_refused [OF assms(1-4)] assms(5)] by simp

theorem start_needs_space_witness:
  "fst (run_state (diag_start sample_diag sample_cfg) (diag_new full_store (\<lambda>_. 0))) = Inl (InsufficientDiskSpace 0 5)"
proof -
  have "w_space (diag_new full_store (\<lambda>_. 0)) (w_space_reads (diag_new full_store (\<lambda>_. 0))) = Some (Some 0)"
    by (simp add: full_store_def)
  from start_needs_space [OF _ this _ _ surjective_pairing, of sample_cfg 0 sample_diag] show ?thesis
    by (simp add: sample_cfg_def)
qed

section \<open>Where the screen does not tell the truth\<close>

text \<open>A start that comes while a recording runs and is refused for want of space leaves the recording running and
  shows the pause; and the highest severity seen is forgotten.\<close>

lemma refused_start_hides_recording:
  fixes env :: "('e, 'de, 'x, 'r, 'rrc, 'nas, 'g) diag_env"
  assumes "\<not> dc_auto_delete_clean cfg" and "w_space s (w_space_reads s) = Some available"
    and "(case available of None \<Rightarrow> 0 | Some b \<Rightarrow> b) div 1024 div 1024 < dc_min_space_to_start_mb cfg"
    and "dt_state s \<noteq> None"
  shows "wp (diag_handle env cfg StartRecording) (\<lambda>_ s'. dt_state s' \<noteq> None \<and> last (dt_ui s') = DisplayPaused
    \<and> dt_max_type_seen s' = EventType.Informational) s"
  unfolding diag_handle.simps wp_bind wp_update_fun wp_return
  by (rule wp_mono [OF start_refused [OF assms(1), where available = available]])
     (use assms in auto)

text \<open>Moving to another store is the unit's own doing as much as a rotation is, but it clears the alarm.\<close>

lemma switch_clears_alarm:
  fixes env :: "('e, 'de, 'x, 'r, 'rrc, 'nas, 'g) diag_env"
  assumes "toml_ok (de_store env)" and "dt_state s \<noteq> None" and "rs_path s = path"
  shows "wp (switch_store env cfg path reason) (\<lambda>r s'. case r of Inl _ \<Rightarrow> True
    | Inr _ \<Rightarrow> dt_max_type_seen s' = EventType.Informational \<and> last (dt_ui s') = DisplayRecording) s"
proof -
  have "wp (finish_current_entry env r) (\<lambda>_. wp (diag_start env cfg) (\<lambda>r s'. case r of Inl _ \<Rightarrow> True
    | Inr _ \<Rightarrow> dt_max_type_seen s' = EventType.Informational \<and> last (dt_ui s') = DisplayRecording)) s" for r
  proof (rule wp_mono [OF finish_current_entry_finishes], goal_cases)
    case (1 x t)
    show ?case
      by (rule wp_mono [OF diag_start_starts [OF assms(1) finished_bound [OF 1]]])
         (auto simp: startable_def split: sum.splits)
  qed
  with assms(2,3) show ?thesis by (simp add: switch_store_def wp_bind wp_get_fun)
qed

end
