(* ===== verification/Spec2Isabelle.thy ===== *)
theory Spec2Isabelle
  imports Qmdl UserRules Scan Persistence Evidence StepUp Harness AnalysisQueue Recovery RecorderProps
begin

text \<open>
  Rayhunter listens to the diagnostic port of a phone modem, records what the modem exchanges with the
  cell, and warns of traces of a cell-site simulator. It also surveys Wi-Fi for known devices, and its
  owner reaches it through a web page that a pairing protocol protects. This development models the
  core logic of its Rust sources, one theory for each part, in the order in which data flows.

  \<^bold>\<open>From the modem to a warning.\<close>
  \<^item> \<open>Hdlc\<close> (\<open>lib/src/hdlc.rs\<close>), \<open>Diag\<close> (\<open>lib/src/diag/mod.rs\<close>), \<open>Qmdl\<close> (\<open>lib/src/qmdl.rs\<close>): byte stuffing
    with checksum, containers of frames, the log mask request, recordings and their streaming reader.
    Round trips; what a truncated frame or recording gives; which bits the mask sets.
  \<^item> \<open>DiagLog\<close> (\<open>lib/src/diag/diaglog/\<close>), \<open>Gsmtap\<close> and \<open>GsmtapParser\<close> (\<open>lib/src/gsmtap/\<close>, \<open>lib/src/log_codes.rs\<close>):
    log bodies as data, GSMTAP types, headers and the conversion of every body. Whatever the conversion
    yields serialises; the timing advance of a random access response survives the trip.
  \<^item> \<open>Events\<close> (\<open>lib/src/analysis/information_element.rs\<close>, \<open>lib/src/plmn.rs\<close>): the parts of the decoded RRC
    and NAS messages the detectors look at, with the constructors of the generated types, and the
    decoding of a GSMTAP frame into one of them.
  \<^item> The detectors (\<open>lib/src/analysis/\<close>): \<open>Identity\<close> (\<open>imsi_requested.rs\<close>), \<open>FlashCatch\<close> (\<open>flash_catch.rs\<close>),
    \<open>CellSignalling\<close> (\<open>null_cipher.rs\<close>, \<open>nas_null_cipher.rs\<close>, \<open>priority_2g_downgrade.rs\<close>,
    \<open>connection_redirect_downgrade.rs\<close>, \<open>incomplete_sib.rs\<close>, \<open>diagnostic.rs\<close>, \<open>test_analyzer.rs\<close>), \<open>Lpp\<close>
    (\<open>lpp.rs\<close>), \<open>Rrlp\<close> (\<open>rrlp.rs\<close>), \<open>NoNas\<close> (\<open>no_nas_messages.rs\<close>), \<open>TimingAdvance\<close> (\<open>timing_advance.rs\<close>).
    Each keeps its state as a record and has one function per method. The properties say when a detector
    warns, in terms of the history it has seen and not of its state: for a stateful detector the lemmas
    relate the state after any history to a function or set computed from the history alone.
  \<^item> \<open>Harness\<close> (\<open>lib/src/analysis/analyzer.rs\<close>, the writer in \<open>daemon/src/analysis.rs\<close>): the detectors behind
    one interface (a datatype with one constructor for each, dispatching to the functions above), the path
    of a message through the decoders to every detector, rows, and the writer. Detectors are independent of
    each other, every message has its row, and a null cipher in a recording ends as a high warning.
  \<^item> \<open>AnalysisQueue\<close> (the rest of \<open>daemon/src/analysis.rs\<close>): requests, channel, lock and worker as a step
    relation. The queue refines a line, the worker drains it, and a deadlock is reachable.

  \<^bold>\<open>Wi-Fi.\<close>
  \<^item> \<open>Mac\<close>, \<open>Glob\<close>, \<open>Observation\<close>, \<open>Signature\<close>, \<open>UserRules\<close>, \<open>Scan\<close>, \<open>Persistence\<close>, \<open>Evidence\<close> (the files of the same
    names under \<open>radio/src/\<close>, \<open>signature.rs\<close> and \<open>persistence.rs\<close> among them): addresses and prefixes, the
    glob matcher, what was seen, signatures and their matching, rules of the user, the parser of a scan's
    output, the tracker that decides whether a device follows, and evidence records. \<open>Floats\<close> models the
    binary floating point of the scores with its rounding to nearest, ties to even. This
    theory joins the scan parser with the matcher: which rules can fire on a scan at all.

  \<^bold>\<open>The recordings on disk.\<close>
  \<^item> \<open>Io\<close>: the operations of \<open>tokio::fs\<close> that the daemon uses, in the state monad over a world of files in which
    every operation may fail (and a write may be torn), with a weakest-precondition calculus.
  \<^item> \<open>Store\<close>, \<open>StoreProps\<close> and \<open>Recovery\<close> (\<open>daemon/src/qmdl_store.rs\<close>, \<open>finish\<close> of
    \<open>daemon/src/recording_metadata.rs\<close>): the directory of recordings and its manifest. Over arbitrary
    sequences of operations with arbitrary failures the manifest stays readable and no capture is forgotten;
    a new recording destroys nothing; deleting is all or nothing; recovery finds what was recorded.
  \<^item> \<open>Cleanup\<close> (\<open>daemon/src/cleanup.rs\<close>): the verdict on a recording and the loop that makes room. Nothing worth keeping
    is ever touched, and on a disk that works the loop does what a short specification says.
  \<^item> \<open>Recorder\<close> and \<open>RecorderProps\<close> (\<open>DiagTask\<close> in \<open>daemon/src/diag.rs\<close>): the task that records, a state over that of the
    store with the open files, the detectors and what it sent to the screen. A frame rule (\<open>keeps\<close>) separates the
    store's part of the state from the task's. The screen tells the truth in every orderly run, an alarm survives
    rotations, no recording starts without room; two lemmas show where the code falls short of its comments.

  \<^bold>\<open>The owner's door.\<close>
  \<^item> \<open>Display\<close> (\<open>daemon/src/display/mod.rs\<close>), \<open>Pairing\<close> and \<open>PairingProps\<close> (\<open>daemon/src/pairing.rs\<close>), \<open>StepUp\<close>
    (\<open>daemon/src/stepup.rs\<close>): what the screen may show, how a browser becomes trusted, and when the terminal
    opens. The properties run over arbitrary sequences of operations: trust has an origin, first contact
    happens once, guesses are limited and slowed down, a terminal window needs a recent confirmation.

  \<^bold>\<open>Shared.\<close> \<open>RhPrelude\<close> holds bytes, results, text and the generic lemmas; interfaces are locales
  that the components' own definitions interpret.

  \<^bold>\<open>Conventions.\<close> A struct is a record, an enum a datatype with the source's constructors, a fixed-width
  integer a word (or a natural number where the code cannot wrap), a \<open>Result\<close> a sum with the error on the
  left, a \<open>HashMap\<close> a map or a set of keys. A method that changes its receiver returns it. Instants and
  durations are nanoseconds. Every function terminates by a measure or structurally, so no fuel is used;
  a property that something happens is stated of a total function or of a run that is shown to end.

  \<^bold>\<open>Parameters.\<close> Code outside the sources is an argument: the checksum, the gzip codec, the JSON coder, the
  decoders of RRC and NAS messages (generated from ASN.1 and from pycrate), hashing and randomness, the
  clock, and the files. What a property needs of one of them is a named hypothesis, and its witness
  instantiates it.

  \<^bold>\<open>Not modelled.\<close> The byte layouts that the deku macro derives and the generated ASN.1 types; device
  files, serial ports, screens and radios; the HTTP server, TLS, and the installer, which are plumbing
  around libraries; the ASN.1 codec itself; the web interface, which is another language.
\<close>

section \<open>What a BSS scan can make fire\<close>

text \<open>Conditions that \<open>needs_monitor_mode\<close> rules out but that ask only which elements are present.\<close>

fun presence_only :: "MatchCondition \<Rightarrow> bool" where
  "presence_only (IeIdSequence _) = True"
| "presence_only (InformationElementCond _ (Some [])) = True"
| "presence_only _ = False"

lemma scan_wf_no_payload_match:
  assumes "scan_wf w" and "needs_monitor_mode c" and "\<not> presence_only c"
  shows "match_wifi c w = None"
proof (cases c)
  case (InformationElementCond i prefix)
  with assms(2,3) obtain b bs where prefix: "prefix = Some (b # bs)"
    by (cases prefix; cases "the prefix") auto
  have "\<not> starts_with (b # bs) (ie_data ie)" if "ie \<in> set (w_information_elements w)" for ie
    using that assms(1) by (auto simp: scan_wf_def starts_with_def)
  then show ?thesis
    by (auto simp: InformationElementCond prefix then_some_def split: option.splits dest!: find_Some_mem)
next
  case (VendorOui oui)
  have "vendor_oui ie = None" if "ie \<in> set (w_information_elements w)" for ie
    using that assms(1) by (auto simp: scan_wf_def vendor_oui_def)
  then have "find_map (\<lambda>ie. case vendor_oui ie of None \<Rightarrow> None
      | Some (a, b, c) \<Rightarrow> then_some (prefix_matches oui (MacAddr a b c 0 0 0)) (a, b, c)) (w_information_elements w) = None"
    by (intro find_map_None) simp
  then show ?thesis by (simp add: VendorOui)
qed (use assms in \<open>auto simp: scan_wf_def then_some_def\<close>)

text \<open>C38: A rule that needs what a BSS scan cannot deliver, a frame kind the scan does not see, element
  contents or Bluetooth data, never matches an observation parsed from a scan.\<close>

theorem unreachable_rules_stay_silent:
  assumes "w \<in> set (parse_iw_scan output)"
    and "list_ex (\<lambda>c. needs_monitor_mode c \<and> \<not> presence_only c) (sig_conditions s)"
  shows "\<not> reachable_via_bss_scan s \<and> match_all (sig_conditions s) (WifiPayload w) = None"
proof -
  obtain c where c: "c \<in> set (sig_conditions s)" "needs_monitor_mode c" "\<not> presence_only c"
    using assms(2) by (auto simp: list_ex_iff)
  have "match_one c (WifiPayload w) = None"
    using scan_wf_no_payload_match [OF shape.parse_good [OF assms(1)]] c by simp
  then have "match_all (sig_conditions s) (WifiPayload w) = None"
    using match_all_mem [of "sig_conditions s" "WifiPayload w"] c(1) by (cases "match_all (sig_conditions s) (WifiPayload w)") fastforce+
  with c show ?thesis by (auto simp: reachable_via_bss_scan_def list_ex_iff)
qed

theorem unreachable_rules_stay_silent_witness:
  "match_all (sig_conditions probe_signature) (WifiPayload (finish_security (bss_record (lit ''70:b3:d5:7c:b4:01'')))) = None"
proof -
  have "finish_security (bss_record (lit ''70:b3:d5:7c:b4:01'')) \<in> set (parse_iw_scan (lit ''BSS 70:b3:d5:7c:b4:01''))"
    by (simp add: parse_iw_scan_def str_lines_def chomp_def flush_record_def scan_line_def
        trim_def trim_start_def trim_end_def is_whitespace_def Let_def)
  from unreachable_rules_stay_silent [OF this, of probe_signature] show ?thesis
    by (simp add: probe_signature_def)
qed

text \<open>The coverage answer is wrong in one direction for element fingerprints. A rule on the exact
  sequence of element ids is reported as out of reach of a BSS scan, but the scan parser does record
  the ids in the order they were printed, and the rule fires.\<close>

theorem fingerprint_rule_fires_on_scan:
  "\<not> reachable_via_bss_scan (probe_signature\<lparr>sig_conditions := [IeIdSequence [0, 48]]\<rparr>)
   \<and> (\<exists>w \<in> set (parse_iw_scan (lit ''BSS 70:b3:d5:7c:b4:01'' @ [10] @ lit ''SSID: x'' @ [10] @ lit ''RSN:'')).
        match_all [IeIdSequence [0, 48]] (WifiPayload w) = Some [ElementFingerprint [0, 48]])"
proof
  show "\<not> reachable_via_bss_scan (probe_signature\<lparr>sig_conditions := [IeIdSequence [0, 48]]\<rparr>)"
    by (simp add: reachable_via_bss_scan_def)
  show "\<exists>w \<in> set (parse_iw_scan (lit ''BSS 70:b3:d5:7c:b4:01'' @ [10] @ lit ''SSID: x'' @ [10] @ lit ''RSN:'')).
      match_all [IeIdSequence [0, 48]] (WifiPayload w) = Some [ElementFingerprint [0, 48]]"
    by (simp add: parse_iw_scan_def str_lines_def chomp_def flush_record_def scan_line_def scan_field_def
        trim_def trim_start_def trim_end_def is_whitespace_def starts_with_def PRINTED_ELEMENT_NAMES_def Let_def
        with_security_def finish_security_def bss_record_def wifi_empty_def ie_new_def then_some_def
        split: sum.splits)
qed

text \<open>And wrong in the other direction for frame kinds. A rule on beacons, or on probe responses, is
  reported as within reach of a BSS scan, but the scan reports the two as one combined kind and the
  matcher compares kinds exactly, so the rule can never fire there.\<close>

theorem beacon_rule_never_fires_on_scan:
  assumes "w \<in> set (parse_iw_scan output)" and "frame \<in> {Beacon, ProbeResponse}"
  shows "\<not> needs_monitor_mode (FrameType frame) \<and> match_one (FrameType frame) (WifiPayload w) = None"
  using shape.parse_good [OF assms(1)] assms(2) by (auto simp: scan_wf_def then_some_def)

theorem beacon_rule_never_fires_on_scan_witness:
  "match_one (FrameType Beacon) (WifiPayload (finish_security (bss_record (lit ''70:b3:d5:7c:b4:01'')))) = None"
proof -
  have "finish_security (bss_record (lit ''70:b3:d5:7c:b4:01'')) \<in> set (parse_iw_scan (lit ''BSS 70:b3:d5:7c:b4:01''))"
    by (simp add: parse_iw_scan_def str_lines_def chomp_def flush_record_def scan_line_def
        trim_def trim_start_def trim_end_def is_whitespace_def Let_def)
  from beacon_rule_never_fires_on_scan [OF this, of Beacon] show ?thesis by simp
qed

end
